(* ===== verification/Prelude.thy ===== *)
theory Prelude
  imports Main "HOL-Library.Sublist" "HOL-Library.Char_ord" "HOL-Library.List_Lexorder"
begin

text \<open>
  Shared vocabulary of the development: the theorem collections, Go's integer
  conversions, a few facts on lists, options and sums that several components use.

  Go's \<^verbatim>\<open>int\<close> and \<^verbatim>\<open>int64\<close> are 64 bits wide on the supported platforms. Values are
  kept in \<^typ>\<open>int\<close>; \<open>i64\<close> is the wrap-around and is written wherever the code adds or
  multiplies numbers it did not bound. Strings are byte strings in Go, and a
  \<^typ>\<open>char\<close> is a byte, so \<^typ>\<open>string\<close> models them directly.
\<close>

named_theorems model_defs \<open>definitions unfolded together when a component is evaluated\<close>
named_theorems inv_intros \<open>preservation of the component invariants, one rule per operation\<close>
named_theorems frame_simps \<open>what an operation leaves unchanged\<close>

type_synonym path = string

subsection \<open>64-bit integers\<close>

definition i64 :: "int \<Rightarrow> int" where
  "i64 x = (x + 2 ^ 63) mod 2 ^ 64 - 2 ^ 63"

abbreviation in_i64 :: "int \<Rightarrow> bool" where
  "in_i64 x \<equiv> - (2 ^ 63) \<le> x \<and> x < 2 ^ 63"

lemma i64_id [simp]: "in_i64 x \<Longrightarrow> i64 x = x"
  by (simp add: i64_def)

lemma i64_range: "in_i64 (i64 x)"
proof -
  have "0 \<le> (x + 2 ^ 63) mod (2 ^ 64 :: int)" "(x + 2 ^ 63) mod 2 ^ 64 < (2 ^ 64 :: int)"
    by (rule pos_mod_sign, simp) (rule pos_mod_bound, simp)
  then show ?thesis by (simp add: i64_def)
qed

lemma i64_idem [simp]: "i64 (i64 x) = i64 x"
  using i64_range by (rule i64_id)

text \<open>Go's integer division truncates towards zero.\<close>

definition quot :: "int \<Rightarrow> int \<Rightarrow> int" where
  "quot a b = (if 0 \<le> a then a div b else - ((- a) div b))"

lemma quot_nonneg [simp]: "0 \<le> a \<Longrightarrow> quot a b = a div b"
  by (simp add: quot_def)

subsection \<open>Results\<close>

text \<open>A Go function returning \<^verbatim>\<open>(T, error)\<close> returns \<open>Inl\<close> the error or \<open>Inr\<close> the value.\<close>

definition is_ok :: "'e + 'a \<Rightarrow> bool" where
  "is_ok r = (case r of Inl _ \<Rightarrow> False | Inr _ \<Rightarrow> True)"

lemma is_ok_simps [simp]: "is_ok (Inr x)" "\<not> is_ok (Inl e)"
  by (simp_all add: is_ok_def)

lemma is_ok_iff: "is_ok r \<longleftrightarrow> (\<exists>x. r = Inr x)"
  by (cases r) auto

text \<open>A check that runs over a list in order and stops at the first error.\<close>

fun check_all :: "('a \<Rightarrow> 'e option) \<Rightarrow> 'a list \<Rightarrow> 'e option" where
  "check_all f [] = None"
| "check_all f (x # xs) = (case f x of Some e \<Rightarrow> Some e | None \<Rightarrow> check_all f xs)"

lemma check_all_None [simp]: "check_all f xs = None \<longleftrightarrow> (\<forall>x \<in> set xs. f x = None)"
  by (induction xs) (auto split: option.splits)

lemma check_all_SomeD: "check_all f xs = Some e \<Longrightarrow> \<exists>x \<in> set xs. f x = Some e"
  by (induction xs) (auto split: option.splits)

subsection \<open>Operations on a state\<close>

text \<open>
  A Go function that works on shared state and returns \<^verbatim>\<open>(T, error)\<close>: it maps a state to a
  result and the state it leaves. \<open>andthen\<close> is the \<^verbatim>\<open>if err != nil { return err }\<close> between two
  calls, \<open>deferred\<close> the \<^verbatim>\<open>defer\<close> of a cleanup whose own result is dropped.
\<close>

type_synonym ('s, 'e, 'a) op = "'s \<Rightarrow> ('e + 'a) \<times> 's"

definition ret :: "'a \<Rightarrow> ('s, 'e, 'a) op" where
  "ret a s = (Inr a, s)"

definition fail :: "'e \<Rightarrow> ('s, 'e, 'a) op" where
  "fail e s = (Inl e, s)"

definition andthen :: "('s, 'e, 'a) op \<Rightarrow> ('a \<Rightarrow> ('s, 'e, 'b) op) \<Rightarrow> ('s, 'e, 'b) op" where
  "andthen m f s = (case m s of (Inl e, s') \<Rightarrow> (Inl e, s') | (Inr a, s') \<Rightarrow> f a s')"

definition ensure :: "bool \<Rightarrow> 'e \<Rightarrow> ('s, 'e, unit) op" where
  "ensure c e = (if c then ret () else fail e)"

definition no_err :: "'e option \<Rightarrow> ('s, 'e, unit) op" where
  "no_err r = (case r of None \<Rightarrow> ret () | Some e \<Rightarrow> fail e)"

definition ok_or :: "('s \<Rightarrow> bool \<times> 's) \<Rightarrow> 'e \<Rightarrow> ('s, 'e, unit) op" where
  "ok_or m e s = (case m s of (b, s') \<Rightarrow> (if b then Inr () else Inl e, s'))"

definition some_or :: "('s \<Rightarrow> 'a option \<times> 's) \<Rightarrow> 'e \<Rightarrow> ('s, 'e, 'a) op" where
  "some_or m e s = (case m s of (Some a, s') \<Rightarrow> (Inr a, s') | (None, s') \<Rightarrow> (Inl e, s'))"

definition deferred :: "('s, 'e, 'a) op \<Rightarrow> ('s \<Rightarrow> 'r \<times> 's) \<Rightarrow> ('s, 'e, 'a) op" where
  "deferred m g s = (case m s of (r, s') \<Rightarrow> (r, snd (g s')))"

lemmas op_defs [model_defs] =
  ret_def fail_def andthen_def ensure_def no_err_def ok_or_def some_or_def deferred_def

lemma andthen_InrE:
  assumes "andthen m f s = (Inr b, s')"
  obtains a s1 where "m s = (Inr a, s1)" "f a s1 = (Inr b, s')"
  using assms by (auto simp: andthen_def split: prod.splits sum.splits)

lemma andthen_InlE:
  assumes "andthen m f s = (Inl e, s')"
  obtains "m s = (Inl e, s')" | a s1 where "m s = (Inr a, s1)" "f a s1 = (Inl e, s')"
  using assms by (auto simp: andthen_def split: prod.splits sum.splits)

lemma andthen_pure: "andthen (Pair (Inr x)) f = f x" "andthen (Pair (Inl e)) f = fail e"
  by (simp_all add: andthen_def fail_def fun_eq_iff)

text \<open>Stepping through a run that succeeds.\<close>

definition runs :: "('s, 'e, 'a) op \<Rightarrow> 's \<Rightarrow> bool" where
  "runs m s \<longleftrightarrow> (\<exists>a s'. m s = (Inr a, s'))"

lemma andthen_step: "m s = (Inr a, s1) \<Longrightarrow> f a s1 = x \<Longrightarrow> andthen m f s = x"
  by (simp add: andthen_def)

lemma runs_andthen: "m s = (Inr a, s1) \<Longrightarrow> runs (f a) s1 \<Longrightarrow> runs (andthen m f) s"
  by (auto simp: runs_def andthen_def)

lemma runs_ret: "runs (ret a) s"
  by (simp add: runs_def ret_def)

lemma ret_eq [simp]: "ret a s = (r, s') \<longleftrightarrow> r = Inr a \<and> s' = s"
  by (auto simp: ret_def)

lemma fail_eq [simp]: "fail e s = (r, s') \<longleftrightarrow> r = Inl e \<and> s' = s"
  by (auto simp: fail_def)

lemma ensure_eq [simp]: "ensure c e s = (r, s') \<longleftrightarrow> r = (if c then Inr () else Inl e) \<and> s' = s"
  by (auto simp: ensure_def)

lemma no_err_eq [simp]:
  "no_err x s = (r, s') \<longleftrightarrow> r = (case x of None \<Rightarrow> Inr () | Some e \<Rightarrow> Inl e) \<and> s' = s"
  by (auto simp: no_err_def split: option.splits)

lemma andthen_Inr_iff:
  "andthen m f s = (Inr b, s') \<longleftrightarrow> (\<exists>a s1. m s = (Inr a, s1) \<and> f a s1 = (Inr b, s'))"
  by (auto simp: andthen_def split: prod.splits sum.splits)

lemma ensure_Inr: "ensure c e s = (Inr u, s') \<longleftrightarrow> c \<and> s' = s"
  by auto

lemma no_err_Inr: "no_err x s = (Inr u, s') \<longleftrightarrow> x = None \<and> s' = s"
  by (auto split: option.splits)

lemma ok_or_Inr [simp]: "ok_or m e s = (Inr u, s') \<longleftrightarrow> m s = (True, s')"
  by (auto simp: ok_or_def split: prod.splits)

lemma some_or_Inr [simp]: "some_or m e s = (Inr a, s') \<longleftrightarrow> m s = (Some a, s')"
  by (auto simp: some_or_def split: prod.splits option.splits)

text \<open>
  What an operation leaves alone is a relation between the state before and after. Any
  reflexive and transitive one passes through the combinators.
\<close>

definition keeps :: "('s \<Rightarrow> 's \<Rightarrow> bool) \<Rightarrow> ('s \<Rightarrow> 'r \<times> 's) \<Rightarrow> bool" where
  "keeps R m \<longleftrightarrow> (\<forall>s. R s (snd (m s)))"

lemma keepsI: "(\<And>s r s'. m s = (r, s') \<Longrightarrow> R s s') \<Longrightarrow> keeps R m"
  unfolding keeps_def by (metis prod.collapse)

lemma keepsD: "keeps R m \<Longrightarrow> m s = (r, s') \<Longrightarrow> R s s'"
  by (metis keeps_def snd_conv)

text \<open>A run that ends in an error and leaves the state as \<open>R\<close> allows.\<close>

definition stops :: "('s \<Rightarrow> 's \<Rightarrow> bool) \<Rightarrow> ('s, 'e, 'a) op \<Rightarrow> 's \<Rightarrow> bool" where
  "stops R m s \<longleftrightarrow> (\<exists>e s'. m s = (Inl e, s') \<and> R s s')"

text \<open>The same for all runs that end in an error.\<close>

definition keeps_err :: "('s \<Rightarrow> 's \<Rightarrow> bool) \<Rightarrow> ('s, 'e, 'a) op \<Rightarrow> bool" where
  "keeps_err R m \<longleftrightarrow> (\<forall>s e s'. m s = (Inl e, s') \<longrightarrow> R s s')"

lemma keeps_errD: "keeps_err R m \<Longrightarrow> m s = (Inl e, s') \<Longrightarrow> R s s'"
  by (auto simp: keeps_err_def)

lemma keeps_err_keeps: "keeps R m \<Longrightarrow> keeps_err R m"
  by (auto simp: keeps_err_def dest: keepsD)

locale frame =
  fixes R :: "'s \<Rightarrow> 's \<Rightarrow> bool"
  assumes frame_refl: "R s s"
    and frame_trans: "R s t \<Longrightarrow> R t u \<Longrightarrow> R s u"
begin

lemma keeps_ret: "keeps R (ret a)"
  by (auto intro!: keepsI simp: frame_refl)

lemma keeps_fail: "keeps R (fail e)"
  by (auto intro!: keepsI simp: frame_refl)

lemma keeps_ensure: "keeps R (ensure c e)"
  by (auto intro!: keepsI simp: frame_refl)

lemma keeps_no_err: "keeps R (no_err x)"
  by (auto intro!: keepsI simp: frame_refl)

lemma keeps_ok_or: "keeps R m \<Longrightarrow> keeps R (ok_or m e)"
  by (auto intro!: keepsI simp: ok_or_def dest: keepsD split: prod.splits)

lemma keeps_some_or: "keeps R m \<Longrightarrow> keeps R (some_or m e)"
  by (auto intro!: keepsI simp: some_or_def dest: keepsD split: prod.splits option.splits)

lemma keeps_andthen: "keeps R m \<Longrightarrow> (\<And>a. keeps R (f a)) \<Longrightarrow> keeps R (andthen m f)"
  by (rule keepsI) (auto simp: andthen_def dest: keepsD intro: frame_trans split: prod.splits sum.splits)

lemma keeps_deferred: "keeps R m \<Longrightarrow> keeps R g \<Longrightarrow> keeps R (deferred m g)"
  unfolding keeps_def deferred_def by (auto split: prod.splits intro: frame_trans dest: spec)

lemma stops_first: "stops R m s \<Longrightarrow> stops R (andthen m f) s"
  by (auto simp: stops_def andthen_def)

lemma stops_later:
  assumes "keeps R m" "\<And>a s1. R s s1 \<Longrightarrow> stops R (f a) s1"
  shows "stops R (andthen m f) s"
proof -
  obtain r s1 where m: "m s = (r, s1)" by fastforce
  then have "R s s1" by (rule keepsD [OF assms(1)])
  show ?thesis
  proof (cases r)
    case (Inl e)
    with m \<open>R s s1\<close> show ?thesis by (simp add: stops_def andthen_def)
  next
    case (Inr a)
    obtain e s' where "f a s1 = (Inl e, s')" "R s1 s'"
      using assms(2) [OF \<open>R s s1\<close>, of a] by (auto simp: stops_def)
    moreover have "R s s'" using \<open>R s s1\<close> \<open>R s1 s'\<close> by (rule frame_trans)
    ultimately show ?thesis using m Inr by (simp add: stops_def andthen_def)
  qed
qed

lemma err_andthen: "keeps R m \<Longrightarrow> (\<And>a. keeps_err R (f a)) \<Longrightarrow> keeps_err R (andthen m f)"
  unfolding keeps_err_def by (auto elim!: andthen_InlE dest: keepsD intro: frame_trans)

lemma err_andthen_last: "keeps_err R m \<Longrightarrow> (\<And>a s e s'. f a s \<noteq> (Inl e, s')) \<Longrightarrow> keeps_err R (andthen m f)"
  unfolding keeps_err_def by (auto elim!: andthen_InlE)

lemma err_deferred: "keeps_err R m \<Longrightarrow> keeps R g \<Longrightarrow> keeps_err R (deferred m g)"
  unfolding keeps_err_def keeps_def deferred_def
  by (auto split: prod.splits intro: frame_trans) (metis frame_trans snd_conv)

lemmas keeps_intros =
  keeps_ret keeps_fail keeps_ensure keeps_no_err keeps_ok_or keeps_some_or keeps_andthen keeps_deferred

end

text \<open>
  A weaker relation \<open>Q\<close> for the whole operation, when its first steps satisfy the frame \<open>R\<close>.
\<close>

locale frame_into = frame +
  fixes Q :: "'a \<Rightarrow> 'a \<Rightarrow> bool"
  assumes into: "R s t \<Longrightarrow> Q s t"
    and extend: "R s t \<Longrightarrow> Q t u \<Longrightarrow> Q s u"
begin

lemma into_err: "keeps R m \<Longrightarrow> keeps_err Q m"
  by (auto simp: keeps_err_def dest: keepsD intro: into)

lemma into_andthen: "keeps R m \<Longrightarrow> (\<And>a. keeps_err Q (f a)) \<Longrightarrow> keeps_err Q (andthen m f)"
  unfolding keeps_err_def by (auto elim!: andthen_InlE dest: keepsD intro: into extend)

lemma into_pure: "(\<And>a. r = Inr a \<Longrightarrow> keeps_err Q (f a)) \<Longrightarrow> keeps_err Q (andthen (Pair r) f)"
  by (cases r) (auto simp: andthen_pure keeps_err_def intro: into frame_refl)

lemma into_ret: "keeps_err Q (ret a)"
  by (rule into_err) (rule keeps_ret)

end

subsection \<open>Lists\<close>

lemma distinct_of_sorted_adj:
  "distinct_adj xs \<Longrightarrow> sorted xs \<Longrightarrow> distinct (xs :: 'a :: linorder list)"
  by (induction xs rule: induct_list012) auto

text \<open>\<^verbatim>\<open>slices.Compact(slices.Sorted(xs))\<close>: ascending, without repetitions.\<close>

definition sorted_compact :: "'a :: linorder list \<Rightarrow> 'a list" where
  "sorted_compact xs = remdups_adj (sort xs)"

lemma set_sorted_compact [simp]: "set (sorted_compact xs) = set xs"
  by (simp add: sorted_compact_def)

lemma sorted_sorted_compact [simp]: "sorted (sorted_compact xs)"
  by (simp add: sorted_compact_def sorted_remdups_adj)

lemma distinct_sorted_compact [simp]: "distinct (sorted_compact xs)"
  by (rule distinct_of_sorted_adj) (simp_all add: sorted_compact_def sorted_remdups_adj)

lemma sorted_compact_eq_Nil [simp]: "sorted_compact xs = [] \<longleftrightarrow> xs = []"
  by (metis set_empty set_sorted_compact)

text \<open>Filtering by membership in a duplicate-free list of keys.\<close>

lemma length_filter_mem:
  assumes "distinct ys" "set ys \<subseteq> f ` set xs" "inj_on f (set xs)" "distinct xs"
  shows "length (filter (\<lambda>x. f x \<in> set ys) xs) = length ys"
proof -
  have "length (filter (\<lambda>x. f x \<in> set ys) xs) = card {x \<in> set xs. f x \<in> set ys}"
    using assms(4) by (simp add: distinct_length_filter Int_def conj_commute)
  also have "\<dots> = card (f ` {x \<in> set xs. f x \<in> set ys})"
    by (rule card_image [symmetric]) (rule inj_on_subset [OF assms(3)], auto)
  also have "f ` {x \<in> set xs. f x \<in> set ys} = set ys"
    using assms(2) by auto
  also have "card (set ys) = length ys"
    by (rule distinct_card) (rule assms(1))
  finally show ?thesis .
qed

end
