(* ===== verification/GoStr.thy ===== *)
theory GoStr
  imports Prelude
begin

text \<open>
  The functions of Go's packages \<^verbatim>\<open>strings\<close>, \<^verbatim>\<open>strconv\<close> and \<^verbatim>\<open>unicode/utf8\<close> that the
  program uses, on byte strings. \<^verbatim>\<open>strings.HasPrefix\<close>, \<^verbatim>\<open>HasSuffix\<close> and \<^verbatim>\<open>Contains\<close> are
  the library's \<^const>\<open>prefix\<close>, \<^const>\<open>suffix\<close> and \<^const>\<open>sublist\<close>.

  Case mapping: \<^verbatim>\<open>ToLower\<close> maps exactly two code points outside ASCII into ASCII (the
  Kelvin sign to k, the dotted capital I to i) and \<^verbatim>\<open>EqualFold\<close> equates two with ASCII
  letters (the Kelvin sign and the long s). Both are written out; any other code point is
  left alone, which is exact whenever one side is ASCII, as in every use but the language
  lists of a batch request.
\<close>

subsection \<open>Case mapping\<close>

definition lower_char :: "char \<Rightarrow> char" where
  "lower_char c = (if CHR ''A'' \<le> c \<and> c \<le> CHR ''Z'' then char_of (of_char c + (32 :: nat)) else c)"

definition kelvin_sign :: string where "kelvin_sign = [CHR 0xE2, CHR 0x84, CHR 0xAA]"
definition dotted_I :: string where "dotted_I = [CHR 0xC4, CHR 0xB0]"
definition long_s :: string where "long_s = [CHR 0xC5, CHR 0xBF]"

fun to_lower :: "string \<Rightarrow> string" where
  "to_lower [] = []"
| "to_lower (c # s) =
     (if prefix kelvin_sign (c # s) then CHR ''k'' # to_lower (drop 2 s)
      else if prefix dotted_I (c # s) then CHR ''i'' # to_lower (drop 1 s)
      else lower_char c # to_lower s)"

fun fold_case :: "string \<Rightarrow> string" where
  "fold_case [] = []"
| "fold_case (c # s) =
     (if prefix kelvin_sign (c # s) then CHR ''k'' # fold_case (drop 2 s)
      else if prefix long_s (c # s) then CHR ''s'' # fold_case (drop 1 s)
      else lower_char c # fold_case s)"

definition equal_fold :: "string \<Rightarrow> string \<Rightarrow> bool" where
  "equal_fold a b \<longleftrightarrow> fold_case a = fold_case b"

lemma equal_fold_refl [simp]: "equal_fold a a"
  by (simp add: equal_fold_def)

lemma equal_fold_sym: "equal_fold a b \<longleftrightarrow> equal_fold b a"
  by (auto simp: equal_fold_def)

subsection \<open>Splitting and joining\<close>

fun split_on :: "char \<Rightarrow> string \<Rightarrow> string list" where
  "split_on c [] = [[]]"
| "split_on c (x # xs) =
     (let ws = split_on c xs in if x = c then [] # ws else (x # hd ws) # tl ws)"

fun join :: "string \<Rightarrow> string list \<Rightarrow> string" where
  "join sep [] = []"
| "join sep [w] = w"
| "join sep (w # ws) = w @ sep @ join sep ws"

declare split_on.simps(2) [simp del]

lemma split_on_Cons [simp]:
  "split_on c (x # xs) =
     (if x = c then [] # split_on c xs else (x # hd (split_on c xs)) # tl (split_on c xs))"
  by (simp add: split_on.simps(2) Let_def)

lemma split_on_ne [simp]: "split_on c s \<noteq> []"
  by (cases s) auto

lemma join_Cons: "ws \<noteq> [] \<Longrightarrow> join sep (w # ws) = w @ sep @ join sep ws"
  by (cases ws) auto

lemma join_split_on: "join [c] (split_on c s) = s"
proof (induction s)
  case Nil
  then show ?case by simp
next
  case (Cons x xs)
  obtain w ws where w: "split_on c xs = w # ws"
    by (cases "split_on c xs") auto
  with Cons show ?case by (cases ws) auto
qed

lemma split_on_no_sep: "c \<notin> set w \<Longrightarrow> split_on c w = [w]"
  by (induction w) auto

lemma split_on_append: "c \<notin> set w \<Longrightarrow> split_on c (w @ c # s) = w # split_on c s"
  by (induction w) auto

lemma split_on_join:
  "ws \<noteq> [] \<Longrightarrow> \<forall>w \<in> set ws. c \<notin> set w \<Longrightarrow> split_on c (join [c] ws) = ws"
  by (induction "[c]" ws rule: join.induct) (auto simp: split_on_no_sep split_on_append)

lemma split_on_no_sep_in: "w \<in> set (split_on c s) \<Longrightarrow> c \<notin> set w"
proof (induction s arbitrary: w)
  case Nil
  then show ?case by simp
next
  case (Cons x xs)
  obtain v vs where v: "split_on c xs = v # vs"
    by (cases "split_on c xs") auto
  with Cons show ?case by (auto split: if_splits)
qed

subsection \<open>Trimming white space\<close>

text \<open>The code points of \<^verbatim>\<open>unicode.IsSpace\<close>, in UTF-8.\<close>

definition space_seqs :: "string list" where
  "space_seqs =
     [[CHR 0x09], [CHR 0x0A], [CHR 0x0B], [CHR 0x0C], [CHR 0x0D], [CHR 0x20],
      [CHR 0xC2, CHR 0x85], [CHR 0xC2, CHR 0xA0], [CHR 0xE1, CHR 0x9A, CHR 0x80]] @
     map (\<lambda>n. [CHR 0xE2, CHR 0x80, char_of (n :: nat)])
       [0x80, 0x81, 0x82, 0x83, 0x84, 0x85, 0x86, 0x87, 0x88, 0x89, 0x8A, 0xA8, 0xA9, 0xAF] @
     [[CHR 0xE2, CHR 0x81, CHR 0x9F], [CHR 0xE3, CHR 0x80, CHR 0x80]]"

fun strip_left :: "string list \<Rightarrow> string \<Rightarrow> string" where
  "strip_left seqs [] = []"
| "strip_left seqs (c # s) =
     (case find (\<lambda>q. q \<noteq> [] \<and> prefix q (c # s)) seqs of
        Some q \<Rightarrow> strip_left seqs (drop (length q - 1) s)
      | None \<Rightarrow> c # s)"

definition trim_space :: "string \<Rightarrow> string" where
  "trim_space s = rev (strip_left (map rev space_seqs) (rev (strip_left space_seqs s)))"

lemma strip_left_suffix: "suffix (strip_left seqs s) s"
proof (induction seqs s rule: strip_left.induct)
  case (1 seqs)
  then show ?case by simp
next
  case (2 seqs c s)
  show ?case
  proof (cases "find (\<lambda>q. q \<noteq> [] \<and> prefix q (c # s)) seqs")
    case None
    then show ?thesis by simp
  next
    case (Some q)
    with "2.IH" have "suffix (strip_left seqs (drop (length q - 1) s)) (drop (length q - 1) s)"
      by simp
    also have "suffix (drop (length q - 1) s) s" by (rule suffix_drop)
    finally show ?thesis using Some by (auto intro: suffix_ConsI)
  qed
qed

lemma trim_space_Nil [simp]: "trim_space [] = []"
  by (simp add: trim_space_def)

lemma trim_space_sublist: "sublist (trim_space s) s"
proof -
  let ?l = "strip_left space_seqs s"
  have "suffix (strip_left (map rev space_seqs) (rev ?l)) (rev ?l)"
    by (rule strip_left_suffix)
  then have "prefix (trim_space s) ?l"
    by (simp add: trim_space_def suffix_to_prefix)
  moreover have "suffix ?l s" by (rule strip_left_suffix)
  ultimately show ?thesis
    by (meson prefix_imp_sublist sublist_order.order_trans suffix_imp_sublist)
qed

subsection \<open>Decimal numbers\<close>

definition digit_char :: "nat \<Rightarrow> char" where
  "digit_char d = char_of (48 + d)"

definition digit_val :: "char \<Rightarrow> nat option" where
  "digit_val c = (if CHR ''0'' \<le> c \<and> c \<le> CHR ''9'' then Some (of_char c - 48) else None)"

fun nat_digits :: "nat \<Rightarrow> string" where
  "nat_digits n = (if n < 10 then [digit_char n] else nat_digits (n div 10) @ [digit_char (n mod 10)])"

declare nat_digits.simps [simp del]

text \<open>\<^verbatim>\<open>strconv.Itoa\<close>, also what \<^verbatim>\<open>%d\<close> prints.\<close>

definition itoa :: "int \<Rightarrow> string" where
  "itoa i = (if i < 0 then CHR ''-'' # nat_digits (nat (- i)) else nat_digits (nat i))"

fun read_digits :: "nat \<Rightarrow> string \<Rightarrow> nat option" where
  "read_digits acc [] = Some acc"
| "read_digits acc (c # s) =
     (case digit_val c of None \<Rightarrow> None | Some d \<Rightarrow> read_digits (10 * acc + d) s)"

text \<open>
  \<^verbatim>\<open>strconv.ParseInt(s, 10, 64)\<close> (and \<^verbatim>\<open>Atoi\<close>): the value and the error. Callers that drop
  the error keep the value, which is 0 after a syntax error and the nearest bound after a
  range error.
\<close>

datatype num_error = ErrSyntax | ErrRange

definition parse_int :: "string \<Rightarrow> int \<times> num_error option" where
  "parse_int s =
     (let neg = (s \<noteq> [] \<and> hd s = CHR ''-'');
          ds = (if s \<noteq> [] \<and> hd s \<in> {CHR ''-'', CHR ''+''} then tl s else s)
      in if ds = [] then (0, Some ErrSyntax)
         else case read_digits 0 ds of
             None \<Rightarrow> (0, Some ErrSyntax)
           | Some n \<Rightarrow>
               let v = (if neg then - int n else int n)
               in if v < - (2 ^ 63) then (- (2 ^ 63), Some ErrRange)
                  else if 2 ^ 63 \<le> v then (2 ^ 63 - 1, Some ErrRange)
                  else (v, None))"

lemma parse_int_in_i64: "in_i64 (fst (parse_int s))"
  by (auto simp: parse_int_def Let_def split: option.splits)

lemma digit_val_digit_char: "d < 10 \<Longrightarrow> digit_val (digit_char d) = Some d"
proof -
  assume "d < 10"
  then have "(of_char (digit_char d) :: nat) = 48 + d"
    by (simp add: digit_char_def)
  with \<open>d < 10\<close> show ?thesis
    by (simp add: digit_val_def less_eq_char_def)
qed

lemma read_digits_append:
  "read_digits acc (s @ t) = (case read_digits acc s of None \<Rightarrow> None | Some n \<Rightarrow> read_digits n t)"
  by (induction s arbitrary: acc) (auto split: option.splits)

lemma read_nat_digits: "read_digits 0 (nat_digits n) = Some n"
proof (induction n rule: nat_digits.induct)
  case (1 n)
  show ?case
  proof (cases "n < 10")
    case True
    then show ?thesis by (simp add: nat_digits.simps [of n] digit_val_digit_char)
  next
    case False
    with 1 show ?thesis
      by (simp add: nat_digits.simps [of n] digit_val_digit_char read_digits_append)
  qed
qed

lemma digit_char_neq_sign: "d < 10 \<Longrightarrow> digit_char d \<noteq> CHR ''-'' \<and> digit_char d \<noteq> CHR ''+''"
proof -
  assume d: "d < 10"
  then have "(of_char (digit_char d) :: nat) = 48 + d" by (simp add: digit_char_def)
  then show ?thesis by (auto dest: arg_cong [of _ _ "of_char :: char \<Rightarrow> nat"])
qed

lemma nat_digits_ne [simp]: "nat_digits n \<noteq> []"
  by (subst nat_digits.simps) simp

lemma hd_nat_digits: "hd (nat_digits n) \<noteq> CHR ''-'' \<and> hd (nat_digits n) \<noteq> CHR ''+''"
proof (induction n rule: nat_digits.induct)
  case (1 n)
  then show ?case
    by (simp add: nat_digits.simps [of n] digit_char_neq_sign)
qed

lemma nat_digits_set: "c \<in> set (nat_digits n) \<Longrightarrow> \<exists>d < 10. c = digit_char d"
proof (induction n rule: nat_digits.induct)
  case (1 n)
  then show ?case
    by (cases "n < 10") (auto simp: nat_digits.simps [of n] intro: exI [of _ "n mod 10"])
qed

text \<open>Printing then parsing a 64-bit number gives it back.\<close>

lemma parse_int_itoa: "in_i64 i \<Longrightarrow> parse_int (itoa i) = (i, None)"
  using hd_nat_digits [of "nat i"]
  by (auto simp: parse_int_def itoa_def read_nat_digits Let_def)

lemma nat_digits_eq_iff [simp]: "nat_digits m = nat_digits n \<longleftrightarrow> m = n"
  by (metis option.inject read_nat_digits)

lemma nat_digits_neq_minus [simp]: "nat_digits n \<noteq> CHR ''-'' # s" "CHR ''-'' # s \<noteq> nat_digits n"
  using hd_nat_digits [of n] by (metis list.sel(1))+

lemma itoa_eq_iff [simp]: "itoa i = itoa j \<longleftrightarrow> i = j"
  by (auto simp: itoa_def eq_nat_nat_iff)

subsection \<open>UTF-8\<close>

definition byte_in :: "nat \<Rightarrow> nat \<Rightarrow> char \<Rightarrow> bool" where
  "byte_in lo hi c \<longleftrightarrow> lo \<le> of_char c \<and> of_char c \<le> hi"

text \<open>The length of the rune that starts the string, \<open>None\<close> when the bytes are not UTF-8.\<close>

fun rune_len :: "string \<Rightarrow> nat option" where
  "rune_len [] = None"
| "rune_len (a # s) =
     (let cont = byte_in 0x80 0xBF; b = (\<lambda>i. s ! i); n = length s in
      if byte_in 0 0x7F a then Some 1
      else if byte_in 0xC2 0xDF a \<and> 1 \<le> n \<and> cont (b 0) then Some 2
      else if byte_in 0xE0 0xEF a \<and> 2 \<le> n \<and>
          byte_in (if of_char a = (0xE0 :: nat) then 0xA0 else 0x80)
                  (if of_char a = (0xED :: nat) then 0x9F else 0xBF) (b 0) \<and> cont (b 1) then Some 3
      else if byte_in 0xF0 0xF4 a \<and> 3 \<le> n \<and>
          byte_in (if of_char a = (0xF0 :: nat) then 0x90 else 0x80)
                  (if of_char a = (0xF4 :: nat) then 0x8F else 0xBF) (b 0) \<and> cont (b 1) \<and> cont (b 2) then Some 4
      else None)"

lemma rune_len_pos: "rune_len s = Some n \<Longrightarrow> 0 < n \<and> n \<le> length s"
  by (cases s) (auto simp: Let_def split: if_splits)

text \<open>\<^verbatim>\<open>strings.ToValidUTF8(s, "")\<close> drops the bytes that are not part of a rune.\<close>

function to_valid_utf8 :: "string \<Rightarrow> string" where
  "to_valid_utf8 s =
     (if s = [] then []
      else case rune_len s of
          Some n \<Rightarrow> take n s @ to_valid_utf8 (drop n s)
        | None \<Rightarrow> to_valid_utf8 (tl s))"
  by pat_completeness auto
termination
  by (relation "measure length") (auto dest: rune_len_pos)

declare to_valid_utf8.simps [simp del]

lemma to_valid_utf8_length: "length (to_valid_utf8 s) \<le> length s"
proof (induction s rule: to_valid_utf8.induct)
  case (1 s)
  show ?case
  proof (cases "rune_len s")
    case None
    with 1 have "s \<noteq> [] \<Longrightarrow> length (to_valid_utf8 (tl s)) \<le> length (tl s)" by simp
    with None show ?thesis by (auto simp: to_valid_utf8.simps [of s])
  next
    case (Some n)
    with 1 have "s \<noteq> [] \<Longrightarrow> length (to_valid_utf8 (drop n s)) \<le> length (drop n s)" by simp
    with Some rune_len_pos [OF Some] show ?thesis
      by (auto simp: to_valid_utf8.simps [of s])
  qed
qed

end
