(* ===== verification/GoFloat.thy ===== *)
theory GoFloat
  imports Complex_Main GoStr "HOL-Library.Log_Nat"
begin

text \<open>
  Go's \<^verbatim>\<open>float64\<close>. A finite float is a rational number; \<open>fl64\<close> rounds an exact result to the
  nearest number with a 53-bit significand, ties to even, as IEEE 754 prescribes for each
  arithmetic operation and for the conversion of an integer or a decimal literal. Durations,
  sizes and ratios stay far inside the exponent range, so overflow to infinity, subnormal
  numbers and NaN are not modelled.
\<close>

definition pow2 :: "int \<Rightarrow> rat" where
  "pow2 e = (if 0 \<le> e then 2 ^ nat e else 1 / 2 ^ nat (- e))"

definition round_half_even :: "rat \<Rightarrow> int" where
  "round_half_even x =
     (let f = \<lfloor>x\<rfloor>; r = x - of_int f
      in if r < 1 / 2 then f else if 1 / 2 < r then f + 1 else if even f then f else f + 1)"

definition fl_exp :: "rat \<Rightarrow> int" where
  "fl_exp x =
     (case quotient_of x of (n, d) \<Rightarrow>
        let e = bitlen n - bitlen d - 53 in if 2 ^ 53 \<le> x / pow2 e then e + 1 else e)"

definition fl_pos :: "rat \<Rightarrow> rat" where
  "fl_pos x = of_int (round_half_even (x / pow2 (fl_exp x))) * pow2 (fl_exp x)"

definition fl64 :: "rat \<Rightarrow> rat" where
  "fl64 x = (if x = 0 then 0 else if x < 0 then - fl_pos (- x) else fl_pos x)"

text \<open>
  \<^verbatim>\<open>int64(f)\<close> truncates towards zero. Out of range the result is implementation-specific in
  Go; the value amd64 gives is used.
\<close>

definition trunc_int :: "rat \<Rightarrow> int" where
  "trunc_int x = (if 0 \<le> x then \<lfloor>x\<rfloor> else - \<lfloor>- x\<rfloor>)"

definition f2i :: "rat \<Rightarrow> int" where
  "f2i x = (if in_i64 (trunc_int x) then trunc_int x else - (2 ^ 63))"

text \<open>
  \<^verbatim>\<open>strconv.ParseFloat(s, 64)\<close> on decimal numerals, \<open>None\<close> for a syntax error. The other
  forms Go accepts (hexadecimal floats, infinities, NaN) are read as syntax errors.
\<close>

definition is_digit :: "char \<Rightarrow> bool" where
  "is_digit c \<longleftrightarrow> digit_val c \<noteq> None"

definition pow10 :: "int \<Rightarrow> rat" where
  "pow10 e = (if 0 \<le> e then 10 ^ nat e else 1 / 10 ^ nat (- e))"

definition split_sign :: "string \<Rightarrow> bool \<times> string" where
  "split_sign s =
     (case s of c # t \<Rightarrow> if c = CHR ''-'' then (True, t) else if c = CHR ''+'' then (False, t) else (False, s)
      | [] \<Rightarrow> (False, s))"

definition parse_exponent :: "string \<Rightarrow> int option" where
  "parse_exponent s =
     (case s of
        [] \<Rightarrow> Some 0
      | c # t \<Rightarrow>
          if c = CHR ''e'' \<or> c = CHR ''E'' then
            (case split_sign t of (neg, ds) \<Rightarrow>
               if ds = [] then None
               else map_option (\<lambda>n. if neg then - int n else int n) (read_digits 0 ds))
          else None)"

definition parse_float :: "string \<Rightarrow> rat option" where
  "parse_float s =
     (case split_sign s of (neg, t) \<Rightarrow>
        let ip = takeWhile is_digit t; r = dropWhile is_digit t;
            dot = (r \<noteq> [] \<and> hd r = CHR ''.'');
            fp = (if dot then takeWhile is_digit (tl r) else []);
            r' = (if dot then dropWhile is_digit (tl r) else r)
        in if ip @ fp = [] then None
           else case (read_digits 0 (ip @ fp), parse_exponent r') of
               (Some m, Some e) \<Rightarrow>
                 let v = of_nat m * pow10 (e - int (length fp)) in Some (fl64 (if neg then - v else v))
             | _ \<Rightarrow> None)"

subsection \<open>Rounding is monotone and exact on the integers it is used on\<close>

lemma pow2_pos [simp]: "0 < pow2 e"
  by (simp add: pow2_def)

lemma pow2_neq_0 [simp]: "pow2 e \<noteq> 0"
  using pow2_pos [of e] by linarith

lemma pow2_powi: "pow2 e = 2 powi e"
  by (cases "0 \<le> e")
    (simp_all only: pow2_def power_int_def if_True if_False power_inverse inverse_eq_divide power_one_over)

lemma pow2_add: "pow2 (a + b) = pow2 a * pow2 b"
  unfolding pow2_powi by (rule power_int_add) simp

lemma pow2_mono: "a \<le> b \<Longrightarrow> pow2 a \<le> pow2 b"
  unfolding pow2_powi by (rule power_int_increasing) simp_all

lemma pow2_of_nat: "pow2 (int n) = 2 ^ n"
  by (simp add: pow2_def)

lemma round_half_even_ge: "of_int n \<le> x \<Longrightarrow> n \<le> round_half_even x"
proof -
  assume "of_int n \<le> x"
  then have "n \<le> \<lfloor>x\<rfloor>" by (simp add: le_floor_iff)
  then show ?thesis by (simp add: round_half_even_def Let_def)
qed

lemma round_half_even_le:
  assumes "x \<le> of_int n"
  shows "round_half_even x \<le> n"
proof (cases "x = of_int n")
  case True
  then show ?thesis by (simp add: round_half_even_def)
next
  case False
  with assms have "\<lfloor>x\<rfloor> < n" by (simp add: floor_less_iff)
  then show ?thesis by (auto simp: round_half_even_def Let_def)
qed

lemma round_half_even_mono: "x \<le> y \<Longrightarrow> round_half_even x \<le> round_half_even y"
proof (cases "\<lfloor>x\<rfloor> = \<lfloor>y\<rfloor>")
  case True
  assume "x \<le> y"
  with True show ?thesis by (auto simp: round_half_even_def Let_def)
next
  case False
  assume "x \<le> y"
  with False have "\<lfloor>x\<rfloor> < \<lfloor>y\<rfloor>" using floor_mono [of x y] by linarith
  then have "x \<le> of_int \<lfloor>y\<rfloor>"
    using le_of_int_ceiling floor_less_iff by (metis less_imp_le)
  then have "round_half_even x \<le> \<lfloor>y\<rfloor>" by (rule round_half_even_le)
  also have "\<lfloor>y\<rfloor> \<le> round_half_even y" by (rule round_half_even_ge) simp
  finally show ?thesis .
qed

lemma round_half_even_int [simp]: "round_half_even (of_int n) = n"
  by (simp add: round_half_even_def)

lemma bitlen_pow2: "0 < n \<Longrightarrow> pow2 (bitlen n - 1) \<le> of_int n \<and> of_int n < pow2 (bitlen n)"
proof -
  assume n: "0 < n"
  then have b: "2 ^ nat (bitlen n - 1) \<le> n" "n < 2 ^ nat (bitlen n)"
    using bitlen_bounds [of n] by auto
  have p: "0 < bitlen n" using n bitlen_nonneg [of n] bitlen_eq_zero_iff [of n] by linarith
  have "(2 :: rat) ^ nat (bitlen n - 1) \<le> of_int n"
    using b(1) by (metis of_int_le_iff of_int_numeral of_int_power)
  moreover have "of_int n < (2 :: rat) ^ nat (bitlen n)"
    using b(2) by (metis of_int_less_iff of_int_numeral of_int_power)
  ultimately show ?thesis using p by (simp add: pow2_def)
qed

lemma fl_exp_bounds:
  assumes "0 < x"
  shows "2 ^ 52 * pow2 (fl_exp x) \<le> x \<and> x < 2 ^ 53 * pow2 (fl_exp x)"
proof -
  obtain n d where q: "quotient_of x = (n, d)" by (cases "quotient_of x")
  then have d: "0 < d" and x: "x = of_int n / of_int d"
    by (auto simp: quotient_of_denom_pos quotient_of_div)
  with assms have n: "0 < n" by (simp add: zero_less_divide_iff)
  define e where "e = bitlen n - bitlen d - 53"
  note bn = bitlen_pow2 [OF n] and bd = bitlen_pow2 [OF d]
  have "x < pow2 (bitlen n) / pow2 (bitlen d - 1)"
    unfolding x using bn bd n d by (intro frac_less) auto
  also have "\<dots> = 2 ^ 54 * pow2 e"
  proof -
    have "bitlen n = 54 + e + (bitlen d - 1)" by (simp add: e_def)
    then have "pow2 (bitlen n) = pow2 54 * pow2 e * pow2 (bitlen d - 1)" by (metis pow2_add)
    then show ?thesis by (simp add: pow2_def [of 54])
  qed
  finally have up: "x < 2 ^ 54 * pow2 e" .
  have "pow2 (bitlen n - 1) / pow2 (bitlen d) \<le> x"
    unfolding x using bn bd n d by (intro frac_le) auto
  moreover have "pow2 (bitlen n - 1) / pow2 (bitlen d) = 2 ^ 52 * pow2 e"
  proof -
    have "bitlen n - 1 = 52 + e + bitlen d" by (simp add: e_def)
    then have "pow2 (bitlen n - 1) = pow2 52 * pow2 e * pow2 (bitlen d)" by (metis pow2_add)
    then show ?thesis by (simp add: pow2_def [of 52])
  qed
  ultimately have low: "2 ^ 52 * pow2 e \<le> x" by simp
  have f: "fl_exp x = (if 2 ^ 53 \<le> x / pow2 e then e + 1 else e)"
    by (simp add: fl_exp_def q e_def Let_def)
  have p1: "pow2 (e + 1) = 2 * pow2 e" by (simp add: pow2_add pow2_def [of 1])
  show ?thesis
  proof (cases "2 ^ 53 \<le> x / pow2 e")
    case True
    then have "2 ^ 53 * pow2 e \<le> x" by (simp add: pos_le_divide_eq)
    with True up show ?thesis by (simp add: f p1)
  next
    case False
    then have "x < 2 ^ 53 * pow2 e" by (simp add: not_le pos_divide_less_eq)
    with False low show ?thesis by (simp add: f)
  qed
qed

lemma fl_exp_mono:
  assumes "0 < x" "x \<le> y"
  shows "fl_exp x \<le> fl_exp y"
proof (rule ccontr)
  assume "\<not> ?thesis"
  then have le: "fl_exp y + 1 \<le> fl_exp x" by simp
  have "y < 2 ^ 53 * pow2 (fl_exp y)" using fl_exp_bounds [of y] assms by simp
  also have "\<dots> = 2 ^ 52 * pow2 (fl_exp y + 1)" by (simp add: pow2_add pow2_def [of 1])
  also have "\<dots> \<le> 2 ^ 52 * pow2 (fl_exp x)" using pow2_mono [OF le] by simp
  also have "\<dots> \<le> x" using fl_exp_bounds [OF assms(1)] by simp
  finally show False using assms(2) by simp
qed

lemma fl_pos_bounds:
  assumes "0 < x"
  shows "2 ^ 52 * pow2 (fl_exp x) \<le> fl_pos x \<and> fl_pos x \<le> 2 ^ 53 * pow2 (fl_exp x)"
proof -
  let ?q = "x / pow2 (fl_exp x)"
  have "of_int (2 ^ 52) \<le> ?q" "?q \<le> of_int (2 ^ 53)"
    using fl_exp_bounds [OF assms] by (simp_all add: pos_le_divide_eq pos_divide_le_eq)
  then have "2 ^ 52 \<le> round_half_even ?q" "round_half_even ?q \<le> 2 ^ 53"
    by (auto intro: round_half_even_ge round_half_even_le)
  then have "(2 :: rat) ^ 52 \<le> of_int (round_half_even ?q)" "of_int (round_half_even ?q) \<le> (2 :: rat) ^ 53"
    by (metis of_int_le_iff of_int_numeral of_int_power)+
  then show ?thesis by (simp add: fl_pos_def mult_right_mono)
qed

lemma fl_pos_mono:
  assumes "0 < x" "x \<le> y"
  shows "fl_pos x \<le> fl_pos y"
proof (cases "fl_exp x = fl_exp y")
  case True
  have "x / pow2 (fl_exp x) \<le> y / pow2 (fl_exp x)"
    using assms(2) by (simp add: divide_right_mono less_imp_le)
  from round_half_even_mono [OF this] show ?thesis
    by (simp add: fl_pos_def True mult_right_mono less_imp_le)
next
  case False
  with fl_exp_mono [OF assms] have le: "fl_exp x + 1 \<le> fl_exp y" by simp
  have "fl_pos x \<le> 2 ^ 53 * pow2 (fl_exp x)" using fl_pos_bounds [OF assms(1)] by simp
  also have "\<dots> = 2 ^ 52 * pow2 (fl_exp x + 1)" by (simp add: pow2_add pow2_def [of 1])
  also have "\<dots> \<le> 2 ^ 52 * pow2 (fl_exp y)" using pow2_mono [OF le] by simp
  also have "\<dots> \<le> fl_pos y" using fl_pos_bounds [of y] assms by simp
  finally show ?thesis .
qed

lemma fl_pos_pos: "0 < x \<Longrightarrow> 0 < fl_pos x"
proof -
  assume "0 < x"
  have "0 < 2 ^ 52 * pow2 (fl_exp x)" by simp
  also have "\<dots> \<le> fl_pos x" using fl_pos_bounds [OF \<open>0 < x\<close>] by simp
  finally show ?thesis .
qed

lemma fl64_0 [simp]: "fl64 0 = 0"
  by (simp add: fl64_def)

lemma fl64_minus: "fl64 (- x) = - fl64 x"
  by (simp add: fl64_def)

lemma fl64_nonneg: "0 \<le> x \<Longrightarrow> 0 \<le> fl64 x"
  using fl_pos_pos [of x] by (simp add: fl64_def less_imp_le)

lemma fl64_pos_iff: "0 < fl64 x \<longleftrightarrow> 0 < x"
  using fl_pos_pos [of x] fl_pos_pos [of "- x"] by (auto simp: fl64_def)

lemma fl64_mono:
  assumes "x \<le> y"
  shows "fl64 x \<le> fl64 y"
proof -
  consider "0 < x" | "x \<le> 0" "0 \<le> y" | "y < 0" by linarith
  then show ?thesis
  proof cases
    case 1
    with assms show ?thesis by (simp add: fl64_def fl_pos_mono)
  next
    case 2
    then have "fl64 x \<le> 0" using fl64_nonneg [of "- x"] by (simp add: fl64_minus)
    also have "0 \<le> fl64 y" using 2 by (simp add: fl64_nonneg)
    finally show ?thesis .
  next
    case 3
    with assms have "fl_pos (- y) \<le> fl_pos (- x)" by (intro fl_pos_mono) auto
    with 3 assms show ?thesis by (simp add: fl64_def)
  qed
qed

text \<open>An integer below \<open>2 ^ 53\<close> in magnitude is a float.\<close>

lemma fl_pos_of_int:
  assumes "0 < n" "n < 2 ^ 53"
  shows "fl_pos (of_int n) = of_int n"
proof -
  let ?x = "of_int n :: rat" let ?e = "fl_exp ?x"
  have "?e \<le> 0"
  proof (rule ccontr)
    assume "\<not> ?thesis"
    then have "pow2 1 \<le> pow2 ?e" by (intro pow2_mono) simp
    then have "2 ^ 53 \<le> 2 ^ 52 * pow2 ?e" by (simp add: pow2_def [of 1])
    also have "\<dots> \<le> ?x" using fl_exp_bounds [of ?x] assms by simp
    finally have "(2 :: rat) ^ 53 \<le> of_int n" .
    then have "2 ^ 53 \<le> n" by (metis of_int_le_iff of_int_numeral of_int_power)
    with assms show False by simp
  qed
  then have "?x / pow2 ?e = of_int (n * 2 ^ nat (- ?e))"
    by (cases "?e = 0") (auto simp: pow2_def)
  then have "round_half_even (?x / pow2 ?e) = n * 2 ^ nat (- ?e)"
    by (metis round_half_even_int)
  with \<open>?x / pow2 ?e = of_int (n * 2 ^ nat (- ?e))\<close> show ?thesis
    by (metis fl_pos_def nonzero_divide_eq_eq pow2_neq_0)
qed

lemma fl64_of_int: "\<bar>n\<bar> < 2 ^ 53 \<Longrightarrow> fl64 (of_int n) = of_int n"
  using fl_pos_of_int [of n] fl_pos_of_int [of "- n"] by (auto simp: fl64_def)

lemma f2i_mono_floor: "0 \<le> x \<Longrightarrow> x \<le> of_int n \<Longrightarrow> n < 2 ^ 63 \<Longrightarrow> f2i x \<le> n"
  by (auto simp: f2i_def trunc_int_def floor_le_iff le_floor_iff)

lemma f2i_in_range: "in_i64 (f2i x)"
  by (simp add: f2i_def)

end
