(* ===== verification/Probe.thy ===== *)
theory Probe
  imports GoFloat
begin

text \<open>
  Package \<^verbatim>\<open>internal/probe\<close>: the stream inventory of a media file. \<open>parse_ffprobe\<close> turns
  ffprobe's output into a \<open>probe_result\<close>; \<open>align_mkv_ids\<close> attaches mkvmerge's track IDs by
  position within each stream type and reports a mismatch, after which \<open>probe\<close> forgets
  every ID so that the engine falls back to ffmpeg.

  ffprobe and mkvmerge are external programs: the fields \<open>p_ffprobe\<close> and \<open>p_mkvmerge\<close> of a
  \<open>prober\<close> give what they print for an argument in a world \<open>'w\<close>, already split into a failed
  run (\<open>Inl\<close>), output that is not the expected JSON (\<open>Inr None\<close>) and decoded output.
\<close>

subsection \<open>Streams\<close>

record stream =
  st_index :: int
  st_mkv_id :: int
  st_type :: string
  st_codec :: string
  st_lang :: string
  st_title :: string
  st_channels :: int
  st_layout :: string
  st_default :: bool
  st_forced :: bool
  st_bitrate :: int

record probe_result =
  pr_path :: path
  pr_format :: string
  pr_duration :: rat
  pr_size :: int
  pr_streams :: "stream list"

definition is_matroska :: "probe_result \<Rightarrow> bool" where
  "is_matroska r \<longleftrightarrow> sublist ''matroska'' (pr_format r)"

definition of_type :: "string \<Rightarrow> stream list \<Rightarrow> stream list" where
  "of_type t ss = filter (\<lambda>s. st_type s = t) ss"

definition streams_of_type :: "probe_result \<Rightarrow> string \<Rightarrow> stream list" where
  "streams_of_type r t = of_type t (pr_streams r)"

definition safe_path_arg :: "path \<Rightarrow> string" where
  "safe_path_arg p = (if prefix ''/'' p then p else ''./'' @ p)"

subsection \<open>ffprobe's output\<close>

record raw_stream =
  rs_index :: int
  rs_codec_type :: string
  rs_codec_name :: string
  rs_channels :: int
  rs_layout :: string
  rs_bit_rate :: string
  rs_default :: int
  rs_forced :: int
  rs_attached_pic :: int
  rs_tags :: "(string \<times> string) list"

record raw_probe =
  rp_streams :: "raw_stream list"
  rp_format_name :: string
  rp_duration :: string
  rp_size :: string

datatype probe_err =
    FFprobeNotFound
  | FFprobeFailed path string
  | BadJSON path
  | NoStreams path

definition tag :: "raw_stream \<Rightarrow> string \<Rightarrow> string" where
  "tag s k = (case map_of (rs_tags s) k of Some v \<Rightarrow> v | None \<Rightarrow> '''')"

definition raw_bitrate :: "raw_stream \<Rightarrow> int" where
  "raw_bitrate s =
     (case parse_int (rs_bit_rate s) of (br, None) \<Rightarrow> br
      | _ \<Rightarrow> (case parse_int (tag s ''BPS'') of (bps, None) \<Rightarrow> bps
      | _ \<Rightarrow> (case parse_int (tag s ''BPS-eng'') of (bps, None) \<Rightarrow> bps
      | _ \<Rightarrow> 0)))"

definition parse_stream :: "raw_stream \<Rightarrow> stream" where
  "parse_stream s =
     \<lparr>st_index = rs_index s,
      st_mkv_id = - 1,
      st_type = (if rs_attached_pic s = 1 then ''attachment'' else rs_codec_type s),
      st_codec = rs_codec_name s,
      st_lang = (if tag s ''language'' = '''' then tag s ''LANGUAGE'' else tag s ''language''),
      st_title = (if tag s ''title'' = '''' then tag s ''TITLE'' else tag s ''title''),
      st_channels = rs_channels s,
      st_layout = rs_layout s,
      st_default = (rs_default s = 1),
      st_forced = (rs_forced s = 1),
      st_bitrate = raw_bitrate s\<rparr>"

definition parse_ffprobe :: "raw_probe option \<Rightarrow> path \<Rightarrow> probe_err + probe_result" where
  "parse_ffprobe data p =
     (case data of
        None \<Rightarrow> Inl (BadJSON p)
      | Some raw \<Rightarrow>
          let res = \<lparr>pr_path = p, pr_format = rp_format_name raw,
                     pr_duration = (case parse_float (rp_duration raw) of Some d \<Rightarrow> d | None \<Rightarrow> 0),
                     pr_size = fst (parse_int (rp_size raw)),
                     pr_streams = map parse_stream (rp_streams raw)\<rparr>
          in if pr_streams res = [] then Inl (NoStreams p) else Inr res)"

subsection \<open>mkvmerge's track IDs\<close>

record ident_track =
  it_id :: int
  it_type :: string
  it_lang :: string
  it_codec :: string

record mkv_track =
  mt_id :: int
  mt_lang :: string
  mt_codec :: string

datatype align_err =
    LangMismatch string nat string string
  | CodecMismatch string nat string string
  | CountMismatch string nat nat

definition type_map :: "string \<Rightarrow> string option" where
  "type_map t = map_of [(''video'', ''video''), (''audio'', ''audio''), (''subtitles'', ''subtitle'')] t"

definition tracks_of :: "ident_track list \<Rightarrow> string \<Rightarrow> mkv_track list" where
  "tracks_of ident ft =
     map (\<lambda>t. \<lparr>mt_id = it_id t, mt_lang = it_lang t, mt_codec = it_codec t\<rparr>)
       (filter (\<lambda>t. type_map (it_type t) = Some ft) ident)"

definition langs_compatible :: "string \<Rightarrow> string \<Rightarrow> bool" where
  "langs_compatible a b \<longleftrightarrow> a = '''' \<or> b = '''' \<or> a = b"

definition mkv_codec_names :: "(string \<times> string) list" where
  "mkv_codec_names =
     [(''V_MPEG4/ISO/AVC'', ''h264''), (''V_MPEGH/ISO/HEVC'', ''hevc''), (''V_AV1'', ''av1''),
      (''V_VP9'', ''vp9''), (''V_VP8'', ''vp8''), (''V_MPEG2'', ''mpeg2video''),
      (''A_AAC'', ''aac''), (''A_AC3'', ''ac3''), (''A_EAC3'', ''eac3''), (''A_DTS'', ''dts''),
      (''A_TRUEHD'', ''truehd''), (''A_FLAC'', ''flac''), (''A_OPUS'', ''opus''),
      (''A_VORBIS'', ''vorbis''), (''A_MPEG/L3'', ''mp3''), (''S_TEXT/UTF8'', ''subrip''),
      (''S_TEXT/ASS'', ''ass''), (''S_TEXT/SSA'', ''ass''), (''S_TEXT/WEBVTT'', ''webvtt''),
      (''S_HDMV/PGS'', ''hdmv_pgs_subtitle''), (''S_VOBSUB'', ''dvd_subtitle'')]"

definition codecs_compatible :: "string \<Rightarrow> string \<Rightarrow> bool" where
  "codecs_compatible mkv_codec ff_codec \<longleftrightarrow>
     mkv_codec = '''' \<or> ff_codec = '''' \<or>
     (case map_of mkv_codec_names mkv_codec of None \<Rightarrow> True | Some want \<Rightarrow> equal_fold want ff_codec)"

text \<open>
  The loop over the streams writes an ID before it compares, so a failed alignment leaves
  the IDs of the streams up to and including the offending one changed.
\<close>

fun align_loop ::
  "(string \<Rightarrow> mkv_track list) \<Rightarrow> (string \<Rightarrow> nat) \<Rightarrow> stream list \<Rightarrow> align_err option \<times> stream list"
where
  "align_loop tracks seen [] = (None, [])"
| "align_loop tracks seen (s # ss) =
     (let ty = st_type s; lst = tracks ty; pos = seen ty; seen' = seen(ty := Suc pos) in
      if pos < length lst then
        let t = lst ! pos; s' = s\<lparr>st_mkv_id := mt_id t\<rparr> in
        if \<not> langs_compatible (st_lang s) (mt_lang t) then
          (Some (LangMismatch ty pos (st_lang s) (mt_lang t)), s' # ss)
        else if \<not> codecs_compatible (mt_codec t) (st_codec s) then
          (Some (CodecMismatch ty pos (st_codec s) (mt_codec t)), s' # ss)
        else (case align_loop tracks seen' ss of (e, ss') \<Rightarrow> (e, s' # ss'))
      else (case align_loop tracks seen' ss of (e, ss') \<Rightarrow> (e, s # ss')))"

definition aligned_types :: "string list" where
  "aligned_types = [''video'', ''audio'', ''subtitle'']"

definition align_mkv_ids :: "ident_track list \<Rightarrow> stream list \<Rightarrow> align_err option \<times> stream list" where
  "align_mkv_ids ident ss =
     (case align_loop (tracks_of ident) (\<lambda>_. 0) ss of
        (Some e, ss') \<Rightarrow> (Some e, ss')
      | (None, ss') \<Rightarrow>
          (check_all
             (\<lambda>t. if length (tracks_of ident t) \<noteq> length (of_type t ss')
                  then Some (CountMismatch t (length (tracks_of ident t)) (length (of_type t ss')))
                  else None) aligned_types,
           ss'))"

subsection \<open>Probing\<close>

record 'w prober =
  p_has_ffprobe :: bool
  p_has_mkvmerge :: bool
  p_ffprobe :: "'w \<Rightarrow> string \<Rightarrow> string + raw_probe option"
  p_mkvmerge :: "'w \<Rightarrow> string \<Rightarrow> string + ident_track list option"

text \<open>\<open>attach_mkv_ids\<close> returns whether it failed; the caller does not look at the error.\<close>

definition attach_mkv_ids :: "'w prober \<Rightarrow> 'w \<Rightarrow> probe_result \<Rightarrow> bool \<times> stream list" where
  "attach_mkv_ids p w res =
     (case p_mkvmerge p w (safe_path_arg (pr_path res)) of
        Inr (Some ident) \<Rightarrow>
          (case align_mkv_ids ident (pr_streams res) of (e, ss) \<Rightarrow> (e \<noteq> None, ss))
      | _ \<Rightarrow> (True, pr_streams res))"

definition probe :: "'w prober \<Rightarrow> 'w \<Rightarrow> path \<Rightarrow> probe_err + probe_result" where
  "probe p w pth =
     (if \<not> p_has_ffprobe p then Inl FFprobeNotFound
      else case p_ffprobe p w (safe_path_arg pth) of
          Inl detail \<Rightarrow> Inl (FFprobeFailed pth detail)
        | Inr out \<Rightarrow>
            (case parse_ffprobe out pth of
               Inl e \<Rightarrow> Inl e
             | Inr res \<Rightarrow>
                 if is_matroska res \<and> p_has_mkvmerge p then
                   (case attach_mkv_ids p w res of (failed, ss) \<Rightarrow>
                      Inr (res\<lparr>pr_streams :=
                        (if failed then map (\<lambda>s. s\<lparr>st_mkv_id := - 1\<rparr>) ss else ss)\<rparr>))
                 else Inr res))"

lemmas probe_defs [model_defs] =
  is_matroska_def of_type_def streams_of_type_def safe_path_arg_def tag_def raw_bitrate_def
  parse_stream_def parse_ffprobe_def type_map_def tracks_of_def langs_compatible_def
  codecs_compatible_def aligned_types_def align_mkv_ids_def attach_mkv_ids_def probe_def

subsection \<open>What alignment guarantees\<close>

text \<open>
  The laws below are what the engine relies on; the locale at the end states them as its interface to a
  prober.
\<close>

definition erase_id :: "stream \<Rightarrow> stream" where
  "erase_id s = s\<lparr>st_mkv_id := 0\<rparr>"

text \<open>A stream carries the ID of a track and agrees with it on language and codec.\<close>

definition matches_track :: "stream \<Rightarrow> mkv_track \<Rightarrow> bool" where
  "matches_track s t \<longleftrightarrow> st_mkv_id s = mt_id t \<and> langs_compatible (st_lang s) (mt_lang t) \<and>
     codecs_compatible (mt_codec t) (st_codec s)"

lemma erase_id_update [simp]: "erase_id (s\<lparr>st_mkv_id := i\<rparr>) = erase_id s"
  by (simp add: erase_id_def)

lemma st_type_erase_id [simp]: "st_type (erase_id s) = st_type s"
  by (simp add: erase_id_def)

lemma of_type_simps [simp]:
  "of_type t [] = []"
  "of_type t (s # ss) = (if st_type s = t then s # of_type t ss else of_type t ss)"
  by (simp_all add: of_type_def)

lemma map_erase_of_type [simp]: "map erase_id (of_type t ss) = of_type t (map erase_id ss)"
  by (induction ss) simp_all

lemma length_of_type_erase:
  "map erase_id ss' = map erase_id ss \<Longrightarrow> length (of_type t ss') = length (of_type t ss)"
  by (metis length_map map_erase_of_type)

lemma align_loop_frame: "align_loop tracks seen ss = (e, ss') \<Longrightarrow> map erase_id ss' = map erase_id ss"
  by (induction ss arbitrary: seen e ss')
    (auto simp: Let_def split: if_splits prod.splits)

lemma align_loop_ConsE:
  assumes "align_loop tracks seen (s # ss) = (None, xs)"
  obtains s' rest where "xs = s' # rest" "st_type s' = st_type s"
    "align_loop tracks (seen(st_type s := Suc (seen (st_type s)))) ss = (None, rest)"
    "seen (st_type s) < length (tracks (st_type s)) \<Longrightarrow>
       matches_track s' (tracks (st_type s) ! seen (st_type s))"
    "length (tracks (st_type s)) \<le> seen (st_type s) \<Longrightarrow> s' = s"
  using assms by (auto simp: Let_def matches_track_def split: if_splits prod.splits)

lemma align_loop_matches:
  assumes "align_loop tracks seen ss = (None, ss')"
    and "seen t + length (of_type t ss) \<le> length (tracks t)"
  shows "list_all2 matches_track (of_type t ss')
           (take (length (of_type t ss)) (drop (seen t) (tracks t)))"
  using assms
proof (induction ss arbitrary: seen ss')
  case Nil
  then show ?case by simp
next
  case (Cons s ss)
  obtain s' rest where ss': "ss' = s' # rest" and ty: "st_type s' = st_type s"
    and rest: "align_loop tracks (seen(st_type s := Suc (seen (st_type s)))) ss = (None, rest)"
    and hit: "seen (st_type s) < length (tracks (st_type s)) \<Longrightarrow>
       matches_track s' (tracks (st_type s) ! seen (st_type s))"
    by (rule align_loop_ConsE [OF Cons.prems(1)]) blast
  show ?case
  proof (cases "st_type s = t")
    case True
    with Cons.prems(2) have pos: "seen t < length (tracks t)" by simp
    have "list_all2 matches_track (of_type t rest)
        (take (length (of_type t ss)) (drop (Suc (seen t)) (tracks t)))"
      using Cons.IH [OF rest] Cons.prems(2) True by simp
    then show ?thesis
      using True hit pos by (simp add: ss' ty flip: Cons_nth_drop_Suc)
  next
    case False
    with Cons.IH [OF rest] Cons.prems(2) show ?thesis by (simp add: ss' ty)
  qed
qed

lemma align_loop_other:
  assumes "align_loop tracks seen ss = (None, ss')" "tracks t = []"
  shows "of_type t ss' = of_type t ss"
  using assms
proof (induction ss arbitrary: seen ss')
  case Nil
  then show ?case by simp
next
  case (Cons s ss)
  then show ?case by (elim align_loop_ConsE) (auto split: if_splits)
qed

text \<open>The counts agree, so every track of the type is used, in order.\<close>

lemma align_matches:
  assumes "align_mkv_ids ident ss = (None, ss')" "t \<in> set aligned_types"
  shows "list_all2 matches_track (of_type t ss') (tracks_of ident t)"
proof -
  have loop: "align_loop (tracks_of ident) (\<lambda>_. 0) ss = (None, ss')"
    and len: "length (tracks_of ident t) = length (of_type t ss')"
    using assms by (auto simp: align_mkv_ids_def split: prod.splits option.splits if_splits)
  have "length (of_type t ss') = length (of_type t ss)"
    by (rule length_of_type_erase) (rule align_loop_frame [OF loop])
  with align_loop_matches [OF loop, of t] len show ?thesis by simp
qed

lemma align_frame: "align_mkv_ids ident ss = (e, ss') \<Longrightarrow> map erase_id ss' = map erase_id ss"
  by (auto simp: align_mkv_ids_def split: prod.splits option.splits dest: align_loop_frame)

lemma tracks_of_other: "t \<notin> set aligned_types \<Longrightarrow> tracks_of ident t = []"
  by (auto simp: tracks_of_def type_map_def aligned_types_def filter_empty_conv)

lemma align_other:
  assumes "align_mkv_ids ident ss = (None, ss')" "t \<notin> set aligned_types"
  shows "of_type t ss' = of_type t ss"
  using assms
  by (auto simp: align_mkv_ids_def tracks_of_other split: prod.splits option.splits
      intro: align_loop_other)

subsection \<open>What probing guarantees\<close>

lemma parse_ffprobe_ok:
  "parse_ffprobe data p = Inr r \<Longrightarrow>
     pr_path r = p \<and> pr_streams r \<noteq> [] \<and> (\<forall>s \<in> set (pr_streams r). st_mkv_id s = - 1)"
  by (auto simp: parse_ffprobe_def parse_stream_def Let_def split: option.splits if_splits)

text \<open>Either no stream has an ID, or the whole file is aligned.\<close>

definition ids_forgotten :: "probe_result \<Rightarrow> bool" where
  "ids_forgotten r \<longleftrightarrow> (\<forall>s \<in> set (pr_streams r). st_mkv_id s = - 1)"

definition ids_aligned :: "ident_track list \<Rightarrow> probe_result \<Rightarrow> bool" where
  "ids_aligned ident r \<longleftrightarrow>
     (\<forall>t \<in> set aligned_types. list_all2 matches_track (streams_of_type r t) (tracks_of ident t)) \<and>
     (\<forall>s \<in> set (pr_streams r). st_type s \<notin> set aligned_types \<longrightarrow> st_mkv_id s = - 1)"

lemma attach_aligned:
  assumes "attach_mkv_ids p w res = (False, ss)" "ids_forgotten res"
  obtains ident where "p_mkvmerge p w (safe_path_arg (pr_path res)) = Inr (Some ident)"
    "ids_aligned ident (res\<lparr>pr_streams := ss\<rparr>)"
proof -
  obtain ident where run: "p_mkvmerge p w (safe_path_arg (pr_path res)) = Inr (Some ident)"
    and al: "align_mkv_ids ident (pr_streams res) = (None, ss)"
    using assms(1) by (auto simp: attach_mkv_ids_def split: sum.splits option.splits prod.splits)
  have "st_mkv_id s = - 1" if s: "s \<in> set ss" "st_type s \<notin> set aligned_types" for s
  proof -
    have "s \<in> set (of_type (st_type s) ss)" using s(1) by (simp add: of_type_def)
    then have "s \<in> set (of_type (st_type s) (pr_streams res))" by (simp add: align_other [OF al s(2)])
    then show ?thesis using assms(2) by (simp add: of_type_def ids_forgotten_def)
  qed
  with align_matches [OF al] have "ids_aligned ident (res\<lparr>pr_streams := ss\<rparr>)"
    by (simp add: ids_aligned_def streams_of_type_def)
  with run show thesis by (rule that)
qed

lemma attach_streams_ne: "attach_mkv_ids p w res = (b, ss) \<Longrightarrow> pr_streams res \<noteq> [] \<Longrightarrow> ss \<noteq> []"
  by (auto simp: attach_mkv_ids_def split: sum.splits option.splits prod.splits dest: align_frame)

lemma probe_ok:
  assumes "probe p w pth = Inr r"
  shows "\<exists>res. pr_path res = pth \<and> pr_streams res \<noteq> [] \<and> ids_forgotten res \<and>
    (r = res \<or> (\<exists>failed ss. is_matroska res \<and> attach_mkv_ids p w res = (failed, ss) \<and>
       r = res\<lparr>pr_streams := (if failed then map (\<lambda>s. s\<lparr>st_mkv_id := - 1\<rparr>) ss else ss)\<rparr>))"
proof -
  obtain out where out: "p_ffprobe p w (safe_path_arg pth) = Inr out"
    using assms by (auto simp: probe_def split: if_splits sum.splits)
  obtain res where res: "parse_ffprobe out pth = Inr res"
    using assms out by (auto simp: probe_def split: if_splits sum.splits)
  have "r = res \<or> (\<exists>failed ss. is_matroska res \<and> attach_mkv_ids p w res = (failed, ss) \<and>
       r = res\<lparr>pr_streams := (if failed then map (\<lambda>s. s\<lparr>st_mkv_id := - 1\<rparr>) ss else ss)\<rparr>)"
    using assms out res by (auto simp: probe_def split: if_splits prod.splits)
  with parse_ffprobe_ok [OF res] show ?thesis
    unfolding ids_forgotten_def by (intro exI [of _ res]) blast
qed

lemma is_matroska_streams [simp]: "is_matroska (r\<lparr>pr_streams := ss\<rparr>) = is_matroska r"
  by (simp add: is_matroska_def)

lemma probe_path: "probe p w pth = Inr r \<Longrightarrow> pr_path r = pth"
  by (drule probe_ok) auto

lemma probe_streams: "probe p w pth = Inr r \<Longrightarrow> pr_streams r \<noteq> []"
  by (drule probe_ok) (auto dest: attach_streams_ne split: if_splits)

lemma probe_ids:
  assumes "probe p w pth = Inr r"
  shows "ids_forgotten r \<or>
    (is_matroska r \<and> (\<exists>ident. p_mkvmerge p w (safe_path_arg pth) = Inr (Some ident) \<and> ids_aligned ident r))"
proof -
  obtain res where res: "pr_path res = pth" "ids_forgotten res"
    "r = res \<or> (\<exists>failed ss. is_matroska res \<and> attach_mkv_ids p w res = (failed, ss) \<and>
       r = res\<lparr>pr_streams := (if failed then map (\<lambda>s. s\<lparr>st_mkv_id := - 1\<rparr>) ss else ss)\<rparr>)"
    using probe_ok [OF assms] by blast
  from res(3) consider "r = res"
    | ss where "r = res\<lparr>pr_streams := map (\<lambda>s. s\<lparr>st_mkv_id := - 1\<rparr>) ss\<rparr>"
    | ss where "is_matroska res" "attach_mkv_ids p w res = (False, ss)" "r = res\<lparr>pr_streams := ss\<rparr>"
    by (auto split: if_splits)
  then show ?thesis
  proof cases
    case 1
    with res show ?thesis by simp
  next
    case 2
    then show ?thesis by (simp add: ids_forgotten_def)
  next
    case 3
    from attach_aligned [OF 3(2) res(2)] show ?thesis using 3 res(1) by (metis is_matroska_streams)
  qed
qed

subsection \<open>The interface\<close>

text \<open>What a client may rely on, for any prober that can name the tracks mkvmerge sees.\<close>

locale stream_prober =
  fixes prb :: "'w \<Rightarrow> path \<Rightarrow> probe_err + probe_result"
    and tracks :: "'w \<Rightarrow> path \<Rightarrow> ident_track list option"
  assumes prb_path: "prb w p = Inr r \<Longrightarrow> pr_path r = p"
    and prb_streams: "prb w p = Inr r \<Longrightarrow> pr_streams r \<noteq> []"
    and prb_ids: "prb w p = Inr r \<Longrightarrow>
      ids_forgotten r \<or> is_matroska r \<and> (\<exists>ident. tracks w p = Some ident \<and> ids_aligned ident r)"
begin

lemma ids_from_tracks:
  assumes "prb w p = Inr r" "s \<in> set (pr_streams r)" "0 \<le> st_mkv_id s"
  obtains ident where "tracks w p = Some ident" "ids_aligned ident r"
  using prb_ids [OF assms(1)] assms(2,3) by (force simp: ids_forgotten_def)

end

definition identified :: "'w prober \<Rightarrow> 'w \<Rightarrow> path \<Rightarrow> ident_track list option" where
  "identified p w pth = (case p_mkvmerge p w (safe_path_arg pth) of Inr ident \<Rightarrow> ident | Inl _ \<Rightarrow> None)"

interpretation prober: stream_prober "probe p" "identified p" for p
proof
  show "pr_path r = q" if "probe p w q = Inr r" for w q r using that by (rule probe_path)
  show "pr_streams r \<noteq> []" if "probe p w q = Inr r" for w q r using that by (rule probe_streams)
  show "ids_forgotten r \<or> is_matroska r \<and> (\<exists>ident. identified p w q = Some ident \<and> ids_aligned ident r)"
    if "probe p w q = Inr r" for w q r
    using probe_ids [OF that] by (auto simp: identified_def)
qed

end
