(* ===== verification/GoPath.thy ===== *)
theory GoPath
  imports GoStr
begin

text \<open>
  The functions of Go's package \<^verbatim>\<open>path/filepath\<close> that the program uses, for the Unix
  separator. \<open>clean\<close> works on the list of path elements, which is what \<^verbatim>\<open>filepath.Clean\<close>
  does with its buffer.
\<close>

definition sep :: char where "sep = CHR ''/''"

definition is_abs :: "path \<Rightarrow> bool" where
  "is_abs p \<longleftrightarrow> p \<noteq> [] \<and> hd p = sep"

text \<open>One element pushed on the cleaned stack (kept in reverse).\<close>

definition push_elem :: "bool \<Rightarrow> string list \<Rightarrow> string \<Rightarrow> string list" where
  "push_elem rooted stack e =
     (if e = '''' \<or> e = ''.'' then stack
      else if e = ''..'' then
        (case stack of
           [] \<Rightarrow> if rooted then [] else [''..'']
         | t # rest \<Rightarrow> if t = ''..'' then ''..'' # stack else rest)
      else e # stack)"

definition clean_elems :: "bool \<Rightarrow> string list \<Rightarrow> string list" where
  "clean_elems rooted es = rev (foldl (push_elem rooted) [] es)"

text \<open>\<^verbatim>\<open>filepath.Clean\<close>\<close>

definition clean :: "path \<Rightarrow> path" where
  "clean p =
     (let es = clean_elems (is_abs p) (split_on sep p)
      in if is_abs p then sep # join [sep] es
         else if es = [] then ''.'' else join [sep] es)"

text \<open>\<^verbatim>\<open>filepath.Base\<close>, \<^verbatim>\<open>Ext\<close>, \<^verbatim>\<open>Dir\<close>\<close>

definition base_name :: "path \<Rightarrow> string" where
  "base_name p =
     (if p = '''' then ''.''
      else let q = rev (dropWhile (\<lambda>c. c = sep) (rev p))
           in if q = '''' then ''/'' else last (split_on sep q))"

definition file_ext :: "path \<Rightarrow> string" where
  "file_ext p =
     (let e = last (split_on sep p); r = rev e; k = takeWhile (\<lambda>c. c \<noteq> CHR ''.'') r
      in if k = r then '''' else CHR ''.'' # rev k)"

definition dir_name :: "path \<Rightarrow> path" where
  "dir_name p = clean (rev (dropWhile (\<lambda>c. c \<noteq> sep) (rev p)))"

text \<open>\<^verbatim>\<open>filepath.Join(dir, name)\<close> for a non-empty name.\<close>

definition path_join :: "path \<Rightarrow> string \<Rightarrow> path" where
  "path_join d n = (if d = '''' then clean n else clean (d @ sep # n))"

text \<open>\<^verbatim>\<open>filepath.Abs\<close>, given the working directory.\<close>

definition abs_path :: "path \<Rightarrow> path \<Rightarrow> path" where
  "abs_path cwd p = (if is_abs p then clean p else path_join cwd p)"

text \<open>\<^verbatim>\<open>filepath.Rel\<close>: \<open>None\<close> when the target cannot be made relative.\<close>

fun drop_common :: "string list \<Rightarrow> string list \<Rightarrow> string list \<times> string list" where
  "drop_common (b # bs) (t # ts) = (if b = t then drop_common bs ts else (b # bs, t # ts))"
| "drop_common bs ts = (bs, ts)"

definition path_elems :: "path \<Rightarrow> string list" where
  "path_elems p =
     (let q = (if is_abs p then tl p else p) in if q = '''' then [] else split_on sep q)"

definition path_rel :: "path \<Rightarrow> path \<Rightarrow> path option" where
  "path_rel basepath targpath =
     (let b = clean basepath; t = clean targpath; b' = (if b = ''.'' then '''' else b) in
      if t = b then Some ''.''
      else if is_abs b' \<noteq> is_abs t then None
      else case drop_common (path_elems b') (path_elems t) of (bs, ts) \<Rightarrow>
        if bs \<noteq> [] \<and> ts \<noteq> [] \<and> hd bs = ''..'' then None
        else Some (join [sep] (replicate (length bs) ''..'' @ ts)))"

subsection \<open>Cleaned paths\<close>

lemma drop_common_spec:
  "drop_common bs ts = (b, t) \<Longrightarrow> \<exists>ps. bs = ps @ b \<and> ts = ps @ t \<and> (b = [] \<or> t = [] \<or> hd b \<noteq> hd t)"
proof (induction bs ts rule: drop_common.induct)
  case (1 x xs y ys)
  show ?case
  proof (cases "x = y")
    case True
    with 1 obtain ps where "xs = ps @ b" "ys = ps @ t" "b = [] \<or> t = [] \<or> hd b \<noteq> hd t" by auto
    with True show ?thesis by (intro exI [of _ "x # ps"]) simp
  next
    case False
    with 1 show ?thesis by auto
  qed
qed auto

lemma drop_common_append [simp]: "drop_common ps (ps @ ts) = ([], ts)"
proof (induction ps)
  case Nil
  show ?case by (cases ts) simp_all
next
  case (Cons p ps)
  then show ?case by simp
qed

definition plain_elem :: "string \<Rightarrow> bool" where
  "plain_elem e \<longleftrightarrow> e \<noteq> '''' \<and> e \<noteq> ''.'' \<and> e \<noteq> ''..'' \<and> sep \<notin> set e"

text \<open>A cleaned absolute path is the separator followed by plain elements.\<close>

lemma push_elem_plain:
  assumes "sep \<notin> set e" "\<forall>x \<in> set stack. plain_elem x"
  shows "\<forall>x \<in> set (push_elem True stack e). plain_elem x"
proof (cases "e = '''' \<or> e = ''.'' \<or> e = ''..''")
  case True
  then have "set (push_elem True stack e) \<subseteq> set stack"
    using assms(2) by (cases stack) (auto simp: push_elem_def plain_elem_def)
  with assms(2) show ?thesis by blast
next
  case False
  with assms show ?thesis by (simp add: push_elem_def plain_elem_def)
qed

lemma foldl_push_plain:
  assumes "\<forall>e \<in> set es. sep \<notin> set e" "\<forall>x \<in> set stack. plain_elem x"
  shows "\<forall>x \<in> set (foldl (push_elem True) stack es). plain_elem x"
  using assms
proof (induction es arbitrary: stack)
  case Nil
  then show ?case by simp
next
  case (Cons e es)
  then have "\<forall>x \<in> set (push_elem True stack e). plain_elem x"
    by (intro push_elem_plain) auto
  with Cons show ?case by simp
qed

lemma clean_elems_plain: "\<forall>e \<in> set (clean_elems True (split_on sep p)). plain_elem e"
  using foldl_push_plain [of "split_on sep p" "[]"] split_on_no_sep_in [of _ sep p]
  by (simp add: clean_elems_def)

lemma foldl_push_id:
  "\<forall>e \<in> set es. plain_elem e \<Longrightarrow> foldl (push_elem True) stack es = rev es @ stack"
  by (induction es arbitrary: stack) (auto simp: push_elem_def plain_elem_def)

lemma clean_elems_id: "\<forall>e \<in> set es. plain_elem e \<Longrightarrow> clean_elems True es = es"
  by (simp add: clean_elems_def foldl_push_id)

lemma clean_abs_form:
  assumes "is_abs p"
  obtains es where "clean p = sep # join [sep] es" "\<forall>e \<in> set es. plain_elem e"
  using assms clean_elems_plain [of p] by (auto simp: clean_def Let_def)

lemma is_abs_Cons [simp]: "is_abs (sep # s)"
  by (simp add: is_abs_def)

lemma split_on_rooted:
  "\<forall>e \<in> set es. plain_elem e \<Longrightarrow> split_on sep (sep # join [sep] es) = '''' # (if es = [] then [''''] else es)"
  by (auto simp: plain_elem_def intro!: split_on_join)

lemma clean_rooted:
  assumes "\<forall>e \<in> set es. plain_elem e"
  shows "clean (sep # join [sep] es) = sep # join [sep] es"
proof -
  have "clean_elems True ('''' # (if es = [] then [''''] else es)) = es"
    using assms by (auto simp: clean_elems_def foldl_push_id push_elem_def)
  then show ?thesis
    using split_on_rooted [OF assms] by (simp add: clean_def Let_def)
qed

lemma clean_idem_abs: "is_abs p \<Longrightarrow> clean (clean p) = clean p"
  by (erule clean_abs_form) (simp add: clean_rooted)

lemma is_abs_clean: "is_abs p \<Longrightarrow> is_abs (clean p)"
  by (erule clean_abs_form) simp

lemma path_elems_rooted:
  "\<forall>e \<in> set es. plain_elem e \<Longrightarrow> path_elems (sep # join [sep] es) = es"
proof -
  assume a: "\<forall>e \<in> set es. plain_elem e"
  have "join [sep] es = '''' \<longleftrightarrow> es = []"
    using a by (cases es rule: remdups_adj.cases) (auto simp: plain_elem_def)
  moreover have "es \<noteq> [] \<Longrightarrow> split_on sep (join [sep] es) = es"
    using a by (intro split_on_join) (auto simp: plain_elem_def)
  ultimately show ?thesis by (auto simp: path_elems_def Let_def)
qed

lemma rooted_inj:
  "\<forall>e \<in> set xs. plain_elem e \<Longrightarrow> \<forall>e \<in> set ys. plain_elem e \<Longrightarrow>
   sep # join [sep] xs = sep # join [sep] ys \<longleftrightarrow> xs = ys"
  by (metis path_elems_rooted)

end
