(* ===== verification/EnginePlan.thy ===== *)
theory EnginePlan
  imports Probe GoPath
begin

text \<open>
  The decisions of package \<^verbatim>\<open>internal/engine\<close> that touch no file: which streams a request
  may remove, the command line that removes them, whether the tool's output may replace the
  original, the header edits, the track order. The pipelines that run the commands on a file
  system are in \<open>EngineRun\<close>.
\<close>

subsection \<open>Requests, results, errors\<close>

record removal_spec =
  rm_audio :: "int list"
  rm_subs :: "int list"

definition spec_empty :: "removal_spec \<Rightarrow> bool" where
  "spec_empty r \<longleftrightarrow> length (rm_audio r) = 0 \<and> length (rm_subs r) = 0"

record options =
  op_allow_hardlink :: bool
  op_allow_last_audio :: bool
  op_dry_run :: bool

record engine_result =
  er_tool :: string
  er_command :: string
  er_saved :: int
  er_dry_run :: bool

record metadata_edit =
  me_track :: int
  me_lang :: string
  me_title :: "string option"
  me_default :: "bool option"
  me_forced :: "bool option"

record engine_tools =
  et_ffmpeg :: string
  et_mkvmerge :: string
  et_mkvpropedit :: string

datatype verify_err =
    ProbingOutput probe_err
  | VideoCountChanged nat nat
  | AudioCount int nat
  | SubtitleCount int nat
  | AudioDecreased nat nat
  | SubtitleDecreased nat nat
  | DurationDrifted rat rat rat
  | SuspiciouslySmall int int int

datatype engine_err =
    SkippedHardlinks int
  | SkippedSymlink path
  | OSError string
  | ProbeError probe_err
  | NothingToRemove
  | NotAudio int
  | NotSubtitle int
  | LastAudio
  | NoVideo
  | NoRemuxTool
  | NoFreeSpace path int int
  | ToolFailed string string
  | VerifyFailed verify_err
  | SyncTemp string
  | ChangedDuringProcessing path
  | AtomicRename string
  | NoMkvpropedit
  | NoEdits
  | NotMatroska
  | IndexNotFound int
  | NoMkvID int
  | InvalidLanguage string
  | NoMkvmerge
  | NoTrackOrder
  | TrackOrderCount nat nat
  | DuplicateIndex int
  | NoExternalFiles
  | StreamNotVisible int
  | ExternalAbs path
  | MergeIntoItself path
  | DuplicateExternal path
  | OutsideRoots path
  | ExternalInaccessible path
  | ExternalIsDir path
  | ExternalBadName path
  | NotSubtitleFile path

text \<open>\<^verbatim>\<open>errors.Is(err, ErrSkipped)\<close>\<close>

definition is_skipped :: "engine_err \<Rightarrow> bool" where
  "is_skipped e = (case e of SkippedHardlinks _ \<Rightarrow> True | SkippedSymlink _ \<Rightarrow> True | _ \<Rightarrow> False)"

subsection \<open>Removal: validation\<close>

text \<open>The lookup from ffprobe index to stream: a later stream overwrites an earlier one.\<close>

definition by_idx :: "stream list \<Rightarrow> int \<Rightarrow> stream option" where
  "by_idx ss = map_of (rev (map (\<lambda>s. (st_index s, s)) ss))"

definition has_type :: "stream list \<Rightarrow> string \<Rightarrow> int \<Rightarrow> bool" where
  "has_type ss t i = (case by_idx ss i of None \<Rightarrow> False | Some s \<Rightarrow> st_type s = t)"

definition validate :: "probe_result \<Rightarrow> removal_spec \<Rightarrow> options \<Rightarrow> engine_err option" where
  "validate res spec opts =
     (case check_all (\<lambda>i. if has_type (pr_streams res) ''audio'' i then None else Some (NotAudio i))
             (rm_audio spec) of
        Some e \<Rightarrow> Some e
      | None \<Rightarrow>
     (case check_all (\<lambda>i. if has_type (pr_streams res) ''subtitle'' i then None else Some (NotSubtitle i))
             (rm_subs spec) of
        Some e \<Rightarrow> Some e
      | None \<Rightarrow>
          let audio = streams_of_type res ''audio'' in
          if length audio \<le> length (rm_audio spec) \<and> 0 < length audio \<and> \<not> op_allow_last_audio opts
          then Some LastAudio
          else if length (streams_of_type res ''video'') = 0 then Some NoVideo
          else None))"

subsection \<open>Removal: command lines\<close>

definition mkv_ids_known :: "probe_result \<Rightarrow> removal_spec \<Rightarrow> bool" where
  "mkv_ids_known res spec \<longleftrightarrow>
     (\<forall>s \<in> set (pr_streams res). (st_type s = ''audio'' \<or> st_type s = ''subtitle'') \<longrightarrow> 0 \<le> st_mkv_id s)"

definition keep :: "probe_result \<Rightarrow> string \<Rightarrow> int list \<Rightarrow> string list" where
  "keep res typ removed =
     map (\<lambda>s. itoa (st_mkv_id s)) (filter (\<lambda>s. st_index s \<notin> set removed) (streams_of_type res typ))"

definition keep_option :: "string \<Rightarrow> string \<Rightarrow> string list \<Rightarrow> string list" where
  "keep_option none some ids = (if length ids = 0 then [none] else [some, join '','' ids])"

definition mkvmerge_args :: "probe_result \<Rightarrow> removal_spec \<Rightarrow> string list" where
  "mkvmerge_args res spec =
     (if 0 < length (rm_audio spec)
      then keep_option ''--no-audio'' ''--audio-tracks'' (keep res ''audio'' (rm_audio spec)) else []) @
     (if 0 < length (rm_subs spec)
      then keep_option ''--no-subtitles'' ''--subtitle-tracks'' (keep res ''subtitle'' (rm_subs spec)) else []) @
     [safe_path_arg (pr_path res)]"

text \<open>ffmpeg's negative maps address a stream by its position among the streams of its type.\<close>

fun pos_in :: "stream list \<Rightarrow> int \<Rightarrow> int \<Rightarrow> int" where
  "pos_in [] idx p = - 1"
| "pos_in (s # ss) idx p = (if st_index s = idx then p else pos_in ss idx (p + 1))"

definition neg_map :: "char \<Rightarrow> int \<Rightarrow> string" where
  "neg_map kind p = ''-0:'' @ [kind] @ '':'' @ itoa p"

definition negs :: "probe_result \<Rightarrow> removal_spec \<Rightarrow> string list" where
  "negs res spec =
     map (\<lambda>i. neg_map (CHR ''a'') (pos_in (streams_of_type res ''audio'') i 0)) (rm_audio spec) @
     map (\<lambda>i. neg_map (CHR ''s'') (pos_in (streams_of_type res ''subtitle'') i 0)) (rm_subs spec)"

definition ffmpeg_args :: "probe_result \<Rightarrow> removal_spec \<Rightarrow> string list" where
  "ffmpeg_args res spec =
     [''-y'', ''-v'', ''error'', ''-i'', safe_path_arg (pr_path res), ''-map'', ''0''] @
     concat (map (\<lambda>n. [''-map'', n]) (sort (negs res spec))) @
     (let ext = to_lower (file_ext (pr_path res)) in
      if ext = ''.m4v'' \<or> ext = ''.mp4'' then [''-c'', ''copy'', ''-f'', ''mp4''] else [''-c'', ''copy''])"

definition build_args ::
  "engine_tools \<Rightarrow> probe_result \<Rightarrow> removal_spec \<Rightarrow> engine_err + string \<times> string list" where
  "build_args e res spec =
     (if is_matroska res \<and> et_mkvmerge e \<noteq> '''' \<and> mkv_ids_known res spec
      then Inr (et_mkvmerge e, mkvmerge_args res spec)
      else if et_ffmpeg e = '''' then Inl NoRemuxTool
      else Inr (et_ffmpeg e, ffmpeg_args res spec))"

definition output_args :: "string \<Rightarrow> path \<Rightarrow> string list" where
  "output_args tool tmp = (if sublist ''mkvmerge'' (base_name tool) then [] else [tmp])"

definition reorder_output :: "string \<Rightarrow> string list \<Rightarrow> path \<Rightarrow> string list" where
  "reorder_output tool args tmp =
     (if sublist ''mkvmerge'' (base_name tool) then [''-q'', ''-o'', tmp] @ args else args)"

text \<open>\<^verbatim>\<open>wrapNice\<close>: the paths of nice and of a usable ionice, empty when missing.\<close>

definition wrap_nice :: "string \<Rightarrow> string \<Rightarrow> string \<Rightarrow> string list \<Rightarrow> string \<times> string list" where
  "wrap_nice nice_path ionice_path name args =
     (if nice_path = '''' then (name, args)
      else (nice_path,
            [''-n'', ''19''] @ (if ionice_path \<noteq> '''' then [ionice_path, ''-c'', ''3''] else []) @ [name] @ args))"

subsection \<open>Verification of the output\<close>

definition estimate_removed :: "probe_result \<Rightarrow> removal_spec \<Rightarrow> int" where
  "estimate_removed res spec =
     foldl (\<lambda>sum s.
        if st_index s \<in> set (rm_audio spec @ rm_subs spec) \<and> 0 < st_bitrate s \<and> 0 < pr_duration res
        then i64 (sum + f2i (fl64 (fl64 (fl64 (of_int (st_bitrate s)) / 8) * pr_duration res)))
        else sum) 0 (pr_streams res)"

definition removed_bitrates_known :: "probe_result \<Rightarrow> removal_spec \<Rightarrow> bool" where
  "removed_bitrates_known res spec \<longleftrightarrow>
     (\<forall>s \<in> set (pr_streams res).
        \<not> (st_index s \<in> set (rm_audio spec @ rm_subs spec) \<and> (st_bitrate s \<le> 0 \<or> pr_duration res \<le> 0)))"

definition size_floor :: "int \<Rightarrow> int \<Rightarrow> int" where
  "size_floor in_size est_removed =
     (let floor = f2i (fl64 (fl64 (of_int (i64 (in_size - est_removed))) * fl64 (7 / 10)));
          min_floor = quot in_size 10
      in if floor < min_floor then min_floor else floor)"

definition tolerance :: "rat \<Rightarrow> rat" where
  "tolerance d =
     (let t = fl64 (d * fl64 (1 / 100)); t' = (if t < 2 then 2 else t) in if 60 < t' then 60 else t')"

definition duration_check :: "rat \<Rightarrow> rat \<Rightarrow> verify_err option" where
  "duration_check din dout =
     (if 0 < din \<and> 0 < dout then
        let diff = fl64 (din - dout); diff' = (if diff < 0 then - diff else diff)
        in if tolerance din < diff' then Some (DurationDrifted din dout (tolerance din)) else None
      else None)"

text \<open>\<open>verify\<close> gets what probing the temporary file returned.\<close>

definition verify :: "probe_result \<Rightarrow> removal_spec \<Rightarrow> probe_err + probe_result \<Rightarrow> verify_err option" where
  "verify inp spec probed =
     (case probed of
        Inl e \<Rightarrow> Some (ProbingOutput e)
      | Inr out \<Rightarrow>
          let count = (\<lambda>r t. length (streams_of_type r t));
              want_audio = int (count inp ''audio'') - int (length (rm_audio spec));
              want_subs = int (count inp ''subtitle'') - int (length (rm_subs spec))
          in if count out ''video'' \<noteq> count inp ''video''
             then Some (VideoCountChanged (count inp ''video'') (count out ''video''))
             else if int (count out ''audio'') \<noteq> want_audio
             then Some (AudioCount want_audio (count out ''audio''))
             else if int (count out ''subtitle'') \<noteq> want_subs
             then Some (SubtitleCount want_subs (count out ''subtitle''))
             else case duration_check (pr_duration inp) (pr_duration out) of
                 Some e \<Rightarrow> Some e
               | None \<Rightarrow>
                   let est = (if removed_bitrates_known inp spec then estimate_removed inp spec else pr_size inp);
                       floor = size_floor (pr_size inp) est
                   in if pr_size out < floor then Some (SuspiciouslySmall (pr_size out) floor (pr_size inp))
                      else None)"

definition verify_merge :: "probe_result \<Rightarrow> probe_err + probe_result \<Rightarrow> verify_err option" where
  "verify_merge inp probed =
     (case probed of
        Inl e \<Rightarrow> Some (ProbingOutput e)
      | Inr out \<Rightarrow>
          let count = (\<lambda>r t. length (streams_of_type r t))
          in if count out ''video'' \<noteq> count inp ''video''
             then Some (VideoCountChanged (count inp ''video'') (count out ''video''))
             else if count out ''audio'' < count inp ''audio''
             then Some (AudioDecreased (count inp ''audio'') (count out ''audio''))
             else if count out ''subtitle'' < count inp ''subtitle''
             then Some (SubtitleDecreased (count inp ''subtitle'') (count out ''subtitle''))
             else duration_check (pr_duration inp) (pr_duration out))"

subsection \<open>Metadata edits\<close>

definition bool_flag :: "bool \<Rightarrow> string" where
  "bool_flag v = (if v then ''1'' else ''0'')"

definition is_letter :: "char \<Rightarrow> bool" where
  "is_letter r \<longleftrightarrow> (CHR ''a'' \<le> r \<and> r \<le> CHR ''z'') \<or> (CHR ''A'' \<le> r \<and> r \<le> CHR ''Z'')"

definition is_alnum :: "char \<Rightarrow> bool" where
  "is_alnum r \<longleftrightarrow> is_letter r \<or> (CHR ''0'' \<le> r \<and> r \<le> CHR ''9'')"

text \<open>A rune outside ASCII has only bytes outside ASCII, so the test on bytes is the code's.\<close>

definition valid_language_tag :: "string \<Rightarrow> bool" where
  "valid_language_tag s =
     (let subtags = split_on (CHR ''-'') s
      in list_all (\<lambda>sub. sub \<noteq> '''' \<and> list_all is_alnum sub) subtags \<and> list_all is_letter (hd subtags))"

text \<open>
  \<^verbatim>\<open>strings.Map\<close> drops the control characters and rewrites bytes that are not UTF-8 as the
  replacement character.
\<close>

definition is_control :: "char \<Rightarrow> bool" where
  "is_control c \<longleftrightarrow> of_char c < (0x20 :: nat) \<or> of_char c = (0x7F :: nat)"

definition replacement_char :: string where
  "replacement_char = [CHR 0xEF, CHR 0xBF, CHR 0xBD]"

function strip_control :: "string \<Rightarrow> string" where
  "strip_control s =
     (if s = [] then []
      else case rune_len s of
          None \<Rightarrow> replacement_char @ strip_control (tl s)
        | Some n \<Rightarrow>
            (if n = 1 \<and> is_control (hd s) then strip_control (drop n s)
             else take n s @ strip_control (drop n s)))"
  by pat_completeness auto
termination
  by (relation "measure length") (auto dest: rune_len_pos)

declare strip_control.simps [simp del]

definition edit_acts :: "stream \<Rightarrow> metadata_edit \<Rightarrow> engine_err + string list" where
  "edit_acts st edit =
     (if me_lang edit \<noteq> '''' \<and> \<not> valid_language_tag (me_lang edit)
      then Inl (InvalidLanguage (me_lang edit))
      else Inr (
        (if me_lang edit \<noteq> '''' \<and> me_lang edit \<noteq> st_lang st
         then [''--set'', ''language='' @ me_lang edit] else []) @
        (case me_title edit of
           None \<Rightarrow> []
         | Some t \<Rightarrow>
             let title = strip_control t
             in if title \<noteq> '''' then [''--set'', ''name='' @ title] else [''--delete'', ''name'']) @
        (case me_default edit of None \<Rightarrow> [] | Some b \<Rightarrow> [''--set'', ''flag-default='' @ bool_flag b]) @
        (case me_forced edit of None \<Rightarrow> [] | Some b \<Rightarrow> [''--set'', ''flag-forced='' @ bool_flag b])))"

fun edit_args :: "stream list \<Rightarrow> metadata_edit list \<Rightarrow> string list \<Rightarrow> engine_err + string list" where
  "edit_args ss [] args = Inr args"
| "edit_args ss (edit # edits) args =
     (case by_idx ss (me_track edit) of
        None \<Rightarrow> Inl (IndexNotFound (me_track edit))
      | Some st \<Rightarrow>
          if st_mkv_id st < 0 then Inl (NoMkvID (me_track edit))
          else case edit_acts st edit of
              Inl e \<Rightarrow> Inl e
            | Inr acts \<Rightarrow>
                edit_args ss edits
                  (if 0 < length acts
                   then args @ [''--edit'', ''track:'' @ itoa (st_mkv_id st + 1)] @ acts
                   else args))"

subsection \<open>Track order\<close>

definition expected_count :: "stream list \<Rightarrow> nat" where
  "expected_count ss = length (filter (\<lambda>s. 0 \<le> st_mkv_id s) ss)"

fun order_loop :: "stream list \<Rightarrow> (int \<Rightarrow> bool) \<Rightarrow> int list \<Rightarrow> engine_err option" where
  "order_loop ss seen [] = None"
| "order_loop ss seen (idx # order) =
     (if seen idx then Some (DuplicateIndex idx)
      else case by_idx ss idx of
          None \<Rightarrow> Some (IndexNotFound idx)
        | Some st \<Rightarrow>
            if st_mkv_id st < 0 then Some (NoMkvID idx) else order_loop ss (seen(idx := True)) order)"

definition reorder_check :: "stream list \<Rightarrow> int list \<Rightarrow> engine_err option" where
  "reorder_check ss order =
     (if length order \<noteq> expected_count ss then Some (TrackOrderCount (expected_count ss) (length order))
      else order_loop ss (\<lambda>_. False) order)"

text \<open>\<open>0:id\<close> for each index; a missing index would read the zero stream, whose ID is 0.\<close>

definition track_order_value :: "stream list \<Rightarrow> int list \<Rightarrow> string" where
  "track_order_value ss order =
     join '','' (map (\<lambda>i. ''0:'' @ itoa (case by_idx ss i of Some s \<Rightarrow> st_mkv_id s | None \<Rightarrow> 0)) order)"

subsection \<open>Names and messages\<close>

definition truncate_bytes :: "string \<Rightarrow> nat \<Rightarrow> string" where
  "truncate_bytes s n = (if length s \<le> n then s else to_valid_utf8 (take n s))"

definition tail_msg :: "string \<Rightarrow> nat \<Rightarrow> string" where
  "tail_msg s n =
     (let t = trim_space s in if length t \<le> n then t else ''...'' @ drop (length t - n) t)"

lemmas plan_defs [model_defs] =
  spec_empty_def is_skipped_def by_idx_def has_type_def validate_def mkv_ids_known_def keep_def
  keep_option_def mkvmerge_args_def neg_map_def negs_def ffmpeg_args_def build_args_def
  output_args_def reorder_output_def wrap_nice_def

end
