(* ===== verification/PlanProps.thy ===== *)
theory PlanProps
  imports EnginePlan "HOL-Library.Multiset"
begin

text \<open>
  What the engine's decisions guarantee: a validated request leaves an audio track, both
  command lines select the same streams, the size floor lies between a tenth of the input
  and the input, an accepted track order is a permutation of the tracks.
\<close>

subsection \<open>The index lookup\<close>

text \<open>ffprobe numbers the streams of a file 0, 1, 2, \dots, so indexes do not repeat.\<close>

definition distinct_indexes :: "stream list \<Rightarrow> bool" where
  "distinct_indexes ss \<longleftrightarrow> distinct (map st_index ss)"

lemma by_idx_SomeD: "by_idx ss i = Some s \<Longrightarrow> s \<in> set ss \<and> st_index s = i"
  by (auto simp: by_idx_def dest!: map_of_SomeD)

lemma by_idx_None_iff: "by_idx ss i = None \<longleftrightarrow> i \<notin> st_index ` set ss"
  by (auto simp: by_idx_def map_of_eq_None_iff image_image)

lemma by_idx_eq:
  assumes "distinct_indexes ss"
  shows "by_idx ss i = Some s \<longleftrightarrow> s \<in> set ss \<and> st_index s = i"
proof
  assume r: "s \<in> set ss \<and> st_index s = i"
  then obtain s' where s': "by_idx ss i = Some s'" by (cases "by_idx ss i") (auto simp: by_idx_None_iff)
  then have "s' \<in> set ss" "st_index s' = st_index s" using by_idx_SomeD [OF s'] r by auto
  moreover have "inj_on st_index (set ss)" using assms by (simp add: distinct_indexes_def distinct_map)
  ultimately have "s' = s" using r by (auto dest: inj_onD)
  with s' show "by_idx ss i = Some s" by simp
qed (auto dest: by_idx_SomeD)

lemma has_type_iff:
  assumes "distinct_indexes ss"
  shows "has_type ss t i \<longleftrightarrow> (\<exists>s \<in> set (of_type t ss). st_index s = i)"
proof (cases "by_idx ss i")
  case None
  then have "i \<notin> st_index ` set ss" by (simp add: by_idx_None_iff)
  then have "\<not> (\<exists>s \<in> set (of_type t ss). st_index s = i)" by (auto simp: of_type_def)
  moreover have "\<not> has_type ss t i" unfolding has_type_def None by simp
  ultimately show ?thesis by simp
next
  case (Some s)
  then have "\<And>s'. s' \<in> set ss \<Longrightarrow> st_index s' = i \<Longrightarrow> s' = s"
    using by_idx_eq [OF assms] by (metis option.inject)
  with Some by_idx_SomeD [OF Some] show ?thesis by (auto simp: has_type_def of_type_def)
qed

lemma distinct_indexes_of_type: "distinct_indexes ss \<Longrightarrow> distinct_indexes (of_type t ss)"
  unfolding distinct_indexes_def of_type_def by (rule distinct_map_filter)

lemma distinct_indexes_inj: "distinct_indexes ss \<Longrightarrow> inj_on st_index (set ss)"
  by (simp add: distinct_indexes_def distinct_map)

lemma distinct_indexes_distinct: "distinct_indexes ss \<Longrightarrow> distinct ss"
  by (simp add: distinct_indexes_def distinct_map)

subsection \<open>Validation\<close>

lemma validate_NoneD:
  assumes "validate res spec opts = None"
  shows "\<forall>i \<in> set (rm_audio spec). has_type (pr_streams res) ''audio'' i"
    and "\<forall>i \<in> set (rm_subs spec). has_type (pr_streams res) ''subtitle'' i"
    and "length (streams_of_type res ''audio'') \<le> length (rm_audio spec) \<Longrightarrow>
           streams_of_type res ''audio'' = [] \<or> op_allow_last_audio opts"
    and "streams_of_type res ''video'' \<noteq> []"
  using assms by (auto simp: validate_def Let_def split: option.splits if_splits)

text \<open>The streams a request keeps.\<close>

definition kept :: "probe_result \<Rightarrow> string \<Rightarrow> int list \<Rightarrow> stream list" where
  "kept res t removed = filter (\<lambda>s. st_index s \<notin> set removed) (streams_of_type res t)"

lemma keep_kept: "keep res t removed = map (\<lambda>s. itoa (st_mkv_id s)) (kept res t removed)"
  by (simp add: keep_def kept_def)

lemma length_kept:
  assumes "distinct_indexes (pr_streams res)" "distinct removed"
    and "\<forall>i \<in> set removed. has_type (pr_streams res) t i"
  shows "length (kept res t removed) + length removed = length (streams_of_type res t)"
proof -
  let ?ss = "streams_of_type res t"
  have d: "distinct_indexes ?ss" unfolding streams_of_type_def by (rule distinct_indexes_of_type) (rule assms(1))
  have sub: "set removed \<subseteq> st_index ` set ?ss"
    using assms(3) has_type_iff [OF assms(1)] by (auto simp: streams_of_type_def)
  have "length (filter (\<lambda>s. st_index s \<in> set removed) ?ss) = length removed"
    by (rule length_filter_mem [OF assms(2) sub distinct_indexes_inj [OF d] distinct_indexes_distinct [OF d]])
  with sum_length_filter_compl [of "\<lambda>s. st_index s \<in> set removed" ?ss] show ?thesis
    by (simp add: kept_def)
qed

lemma kept_audio_ne:
  assumes v: "validate res spec opts = None"
    and d: "distinct_indexes (pr_streams res)" "distinct (rm_audio spec)"
    and a: "streams_of_type res ''audio'' \<noteq> []" "\<not> op_allow_last_audio opts"
  shows "kept res ''audio'' (rm_audio spec) \<noteq> []"
proof -
  have "length (rm_audio spec) < length (streams_of_type res ''audio'')"
    using validate_NoneD(3) [OF v] a by fastforce
  with length_kept [OF d validate_NoneD(1) [OF v]] show ?thesis by auto
qed

subsection \<open>Selecting streams on the command line\<close>

lemma pos_in_nth:
  assumes "distinct_indexes ss" "p < length ss"
  shows "pos_in ss (st_index (ss ! p)) k = k + int p"
  using assms
proof (induction ss arbitrary: p k)
  case Nil
  then show ?case by simp
next
  case (Cons s ss)
  show ?case
  proof (cases p)
    case 0
    then show ?thesis by simp
  next
    case (Suc q)
    then have "st_index (ss ! q) \<noteq> st_index s"
      using Cons.prems by (auto simp: distinct_indexes_def dest!: nth_mem intro: rev_image_eqI)
    with Suc Cons.IH [of q "k + 1"] Cons.prems show ?thesis by (simp add: distinct_indexes_def)
  qed
qed

lemma neg_map_eq [simp]: "neg_map k p = neg_map l q \<longleftrightarrow> k = l \<and> p = q"
  by (auto simp: neg_map_def)

lemma safe_path_arg_neq_neg_map [simp]: "safe_path_arg p \<noteq> neg_map k q" "neg_map k q \<noteq> safe_path_arg p"
  by (auto simp: safe_path_arg_def neg_map_def prefix_def)

lemma neg_map_in_ffmpeg_args:
  "neg_map k p \<in> set (ffmpeg_args res spec) \<longleftrightarrow> neg_map k p \<in> set (negs res spec)"
  by (auto simp: ffmpeg_args_def Let_def neg_map_def safe_path_arg_def prefix_def)

lemma pos_in_hit:
  assumes d: "distinct_indexes ss" and m: "\<forall>i \<in> set is. i \<in> st_index ` set ss"
    and p: "p < length ss"
  shows "neg_map k (int p) \<in> (\<lambda>i. neg_map k (pos_in ss i 0)) ` set is \<longleftrightarrow> st_index (ss ! p) \<in> set is"
proof
  assume "st_index (ss ! p) \<in> set is"
  moreover have "pos_in ss (st_index (ss ! p)) 0 = int p" using pos_in_nth [OF d p, of 0] by simp
  ultimately show "neg_map k (int p) \<in> (\<lambda>i. neg_map k (pos_in ss i 0)) ` set is" by force
next
  assume "neg_map k (int p) \<in> (\<lambda>i. neg_map k (pos_in ss i 0)) ` set is"
  then obtain i where i: "i \<in> set is" "neg_map k (int p) = neg_map k (pos_in ss i 0)" by auto
  with m obtain q where q: "q < length ss" "st_index (ss ! q) = i" by (metis imageE in_set_conv_nth)
  then have "pos_in ss i 0 = int q" using pos_in_nth [OF d q(1), of 0] by simp
  with i(2) have "p = q" by simp
  with q i(1) show "st_index (ss ! p) \<in> set is" by simp
qed

text \<open>
  A position is mapped negatively exactly when the stream there is one to remove, for a
  request whose indexes have the type they claim.
\<close>

lemma negs_select:
  assumes d: "distinct_indexes (pr_streams res)"
    and m: "\<forall>i \<in> set removed. has_type (pr_streams res) t i"
    and p: "p < length (streams_of_type res t)"
  shows "neg_map k (int p) \<in> (\<lambda>i. neg_map k (pos_in (streams_of_type res t) i 0)) ` set removed \<longleftrightarrow>
    streams_of_type res t ! p \<notin> set (kept res t removed)"
proof -
  let ?ss = "streams_of_type res t"
  have d': "distinct_indexes ?ss" unfolding streams_of_type_def by (rule distinct_indexes_of_type) (rule d)
  have m': "\<forall>i \<in> set removed. i \<in> st_index ` set ?ss"
    using m has_type_iff [OF d] by (auto simp: streams_of_type_def)
  from pos_in_hit [OF d' m' p] show ?thesis using p by (auto simp: kept_def)
qed

subsection \<open>Track order\<close>

lemma order_loop_None:
  assumes "distinct_indexes ss"
  shows "order_loop ss seen order = None \<longleftrightarrow>
    distinct order \<and> (\<forall>i \<in> set order. \<not> seen i \<and> (\<exists>s \<in> set ss. st_index s = i \<and> 0 \<le> st_mkv_id s))"
proof (induction order arbitrary: seen)
  case Nil
  then show ?case by simp
next
  case (Cons i order)
  show ?case
  proof (cases "by_idx ss i")
    case None
    then have "\<not> (\<exists>s \<in> set ss. st_index s = i)" by (auto simp: by_idx_None_iff)
    with None show ?thesis by auto
  next
    case (Some s)
    then have "\<And>s'. s' \<in> set ss \<Longrightarrow> st_index s' = i \<Longrightarrow> s' = s"
      using by_idx_eq [OF assms] by (metis option.inject)
    with by_idx_SomeD [OF Some] have "(\<exists>s \<in> set ss. st_index s = i \<and> 0 \<le> st_mkv_id s) \<longleftrightarrow> 0 \<le> st_mkv_id s"
      by blast
    with Some show ?thesis by (auto simp: Cons)
  qed
qed

lemma reorder_check_None:
  assumes "distinct_indexes ss"
  shows "reorder_check ss order = None \<longleftrightarrow>
    mset order = mset (map st_index (filter (\<lambda>s. 0 \<le> st_mkv_id s) ss))"
    (is "_ \<longleftrightarrow> mset order = mset ?known")
proof -
  have dk: "distinct ?known" using assms by (simp add: distinct_indexes_def distinct_map_filter)
  have "reorder_check ss order = None \<longleftrightarrow>
      length order = length ?known \<and> distinct order \<and> set order \<subseteq> set ?known"
    by (auto simp: reorder_check_def expected_count_def order_loop_None [OF assms] split: if_splits)
  also have "\<dots> \<longleftrightarrow> distinct order \<and> set order = set ?known"
    using dk by (metis List.finite_set card_subset_eq distinct_card order_refl)
  also have "\<dots> \<longleftrightarrow> mset order = mset ?known"
    using dk by (metis set_eq_iff_mset_eq_distinct mset_eq_imp_distinct_iff mset_eq_setD)
  finally show ?thesis .
qed


subsection \<open>The size floor\<close>

lemma fl64_le_int: "x \<le> of_int n \<Longrightarrow> \<bar>n\<bar> < 2 ^ 53 \<Longrightarrow> fl64 x \<le> of_int n"
  using fl64_mono [of x "of_int n"] fl64_of_int [of n] by simp

lemma fl64_07: "0 < fl64 (7 / 10)" "fl64 (7 / 10) \<le> 1"
  by (simp add: fl64_pos_iff) code_simp

lemma size_floor_bounds:
  assumes "0 \<le> est" "est \<le> sz" "sz < 2 ^ 53"
  shows "sz div 10 \<le> size_floor sz est" and "size_floor sz est \<le> sz"
proof -
  let ?m = "fl64 (of_int (sz - est)) :: rat"
  have i: "i64 (sz - est) = sz - est" using assms by simp
  have m: "0 \<le> ?m" "?m \<le> of_int sz"
    using assms by (simp_all add: fl64_nonneg fl64_le_int)
  then have "?m * fl64 (7 / 10) \<le> of_int sz"
    using fl64_07 mult_mono [of ?m "of_int sz" "fl64 (7 / 10)" 1] assms by simp
  then have "fl64 (?m * fl64 (7 / 10)) \<le> of_int sz" using assms by (intro fl64_le_int) auto
  moreover have "0 \<le> fl64 (?m * fl64 (7 / 10))"
    by (intro fl64_nonneg mult_nonneg_nonneg m(1) less_imp_le [OF fl64_07(1)])
  ultimately have "f2i (fl64 (?m * fl64 (7 / 10))) \<le> sz"
    using assms by (intro f2i_mono_floor) auto
  then show "size_floor sz est \<le> sz" "sz div 10 \<le> size_floor sz est"
    using assms i by (auto simp: size_floor_def Let_def)
qed

lemma size_floor_min: "0 \<le> sz \<Longrightarrow> sz div 10 \<le> size_floor sz est"
  by (simp add: size_floor_def Let_def)

subsection \<open>An accepted output\<close>

lemma verify_NoneD:
  assumes "verify inp spec probed = None"
  obtains out where "probed = Inr out"
    "length (streams_of_type out ''video'') = length (streams_of_type inp ''video'')"
    "length (streams_of_type out ''audio'') + length (rm_audio spec) = length (streams_of_type inp ''audio'')"
    "length (streams_of_type out ''subtitle'') + length (rm_subs spec) = length (streams_of_type inp ''subtitle'')"
    "duration_check (pr_duration inp) (pr_duration out) = None"
    "size_floor (pr_size inp)
       (if removed_bitrates_known inp spec then estimate_removed inp spec else pr_size inp) \<le> pr_size out"
proof (cases probed)
  case (Inl e)
  with assms show thesis by (simp add: verify_def)
next
  case (Inr out)
  show thesis
    by (rule that [OF Inr])
      (use assms Inr in \<open>auto simp: verify_def Let_def split: if_splits option.splits\<close>)
qed

lemma tolerance_bounds: "2 \<le> tolerance d" "tolerance d \<le> 60"
  by (simp_all add: tolerance_def Let_def)

lemma duration_check_None:
  "duration_check a b = None \<Longrightarrow> 0 < a \<Longrightarrow> 0 < b \<Longrightarrow> \<bar>fl64 (a - b)\<bar> \<le> tolerance a"
  by (auto simp: duration_check_def Let_def abs_if split: if_splits)

subsection \<open>Edits\<close>

lemma split_on_set: "set s \<subseteq> insert c (\<Union> (set ` set (split_on c s)))"
proof (induction s)
  case Nil
  then show ?case by simp
next
  case (Cons x xs)
  obtain w ws where "split_on c xs = w # ws" by (cases "split_on c xs") auto
  with Cons show ?case by auto
qed

text \<open>A valid tag has letters, digits and hyphens only, and starts with a letter.\<close>

lemma valid_language_tag_chars:
  assumes "valid_language_tag s"
  shows "s \<noteq> ''''" and "\<forall>c \<in> set s. is_alnum c \<or> c = CHR ''-''" and "is_letter (hd s)"
proof -
  from assms have a: "\<forall>sub \<in> set (split_on (CHR ''-'') s). sub \<noteq> '''' \<and> (\<forall>c \<in> set sub. is_alnum c)"
    and h: "\<forall>c \<in> set (hd (split_on (CHR ''-'') s)). is_letter c"
    by (auto simp: valid_language_tag_def Let_def list_all_iff)
  show ne: "s \<noteq> ''''" using a by auto
  show "\<forall>c \<in> set s. is_alnum c \<or> c = CHR ''-''"
    using split_on_set [of s "CHR ''-''"] a by blast
  obtain x xs where s: "s = x # xs" using ne by (cases s) auto
  with a h show "is_letter (hd s)" by (auto split: if_splits)
qed

lemma rune_len_1: "rune_len s = Some n \<Longrightarrow> n = 1 \<or> (\<forall>c \<in> set (take n s). (0x80 :: nat) \<le> of_char c)"
proof (cases s)
  case (Cons a t)
  assume "rune_len s = Some n"
  then consider "n = 1"
    | "n = 2" "1 \<le> length t" "(0x80 :: nat) \<le> of_char a" "(0x80 :: nat) \<le> of_char (t ! 0)"
    | "n = 3" "2 \<le> length t" "(0x80 :: nat) \<le> of_char a" "(0x80 :: nat) \<le> of_char (t ! 0)"
        "(0x80 :: nat) \<le> of_char (t ! 1)"
    | "n = 4" "3 \<le> length t" "(0x80 :: nat) \<le> of_char a" "(0x80 :: nat) \<le> of_char (t ! 0)"
        "(0x80 :: nat) \<le> of_char (t ! 1)" "(0x80 :: nat) \<le> of_char (t ! 2)"
    unfolding Cons rune_len.simps Let_def byte_in_def
    by (auto split: if_splits)
  then show ?thesis
  proof cases
    case 1
    then show ?thesis by simp
  next
    case 2
    then show ?thesis using Cons by (cases t) auto
  next
    case 3
    then show ?thesis using Cons by (cases t; cases "tl t") auto
  next
    case 4
    then show ?thesis using Cons by (cases t; cases "tl t"; cases "tl (tl t)") auto
  qed
qed simp

lemma not_control_high: "(0x80 :: nat) \<le> of_char c \<Longrightarrow> \<not> is_control c"
  by (simp add: is_control_def)

lemma strip_control_unfold:
  "strip_control [] = []"
  "s \<noteq> [] \<Longrightarrow> rune_len s = None \<Longrightarrow> strip_control s = replacement_char @ strip_control (tl s)"
  "rune_len s = Some n \<Longrightarrow> n = 1 \<and> is_control (hd s) \<Longrightarrow> strip_control s = strip_control (drop n s)"
  "rune_len s = Some n \<Longrightarrow> \<not> (n = 1 \<and> is_control (hd s)) \<Longrightarrow>
     strip_control s = take n s @ strip_control (drop n s)"
  using rune_len_pos [of s n] by (auto simp: strip_control.simps [of s] strip_control.simps [of "[]"])

lemma strip_control_no_control: "c \<in> set (strip_control s) \<Longrightarrow> \<not> is_control c"
proof (induction s rule: strip_control.induct)
  case (1 s)
  consider "s = []" | "s \<noteq> []" "rune_len s = None"
    | n where "s \<noteq> []" "rune_len s = Some n" "n = 1 \<and> is_control (hd s)"
    | n where "s \<noteq> []" "rune_len s = Some n" "\<not> (n = 1 \<and> is_control (hd s))"
    by (cases "rune_len s") auto
  then show ?case
  proof cases
    case 1
    with "1.prems" show ?thesis by (simp add: strip_control_unfold)
  next
    case 2
    have "c \<in> set replacement_char \<Longrightarrow> \<not> is_control c"
      by (rule not_control_high) (auto simp: replacement_char_def)
    with 2 "1.IH"(1) "1.prems" show ?thesis by (auto simp: strip_control_unfold(2))
  next
    case 3
    with "1.IH"(2) "1.prems" show ?thesis by (simp add: strip_control_unfold(3))
  next
    case 4
    have "c \<in> set (take n s) \<Longrightarrow> \<not> is_control c"
      using rune_len_1 [OF 4(2)] 4 by (cases s) (auto dest: not_control_high)
    with 4 "1.IH"(3) "1.prems" show ?thesis by (auto simp: strip_control_unfold(4))
  qed
qed

end
