(* ===== verification/OsModel.thy ===== *)
theory OsModel
  imports GoPath
begin

text \<open>
  The operating system as the program uses it through package \<^verbatim>\<open>os\<close>: a table of names, each
  naming an inode, so that hard links share an inode and a rename moves a name. Paths are
  looked up in absolute, cleaned form. A symbolic link is followed on its final element.

  Any system call can fail for a reason outside the model (permissions, I/O errors): each
  call consumes one element of \<open>w_faults\<close> and fails when it is \<open>True\<close>; an exhausted list means
  no further faults. \<open>w_rands\<close> supplies the random parts of temporary names.
\<close>

datatype node_kind = RegularFile | Dir | Symlink path

record inode =
  in_kind :: node_kind
  in_size :: int
  in_mtime :: int
  in_nlink :: int
  in_mode :: int
  in_uid :: int
  in_gid :: int
  in_data :: string

record fs =
  fs_names :: "path \<Rightarrow> nat option"
  fs_inodes :: "nat \<Rightarrow> inode"
  fs_next :: nat

record world =
  w_fs :: fs
  w_cwd :: path
  w_free :: "path \<Rightarrow> nat option"
  w_faults :: "bool list"
  w_rands :: "string list"
  w_now :: int

text \<open>What \<^verbatim>\<open>Stat\<close> and \<^verbatim>\<open>Lstat\<close> return: the inode number (for \<^verbatim>\<open>os.SameFile\<close>) and the inode.\<close>

type_synonym file_info = "nat \<times> inode"

definition canon :: "world \<Rightarrow> path \<Rightarrow> path" where
  "canon w p = abs_path (w_cwd w) p"

definition fault :: "world \<Rightarrow> bool \<times> world" where
  "fault w = (case w_faults w of [] \<Rightarrow> (False, w) | b # bs \<Rightarrow> (b, w\<lparr>w_faults := bs\<rparr>))"

definition lookup :: "fs \<Rightarrow> path \<Rightarrow> file_info option" where
  "lookup f p = map_option (\<lambda>i. (i, fs_inodes f i)) (fs_names f p)"

fun follow :: "nat \<Rightarrow> fs \<Rightarrow> path \<Rightarrow> file_info option" where
  "follow 0 f p = None"
| "follow (Suc n) f p =
     (case lookup f p of
        None \<Rightarrow> None
      | Some (i, nd) \<Rightarrow>
          (case in_kind nd of
             Symlink t \<Rightarrow> follow n f (if is_abs t then clean t else path_join (dir_name p) t)
           | _ \<Rightarrow> Some (i, nd)))"

definition max_links :: nat where "max_links = 40"

subsection \<open>System calls\<close>

definition os_lstat :: "path \<Rightarrow> world \<Rightarrow> file_info option \<times> world" where
  "os_lstat p w = (case fault w of (b, w') \<Rightarrow> (if b then None else lookup (w_fs w') (canon w p), w'))"

definition os_stat :: "path \<Rightarrow> world \<Rightarrow> file_info option \<times> world" where
  "os_stat p w = (case fault w of (b, w') \<Rightarrow> (if b then None else follow max_links (w_fs w') (canon w p), w'))"

definition unlink :: "path \<Rightarrow> fs \<Rightarrow> fs" where
  "unlink p f =
     (case fs_names f p of
        None \<Rightarrow> f
      | Some i \<Rightarrow> f\<lparr>fs_names := (fs_names f)(p := None),
                   fs_inodes := (fs_inodes f)(i := (fs_inodes f i)\<lparr>in_nlink := in_nlink (fs_inodes f i) - 1\<rparr>)\<rparr>)"

definition os_remove :: "path \<Rightarrow> world \<Rightarrow> bool \<times> world" where
  "os_remove p w =
     (case fault w of (b, w') \<Rightarrow>
        if b \<or> fs_names (w_fs w') (canon w p) = None then (False, w')
        else (True, w'\<lparr>w_fs := unlink (canon w p) (w_fs w')\<rparr>))"

text \<open>Renaming over another name of the same file does nothing; a directory is not replaced.\<close>

definition rename_fs :: "path \<Rightarrow> path \<Rightarrow> fs \<Rightarrow> fs option" where
  "rename_fs a b f =
     (case fs_names f a of
        None \<Rightarrow> None
      | Some i \<Rightarrow>
          (case lookup f b of
             None \<Rightarrow> Some (f\<lparr>fs_names := (fs_names f)(a := None, b := Some i)\<rparr>)
           | Some (j, nd) \<Rightarrow>
               if j = i then Some f
               else if in_kind nd = Dir then None
               else Some (let g = unlink b f in g\<lparr>fs_names := (fs_names g)(a := None, b := Some i)\<rparr>)))"

definition os_rename :: "path \<Rightarrow> path \<Rightarrow> world \<Rightarrow> bool \<times> world" where
  "os_rename a b w =
     (case fault w of (fl, w') \<Rightarrow>
        if fl then (False, w')
        else case rename_fs (canon w a) (canon w b) (w_fs w') of
            None \<Rightarrow> (False, w')
          | Some f \<Rightarrow> (True, w'\<lparr>w_fs := f\<rparr>))"

definition set_inode :: "nat \<Rightarrow> (inode \<Rightarrow> inode) \<Rightarrow> fs \<Rightarrow> fs" where
  "set_inode i g f = f\<lparr>fs_inodes := (fs_inodes f)(i := g (fs_inodes f i))\<rparr>"

text \<open>A call on an existing file that changes its inode.\<close>

definition os_update :: "path \<Rightarrow> (inode \<Rightarrow> inode) \<Rightarrow> world \<Rightarrow> bool \<times> world" where
  "os_update p g w =
     (case os_stat p w of
        (None, w') \<Rightarrow> (False, w')
      | (Some (i, _), w') \<Rightarrow> (True, w'\<lparr>w_fs := set_inode i g (w_fs w')\<rparr>))"

definition os_chmod :: "path \<Rightarrow> int \<Rightarrow> world \<Rightarrow> bool \<times> world" where
  "os_chmod p m = os_update p (\<lambda>nd. nd\<lparr>in_mode := m\<rparr>)"

text \<open>An owner of \<open>-1\<close> leaves the owner alone.\<close>

definition os_chown :: "path \<Rightarrow> int \<Rightarrow> int \<Rightarrow> world \<Rightarrow> bool \<times> world" where
  "os_chown p u g =
     os_update p (\<lambda>nd. nd\<lparr>in_uid := (if u = - 1 then in_uid nd else u), in_gid := g\<rparr>)"

definition new_inode :: "world \<Rightarrow> inode" where
  "new_inode w = \<lparr>in_kind = RegularFile, in_size = 0, in_mtime = w_now w, in_nlink = 1, in_mode = 0x180,
     in_uid = 0, in_gid = 0, in_data = ''''\<rparr>"

definition add_file :: "path \<Rightarrow> inode \<Rightarrow> fs \<Rightarrow> fs" where
  "add_file p nd f =
     f\<lparr>fs_names := (fs_names f)(p := Some (fs_next f)), fs_inodes := (fs_inodes f)(fs_next f := nd),
       fs_next := Suc (fs_next f)\<rparr>"

text \<open>
  \<^verbatim>\<open>os.CreateTemp\<close>: the last \<open>*\<close> of the pattern is replaced by a random string, names that
  exist are skipped, and the file is created with \<^verbatim>\<open>O_EXCL\<close>.
\<close>

definition split_last_star :: "string \<Rightarrow> string \<times> string" where
  "split_last_star pat =
     (let r = rev pat; suf = takeWhile (\<lambda>c. c \<noteq> CHR ''*'') r
      in if suf = r then (pat, '''') else (rev (drop (Suc (length suf)) r), rev suf))"

definition join_dir :: "path \<Rightarrow> string \<Rightarrow> path" where
  "join_dir d n = (if d \<noteq> '''' \<and> last d = sep then d @ n else d @ sep # n)"

fun pick_name :: "(string \<Rightarrow> path) \<Rightarrow> (path \<Rightarrow> bool) \<Rightarrow> string list \<Rightarrow> (path \<times> string list) option" where
  "pick_name mk taken [] = None"
| "pick_name mk taken (r # rs) = (if taken (mk r) then pick_name mk taken rs else Some (mk r, rs))"

definition os_create_temp :: "path \<Rightarrow> string \<Rightarrow> world \<Rightarrow> path option \<times> world" where
  "os_create_temp dir pat w =
     (case fault w of (b, w') \<Rightarrow>
        if b \<or> sep \<in> set pat then (None, w')
        else case split_last_star pat of (pre, suf) \<Rightarrow>
          (case pick_name (\<lambda>r. join_dir dir (pre @ r @ suf)) (\<lambda>p. fs_names (w_fs w') (canon w' p) \<noteq> None)
                  (w_rands w') of
             None \<Rightarrow> (None, w'\<lparr>w_rands := []\<rparr>)
           | Some (p, rs) \<Rightarrow>
               (Some p, w'\<lparr>w_rands := rs, w_fs := add_file (canon w' p) (new_inode w') (w_fs w')\<rparr>)))"

text \<open>\<^verbatim>\<open>os.Open\<close>, \<^verbatim>\<open>os.OpenFile\<close> for writing, and the calls on the open file that can fail.\<close>

definition os_open :: "path \<Rightarrow> world \<Rightarrow> bool \<times> world" where
  "os_open p w = (case os_stat p w of (r, w') \<Rightarrow> (r \<noteq> None, w'))"

definition os_open_write :: "path \<Rightarrow> world \<Rightarrow> bool \<times> world" where
  "os_open_write p w =
     (case os_stat p w of
        (None, w') \<Rightarrow> (False, w')
      | (Some (_, nd), w') \<Rightarrow> (in_kind nd \<noteq> Dir, w'))"

definition os_file_call :: "world \<Rightarrow> bool \<times> world" where
  "os_file_call w = (case fault w of (b, w') \<Rightarrow> (\<not> b, w'))"

definition os_statfs :: "path \<Rightarrow> world \<Rightarrow> nat option \<times> world" where
  "os_statfs d w = (case fault w of (b, w') \<Rightarrow> (if b then None else w_free w' d, w'))"

subsection \<open>Frames\<close>

text \<open>Calls that only read leave the file system, the clock and the directory alone.\<close>

definition same_files :: "world \<Rightarrow> world \<Rightarrow> bool" where
  "same_files w w' \<longleftrightarrow> w_fs w' = w_fs w \<and> w_cwd w' = w_cwd w"

lemma same_files_refl [simp]: "same_files w w"
  by (simp add: same_files_def)

lemma same_files_trans: "same_files a b \<Longrightarrow> same_files b c \<Longrightarrow> same_files a c"
  by (simp add: same_files_def)

lemma same_filesD [dest]: "same_files w w' \<Longrightarrow> w_fs w' = w_fs w \<and> w_cwd w' = w_cwd w"
  by (simp add: same_files_def)

lemma fault_same [simp]: "fault w = (b, w') \<Longrightarrow> same_files w w'"
  by (auto simp: fault_def same_files_def split: list.splits)

lemma fault_fs [frame_simps]: "w_fs (snd (fault w)) = w_fs w" "w_cwd (snd (fault w)) = w_cwd w"
  by (auto simp: fault_def split: list.splits)

lemma os_lstat_same: "os_lstat p w = (r, w') \<Longrightarrow> same_files w w'"
  by (auto simp: os_lstat_def split: prod.splits)

lemma os_stat_same: "os_stat p w = (r, w') \<Longrightarrow> same_files w w'"
  by (auto simp: os_stat_def split: prod.splits)

lemma os_statfs_same: "os_statfs p w = (r, w') \<Longrightarrow> same_files w w'"
  by (auto simp: os_statfs_def split: prod.splits)

lemma os_lstat_Some:
  "os_lstat p w = (Some (i, nd), w') \<Longrightarrow> fs_names (w_fs w) (canon w p) = Some i \<and> nd = fs_inodes (w_fs w) i"
  by (auto simp: os_lstat_def lookup_def frame_simps split: prod.splits if_splits
      dest: fault_same [THEN same_filesD])

lemma os_stat_Some:
  "os_stat p w = (Some x, w') \<Longrightarrow> follow max_links (w_fs w) (canon w p) = Some x"
  by (auto simp: os_stat_def split: prod.splits if_splits dest: fault_same [THEN same_filesD])

lemma follow_inode: "follow n f p = Some (i, nd) \<Longrightarrow> nd = fs_inodes f i"
  by (induction n arbitrary: p) (auto simp: lookup_def split: option.splits node_kind.splits prod.splits)

lemma follow_regular:
  "fs_names f p = Some i \<Longrightarrow> in_kind (fs_inodes f i) = RegularFile \<Longrightarrow>
   follow max_links f p = Some (i, fs_inodes f i)"
  by (simp add: max_links_def numeral_eq_Suc lookup_def)

end
