(* ===== verification/EngineRun.thy ===== *)
theory EngineRun
  imports PlanProps OsModel
begin

text \<open>
  The pipelines of package \<^verbatim>\<open>internal/engine\<close> on the file system of \<open>OsModel\<close>: guard, remux
  into a temporary file beside the original, verify, and rename over the original. Each is an
  operation on the world. The remux tools, the prober and nice are fields of an
  \<open>engine_env\<close>; what they are assumed to do is stated where a theorem needs it.
\<close>

subsection \<open>The engine and its tools\<close>

text \<open>How a command ended: its exit status, if it ran at all, whether the context had been
  cancelled by then, and its standard error.\<close>

datatype run_result = RunOK | RunError "int option" bool string

record engine_env =
  ev_tools :: engine_tools
  ev_prober :: "world prober"
  ev_run :: "string \<Rightarrow> string list \<Rightarrow> world \<Rightarrow> run_result \<times> world"
  ev_nice :: string
  ev_ionice :: string
  ev_roots :: "path list option"
  ev_recycle :: path

type_synonym 'a engine_op = "(world, engine_err, 'a) op"

definition run_tool :: "engine_env \<Rightarrow> string \<Rightarrow> string list \<Rightarrow> world \<Rightarrow> run_result \<times> world" where
  "run_tool ev tool args w =
     (case wrap_nice (ev_nice ev) (ev_ionice ev) tool args of (bin, full) \<Rightarrow> ev_run ev bin full w)"

text \<open>\<^verbatim>\<open>mkvWarningsOnly\<close>: mkvmerge and mkvpropedit exit with 1 when they only warned.\<close>

definition mkv_warnings_only :: "run_result \<Rightarrow> bool" where
  "mkv_warnings_only r = (case r of RunError (Some code) cancelled _ \<Rightarrow> \<not> cancelled \<and> code = 1 | _ \<Rightarrow> False)"

definition exec_tool :: "engine_env \<Rightarrow> bool \<Rightarrow> string \<Rightarrow> string \<Rightarrow> string list \<Rightarrow> unit engine_op" where
  "exec_tool ev warn_ok name tool args w =
     (case run_tool ev tool args w of
        (RunOK, w') \<Rightarrow> (Inr (), w')
      | (RunError code cancelled stderr, w') \<Rightarrow>
          if warn_ok \<and> mkv_warnings_only (RunError code cancelled stderr) then (Inr (), w')
          else (Inl (ToolFailed name (tail_msg stderr 1000)), w'))"

definition probe_op :: "engine_env \<Rightarrow> path \<Rightarrow> probe_result engine_op" where
  "probe_op ev p w =
     (case probe (ev_prober ev) w p of Inl e \<Rightarrow> (Inl (ProbeError e), w) | Inr r \<Rightarrow> (Inr r, w))"

subsection \<open>Guards and the replacement of the original\<close>

definition check_hardlinks :: "inode \<Rightarrow> bool \<Rightarrow> engine_err option" where
  "check_hardlinks nd allow = (if 1 < in_nlink nd \<and> \<not> allow then Some (SkippedHardlinks (in_nlink nd)) else None)"

definition is_symlink :: "inode \<Rightarrow> bool" where
  "is_symlink nd = (case in_kind nd of Symlink _ \<Rightarrow> True | _ \<Rightarrow> False)"

definition stat_replaceable :: "path \<Rightarrow> bool \<Rightarrow> file_info engine_op" where
  "stat_replaceable p allow =
     andthen (some_or (os_lstat p) (OSError ''lstat'')) (\<lambda>info.
     andthen (ensure (\<not> is_symlink (snd info)) (SkippedSymlink p)) (\<lambda>_.
     andthen (no_err (check_hardlinks (snd info) allow)) (\<lambda>_.
     ret info)))"

definition free_space_check :: "path \<Rightarrow> file_info \<Rightarrow> unit engine_op" where
  "free_space_check dir info w =
     (case os_statfs dir w of
        (Some free, w') \<Rightarrow>
          if free < nat (in_size (snd info) mod 2 ^ 64) then (Inl (NoFreeSpace dir (in_size (snd info)) (int free)), w')
          else (Inr (), w')
      | (None, w') \<Rightarrow> (Inr (), w'))"

definition trim_suffix :: "string \<Rightarrow> string \<Rightarrow> string" where
  "trim_suffix s suf = (if suffix suf s then take (length s - length suf) s else s)"

text \<open>The temporary file stays behind when closing it fails.\<close>

definition temp_path :: "path \<Rightarrow> string \<Rightarrow> string \<Rightarrow> path engine_op" where
  "temp_path dir base ext =
     andthen (some_or (os_create_temp dir (''.'' @ truncate_bytes base 200 @ ''.muxprune.tmp.*'' @ ext))
               (OSError ''create temp'')) (\<lambda>tmp.
     andthen (ok_or os_file_call (OSError ''close'')) (\<lambda>_.
     ret tmp))"

definition temp_for :: "path \<Rightarrow> path engine_op" where
  "temp_for p = temp_path (dir_name p) (trim_suffix (base_name p) (file_ext p)) (file_ext p)"

text \<open>Mode and owner; when the full \<^verbatim>\<open>chown\<close> fails only the group is set, other failures are ignored.\<close>

definition preserve_attrs :: "path \<Rightarrow> inode \<Rightarrow> world \<Rightarrow> world" where
  "preserve_attrs tmp orig w =
     (let w1 = snd (os_chmod tmp (in_mode orig mod 512) w) in
      case os_chown tmp (in_uid orig) (in_gid orig) w1 of
        (True, w2) \<Rightarrow> w2
      | (False, w2) \<Rightarrow> snd (os_chown tmp (- 1) (in_gid orig) w2))"

definition sync_temp :: "path \<Rightarrow> unit engine_op" where
  "sync_temp tmp =
     andthen (ok_or (os_open_write tmp) (OSError ''open'')) (\<lambda>_ w.
       case os_file_call w of (synced, w1) \<Rightarrow>
       case os_file_call w1 of (shut, w2) \<Rightarrow>
         (if synced \<and> shut then Inr () else Inl (SyncTemp tmp), w2))"

definition unchanged_check :: "path \<Rightarrow> file_info \<Rightarrow> unit engine_op" where
  "unchanged_check p orig w =
     (case os_lstat p w of
        (Some cur, w') \<Rightarrow>
          (if fst cur = fst orig \<and> in_size (snd cur) = in_size (snd orig) \<and> in_mtime (snd cur) = in_mtime (snd orig)
           then Inr () else Inl (ChangedDuringProcessing p), w')
      | (None, w') \<Rightarrow> (Inl (ChangedDuringProcessing p), w'))"

text \<open>Syncing the directory after the rename is best effort.\<close>

definition sync_dir :: "path \<Rightarrow> world \<Rightarrow> world" where
  "sync_dir d w =
     (case os_open d w of
        (False, w') \<Rightarrow> w'
      | (True, w') \<Rightarrow> snd (os_file_call (snd (os_file_call w'))))"

definition replace_original :: "path \<Rightarrow> path \<Rightarrow> file_info \<Rightarrow> unit engine_op" where
  "replace_original tmp p orig =
     andthen (sync_temp tmp) (\<lambda>_.
     andthen (\<lambda>w. (Inr (), preserve_attrs tmp (snd orig) w)) (\<lambda>_.
     andthen (unchanged_check p orig) (\<lambda>_.
     andthen (ok_or (os_rename tmp p) (AtomicRename p)) (\<lambda>_ w.
       (Inr (), sync_dir (dir_name p) w)))))"

text \<open>
  What the three remux operations share once the arguments are known: run the tool, verify
  the temporary file, measure it, replace the original. The temporary file is removed on the
  way out; after the rename its name no longer exists.
\<close>

definition finish_remux ::
  "engine_env \<Rightarrow> bool \<Rightarrow> string \<Rightarrow> string \<Rightarrow> string list \<Rightarrow> (probe_err + probe_result \<Rightarrow> verify_err option) \<Rightarrow>
   path \<Rightarrow> path \<Rightarrow> file_info \<Rightarrow> int engine_op" where
  "finish_remux ev warn_ok name tool args accept tmp p info =
     deferred
       (andthen (exec_tool ev warn_ok name tool args) (\<lambda>_.
        andthen (\<lambda>w. no_err (map_option VerifyFailed (accept (probe (ev_prober ev) w tmp))) w) (\<lambda>_.
        andthen (some_or (os_stat tmp) (OSError ''stat'')) (\<lambda>out.
        andthen (replace_original tmp p info) (\<lambda>_.
        ret (in_size (snd out)))))))
       (os_remove tmp)"

subsection \<open>The operations\<close>

definition remove_tracks :: "engine_env \<Rightarrow> path \<Rightarrow> removal_spec \<Rightarrow> options \<Rightarrow> engine_result engine_op" where
  "remove_tracks ev p spec0 opts =
     andthen (ensure (\<not> spec_empty spec0) NothingToRemove) (\<lambda>_.
     let spec = \<lparr>rm_audio = sorted_compact (rm_audio spec0), rm_subs = sorted_compact (rm_subs spec0)\<rparr> in
     andthen (stat_replaceable p (op_allow_hardlink opts)) (\<lambda>info.
     andthen (probe_op ev p) (\<lambda>res.
     andthen (no_err (validate res spec opts)) (\<lambda>_.
     andthen (free_space_check (dir_name p) info) (\<lambda>_.
     andthen (\<lambda>w. (build_args (ev_tools ev) res spec, w)) (\<lambda>(tool, args).
     let cmdline = tool @ '' '' @ join '' '' args in
     if op_dry_run opts
     then ret \<lparr>er_tool = base_name tool, er_command = cmdline, er_saved = estimate_removed res spec, er_dry_run = True\<rparr>
     else
       andthen (temp_for p) (\<lambda>tmp.
       andthen (finish_remux ev (tool = et_mkvmerge (ev_tools ev)) (base_name tool) tool
                 (reorder_output tool (args @ output_args tool tmp) tmp) (verify res spec) tmp p info) (\<lambda>out_size.
       ret \<lparr>er_tool = base_name tool, er_command = cmdline, er_saved = i64 (in_size (snd info) - out_size),
            er_dry_run = False\<rparr>))))))))"

text \<open>Reordering and merging share the last stage: mkvmerge with its arguments, a result that never
  reports a negative saving.\<close>

definition mkvmerge_result :: "string \<Rightarrow> string list \<Rightarrow> file_info \<Rightarrow> int \<Rightarrow> engine_result" where
  "mkvmerge_result mkvmerge args info out_size =
     (let saved = i64 (in_size (snd info) - out_size) in
      \<lparr>er_tool = ''mkvmerge'', er_command = mkvmerge @ '' '' @ join '' '' args,
       er_saved = (if saved < 0 then 0 else saved), er_dry_run = False\<rparr>)"

definition mkvmerge_stage ::
  "engine_env \<Rightarrow> path \<Rightarrow> file_info \<Rightarrow> (path \<Rightarrow> string list) \<Rightarrow>
   (probe_err + probe_result \<Rightarrow> verify_err option) \<Rightarrow> engine_result engine_op" where
  "mkvmerge_stage ev p info args accept =
     (let mkvmerge = et_mkvmerge (ev_tools ev) in
      andthen (temp_for p) (\<lambda>tmp.
      andthen (finish_remux ev True ''mkvmerge'' mkvmerge (args tmp) accept tmp p info) (\<lambda>out_size.
      ret (mkvmerge_result mkvmerge (args tmp) info out_size))))"

definition reorder_args :: "path \<Rightarrow> stream list \<Rightarrow> int list \<Rightarrow> path \<Rightarrow> string list" where
  "reorder_args p ss order tmp =
     [''-q'', ''-o'', tmp, ''--track-order'', track_order_value ss order, safe_path_arg p]"

definition reorder_tracks :: "engine_env \<Rightarrow> path \<Rightarrow> int list \<Rightarrow> bool \<Rightarrow> engine_result engine_op" where
  "reorder_tracks ev p order allow =
     andthen (ensure (et_mkvmerge (ev_tools ev) \<noteq> '''') NoMkvmerge) (\<lambda>_.
     andthen (ensure (0 < length order) NoTrackOrder) (\<lambda>_.
     andthen (stat_replaceable p allow) (\<lambda>info.
     andthen (probe_op ev p) (\<lambda>res.
     andthen (ensure (is_matroska res) NotMatroska) (\<lambda>_.
     andthen (no_err (reorder_check (pr_streams res) order)) (\<lambda>_.
     andthen (free_space_check (dir_name p) info) (\<lambda>_.
     mkvmerge_stage ev p info (reorder_args p (pr_streams res) order)
       (verify res \<lparr>rm_audio = [], rm_subs = []\<rparr>))))))))"

subsection \<open>External files\<close>

text \<open>
  \<^verbatim>\<open>filepath.EvalSymlinks\<close> resolves every element of a path and follows at most 255 links. The
  elements resolved so far are \<open>res\<close>, rooted or relative to the working directory; a relative
  result keeps its leading \<open>..\<close> elements.
\<close>

definition elems_path :: "bool \<Rightarrow> string list \<Rightarrow> path" where
  "elems_path rooted es = (if rooted then sep # join [sep] es else join [sep] es)"

definition up_elem :: "bool \<Rightarrow> string list \<Rightarrow> string list" where
  "up_elem rooted res = (if \<not> rooted \<and> (res = [] \<or> last res = ''..'') then res @ [''..''] else butlast res)"

fun eval_links ::
  "nat \<Rightarrow> fs \<Rightarrow> path \<Rightarrow> bool \<Rightarrow> string list \<Rightarrow> string list \<Rightarrow> (bool \<times> string list) option" where
  "eval_links links f cwd rooted res [] = Some (rooted, res)"
| "eval_links links f cwd rooted res (c # cs) =
     (if c = '''' \<or> c = ''.'' then eval_links links f cwd rooted res cs
      else if c = ''..'' then eval_links links f cwd rooted (up_elem rooted res) cs
      else case lookup f (abs_path cwd (elems_path rooted (res @ [c]))) of
          None \<Rightarrow> None
        | Some (_, nd) \<Rightarrow>
            (case in_kind nd of
               Symlink t \<Rightarrow>
                 (case links of
                    0 \<Rightarrow> None
                  | Suc k \<Rightarrow> if is_abs t then eval_links k f cwd True [] (split_on sep t @ cs)
                             else eval_links k f cwd rooted res (split_on sep t @ cs))
             | Dir \<Rightarrow> eval_links links f cwd rooted (res @ [c]) cs
             | RegularFile \<Rightarrow> if cs = [] then Some (rooted, res @ [c]) else None))"

definition max_eval_links :: nat where "max_eval_links = 255"

definition real_path :: "path \<Rightarrow> world \<Rightarrow> path \<times> world" where
  "real_path p w =
     (case fault w of (b, w') \<Rightarrow>
        (if b then clean p
         else case eval_links max_eval_links (w_fs w') (w_cwd w') (is_abs p) [] (split_on sep p) of
             Some (rooted, es) \<Rightarrow> clean (elems_path rooted es)
           | None \<Rightarrow> clean p,
         w'))"

fun resolve_roots :: "path list \<Rightarrow> world \<Rightarrow> path list \<times> world" where
  "resolve_roots [] w = ([], w)"
| "resolve_roots (r # rs) w =
     (let t = trim_space r in
      if t = '''' then resolve_roots rs w
      else case real_path t w of (p, w1) \<Rightarrow> (case resolve_roots rs w1 of (ps, w2) \<Rightarrow> (p # ps, w2)))"

definition path_within :: "path \<Rightarrow> path list \<Rightarrow> bool" where
  "path_within p roots \<longleftrightarrow>
     (\<exists>root \<in> set roots. p = root \<or> prefix (trim_suffix root [sep] @ [sep]) (p @ [sep]))"

text \<open>\<^verbatim>\<open>filepath.Abs\<close> asks for the working directory only when the path is relative.\<close>

definition os_abs :: "path \<Rightarrow> world \<Rightarrow> path option \<times> world" where
  "os_abs p w =
     (if is_abs p then (Some (clean p), w)
      else case fault w of (b, w') \<Rightarrow> (if b then None else Some (canon w' p), w'))"

definition external_stat :: "path \<Rightarrow> unit engine_op" where
  "external_stat ext =
     andthen (some_or (os_stat ext) (ExternalInaccessible ext)) (\<lambda>fi.
     andthen (ensure (in_kind (snd fi) \<noteq> Dir) (ExternalIsDir ext)) (\<lambda>_.
     ensure (\<not> prefix ''-'' (base_name ext) \<and> \<not> prefix ''@'' (base_name ext)) (ExternalBadName ext)))"

fun external_loop :: "path \<Rightarrow> path list option \<Rightarrow> path list \<Rightarrow> path list \<Rightarrow> unit engine_op" where
  "external_loop self roots seen [] = ret ()"
| "external_loop self roots seen (ext # exts) =
     andthen (some_or (os_abs ext) (ExternalAbs ext)) (\<lambda>a.
     andthen (ensure (a \<noteq> self) (MergeIntoItself ext)) (\<lambda>_.
     andthen (ensure (a \<notin> set seen) (DuplicateExternal ext)) (\<lambda>_.
     andthen (case roots of
                None \<Rightarrow> ret ()
              | Some rs \<Rightarrow> andthen (\<lambda>w. (case real_path a w of (rp, w') \<Rightarrow> (Inr rp, w'))) (\<lambda>rp.
                  ensure (path_within rp rs) (OutsideRoots ext))) (\<lambda>_.
     andthen (external_stat ext) (\<lambda>_.
     external_loop self roots (a # seen) exts)))))"

definition validate_external_files :: "path list option \<Rightarrow> path \<Rightarrow> path list \<Rightarrow> unit engine_op" where
  "validate_external_files allowed p files =
     andthen (some_or (os_abs p) (OSError ''getwd'')) (\<lambda>self.
     andthen (\<lambda>w. case allowed of
                 None \<Rightarrow> (Inr None, w)
               | Some rs \<Rightarrow> (case resolve_roots rs w of (rs', w') \<Rightarrow> (Inr (Some rs'), w'))) (\<lambda>roots.
     external_loop self roots [] files))"

definition merge_visible :: "probe_result \<Rightarrow> engine_err option" where
  "merge_visible res =
     check_all (\<lambda>s. if (st_type s = ''video'' \<or> st_type s = ''audio'' \<or> st_type s = ''subtitle'') \<and> st_mkv_id s < 0
                   then Some (StreamNotVisible (st_index s)) else None) (pr_streams res)"

definition merge_args :: "path \<Rightarrow> path list \<Rightarrow> path \<Rightarrow> string list" where
  "merge_args p files tmp = [''-q'', ''-o'', tmp, safe_path_arg p] @ map safe_path_arg files"

definition merge_tracks :: "engine_env \<Rightarrow> path \<Rightarrow> path list \<Rightarrow> bool \<Rightarrow> engine_result engine_op" where
  "merge_tracks ev p files allow =
     andthen (ensure (et_mkvmerge (ev_tools ev) \<noteq> '''') NoMkvmerge) (\<lambda>_.
     andthen (ensure (0 < length files) NoExternalFiles) (\<lambda>_.
     andthen (stat_replaceable p allow) (\<lambda>info.
     andthen (probe_op ev p) (\<lambda>res.
     andthen (ensure (is_matroska res) NotMatroska) (\<lambda>_.
     andthen (no_err (merge_visible res)) (\<lambda>_.
     andthen (validate_external_files (ev_roots ev) p files) (\<lambda>_.
     andthen (free_space_check (dir_name p) info) (\<lambda>_.
     mkvmerge_stage ev p info (merge_args p files) (verify_merge res)))))))))"

text \<open>\<^verbatim>\<open>EditMetadata\<close> edits the file in place, in a context that is never cancelled.\<close>

definition exec_propedit :: "engine_env \<Rightarrow> string list \<Rightarrow> unit engine_op" where
  "exec_propedit ev args w =
     (case run_tool ev (et_mkvpropedit (ev_tools ev)) args w of
        (RunOK, w') \<Rightarrow> (Inr (), w')
      | (RunError code _ stderr, w') \<Rightarrow>
          if mkv_warnings_only (RunError code False stderr) then (Inr (), w')
          else (Inl (ToolFailed ''mkvpropedit'' (tail_msg stderr 1000)), w'))"

definition edit_metadata :: "engine_env \<Rightarrow> path \<Rightarrow> metadata_edit list \<Rightarrow> bool \<Rightarrow> engine_result engine_op" where
  "edit_metadata ev p edits allow =
     (let propedit = et_mkvpropedit (ev_tools ev) in
     andthen (ensure (propedit \<noteq> '''') NoMkvpropedit) (\<lambda>_.
     andthen (ensure (0 < length edits) NoEdits) (\<lambda>_.
     andthen (probe_op ev p) (\<lambda>res.
     andthen (ensure (is_matroska res) NotMatroska) (\<lambda>_.
     andthen (stat_replaceable p allow) (\<lambda>_.
     andthen (\<lambda>w. (edit_args (pr_streams res) edits [safe_path_arg p], w)) (\<lambda>args.
     if length args = 1
     then ret \<lparr>er_tool = ''mkvpropedit'', er_command = ''no changes'', er_saved = 0, er_dry_run = False\<rparr>
     else
       andthen (exec_propedit ev args) (\<lambda>_.
       ret \<lparr>er_tool = ''mkvpropedit'', er_command = propedit @ '' '' @ join '' '' args, er_saved = 0,
            er_dry_run = False\<rparr>))))))))"

end
