(* ===== verification/RunProps.thy ===== *)
theory RunProps
  imports EngineRun
begin

text \<open>
  What the pipelines leave alone and what they replace. The frame is stated for the temporary
  name: once the file is created, every step up to the rename changes that name only.
\<close>

subsection \<open>Reading steps\<close>

interpretation sf: frame same_files
  by unfold_locales (auto intro: same_files_trans)

lemma keeps_lstat: "keeps same_files (os_lstat p)"
  by (auto intro: keepsI os_lstat_same)

lemma keeps_stat: "keeps same_files (os_stat p)"
  by (auto intro: keepsI os_stat_same)

lemma keeps_file_call: "keeps same_files os_file_call"
  by (auto intro!: keepsI simp: os_file_call_def split: prod.splits)

lemma keeps_open: "keeps same_files (os_open p)"
  by (auto intro!: keepsI simp: os_open_def dest: os_stat_same split: prod.splits)

lemma keeps_open_write: "keeps same_files (os_open_write p)"
  by (auto intro!: keepsI simp: os_open_write_def dest: os_stat_same split: prod.splits option.splits)

lemma keeps_stat_replaceable: "keeps same_files (stat_replaceable p a)"
  unfolding stat_replaceable_def by (intro sf.keeps_intros keeps_lstat)

lemma keeps_probe_op: "keeps same_files (probe_op ev p)"
  by (auto intro!: keepsI simp: probe_op_def split: sum.splits)

lemma keeps_free_space: "keeps same_files (free_space_check d info)"
  by (auto intro!: keepsI simp: free_space_check_def dest: os_statfs_same split: prod.splits option.splits if_splits)

lemma keeps_pure: "keeps same_files (\<lambda>w. (r, w))"
  by (auto intro!: keepsI)

lemma keeps_os_abs: "keeps same_files (os_abs p)"
  by (auto intro!: keepsI simp: os_abs_def split: prod.splits if_splits)

lemma real_path_same: "real_path p w = (r, w') \<Longrightarrow> same_files w w'"
  by (auto simp: real_path_def split: prod.splits)

lemma resolve_roots_same: "resolve_roots rs w = (r, w') \<Longrightarrow> same_files w w'"
  by (induction rs arbitrary: w r w')
    (auto simp: Let_def split: prod.splits if_splits dest: real_path_same intro: same_files_trans)

lemma keeps_external_stat: "keeps same_files (external_stat e)"
  unfolding external_stat_def by (intro sf.keeps_intros keeps_stat)

lemma keeps_external_loop: "keeps same_files (external_loop self roots seen exts)"
proof (induction exts arbitrary: seen)
  case Nil
  then show ?case by (simp add: sf.keeps_ret)
next
  case (Cons e exts)
  have "keeps same_files (\<lambda>w. case real_path a w of (rp, w') \<Rightarrow> (Inr rp, w'))" for a
    by (auto intro!: keepsI split: prod.splits dest: real_path_same)
  then show ?case unfolding external_loop.simps
    by (intro sf.keeps_intros keeps_os_abs keeps_external_stat Cons) (auto split: option.splits intro!: sf.keeps_intros)
qed

lemma keeps_validate_external: "keeps same_files (validate_external_files rs p files)"
  unfolding validate_external_files_def
  by (intro sf.keeps_intros keeps_os_abs keeps_external_loop)
    (auto intro!: keepsI dest: resolve_roots_same split: option.splits prod.splits)

lemmas reading_steps = keeps_stat_replaceable keeps_probe_op keeps_free_space keeps_validate_external

subsection \<open>The temporary name\<close>

text \<open>The name \<open>T\<close> belongs to one regular file that has no other name.\<close>

definition own :: "path \<Rightarrow> fs \<Rightarrow> bool" where
  "own T f \<longleftrightarrow> (\<forall>i. fs_names f T = Some i \<longrightarrow>
     in_kind (fs_inodes f i) = RegularFile \<and> (\<forall>p. p \<noteq> T \<longrightarrow> fs_names f p \<noteq> Some i))"

definition only :: "path \<Rightarrow> fs \<Rightarrow> fs \<Rightarrow> bool" where
  "only T f f' \<longleftrightarrow> (\<forall>p. p \<noteq> T \<longrightarrow> lookup f' p = lookup f p)"

text \<open>What a program may do that writes the file \<open>t\<close> and no other.\<close>

definition writes_only :: "path \<Rightarrow> world \<Rightarrow> world \<Rightarrow> bool" where
  "writes_only t w w' \<longleftrightarrow> w_cwd w' = w_cwd w \<and>
     (own (canon w t) (w_fs w) \<longrightarrow> own (canon w t) (w_fs w') \<and> only (canon w t) (w_fs w) (w_fs w'))"

interpretation wo: frame "writes_only t" for t
  by unfold_locales (auto simp: writes_only_def only_def canon_def)

lemma same_writes_only: "same_files w w' \<Longrightarrow> writes_only t w w'"
  by (auto simp: writes_only_def only_def)

lemma keeps_same_writes: "keeps same_files m \<Longrightarrow> keeps (writes_only t) m"
  by (auto simp: keeps_def same_writes_only)

lemma set_inode_own:
  assumes "own T f" "fs_names f T = Some i" "\<And>nd. in_kind (g nd) = in_kind nd"
  shows "own T (set_inode i g f)" "only T f (set_inode i g f)"
  using assms by (auto simp: own_def only_def set_inode_def lookup_def map_option_case split: option.splits)

lemma follow_own: "own T f \<Longrightarrow> follow max_links f T = Some (i, nd) \<Longrightarrow> fs_names f T = Some i"
  by (cases "fs_names f T")
    (auto simp: own_def max_links_def numeral_eq_Suc lookup_def split: node_kind.splits)

lemma keeps_update:
  assumes "\<And>nd. in_kind (g nd) = in_kind nd"
  shows "keeps (writes_only t) (os_update t g)"
proof (rule keepsI)
  fix w r w'
  assume u: "os_update t g w = (r, w')"
  show "writes_only t w w'"
  proof (cases "os_stat t w")
    case (Pair x w1)
    then have s: "same_files w w1" by (rule os_stat_same)
    show ?thesis
    proof (cases x)
      case None
      with u Pair s show ?thesis by (auto simp: os_update_def same_writes_only)
    next
      case (Some y)
      obtain i nd where y: "y = (i, nd)" by (cases y)
      have w': "w' = w1\<lparr>w_fs := set_inode i g (w_fs w1)\<rparr>" using u Pair Some y by (simp add: os_update_def)
      have "fs_names (w_fs w) (canon w t) = Some i" if "own (canon w t) (w_fs w)"
        using follow_own [OF that] os_stat_Some [of t w y w1] Pair Some y by simp
      then show ?thesis
        using s set_inode_own assms unfolding w' writes_only_def by (auto dest!: same_filesD)
    qed
  qed
qed

lemma keeps_chmod: "keeps (writes_only t) (os_chmod t m)"
  unfolding os_chmod_def by (rule keeps_update) simp

lemma keeps_chown: "keeps (writes_only t) (os_chown t u g)"
  unfolding os_chown_def by (rule keeps_update) simp

lemma keeps_remove: "keeps (writes_only t) (os_remove t)"
proof (rule keepsI)
  fix w r w'
  assume "os_remove t w = (r, w')"
  then obtain b w1 where f: "fault w = (b, w1)"
    and c: "w' = w1 \<or> w' = w1\<lparr>w_fs := unlink (canon w t) (w_fs w1)\<rparr>"
    by (auto simp: os_remove_def split: prod.splits if_splits)
  have s: "same_files w w1" by (rule fault_same [OF f])
  have "own T (unlink T g) \<and> only T g (unlink T g)" if "own T g" for T g
    using that by (auto simp: own_def only_def unlink_def lookup_def map_option_case split: option.splits)
  with s c show "writes_only t w w'" by (auto simp: writes_only_def only_def dest!: same_filesD)
qed

lemma preserve_writes: "writes_only t w (preserve_attrs t nd w)"
proof -
  let ?w1 = "snd (os_chmod t (in_mode nd mod 512) w)"
  have a: "writes_only t w ?w1" using keeps_chmod by (simp add: keeps_def)
  have c: "writes_only t v (snd (os_chown t u g v))" for u g v using keeps_chown by (simp add: keeps_def)
  obtain ok w2 where o: "os_chown t (in_uid nd) (in_gid nd) ?w1 = (ok, w2)" by fastforce
  then have w2: "writes_only t w w2" using wo.frame_trans [OF a c [of ?w1 "in_uid nd" "in_gid nd"]] by simp
  have "writes_only t w (snd (os_chown t (- 1) (in_gid nd) w2))" using w2 c by (rule wo.frame_trans)
  with w2 o show ?thesis by (cases ok) (simp_all add: preserve_attrs_def)
qed

lemma keeps_sync_temp: "keeps same_files (sync_temp t)"
  unfolding sync_temp_def
  by (intro sf.keeps_intros keeps_open_write)
    (auto intro!: keepsI split: prod.splits dest!: keepsD [OF keeps_file_call] intro: same_files_trans)

lemma keeps_unchanged_check: "keeps same_files (unchanged_check p info)"
  by (auto intro!: keepsI simp: unchanged_check_def dest: os_lstat_same split: prod.splits option.splits if_splits)

lemma sync_dir_same: "same_files w (sync_dir d w)"
proof -
  obtain b w1 where o: "os_open d w = (b, w1)" by fastforce
  have "same_files w1 (snd (os_file_call (snd (os_file_call w1))))"
    using keeps_file_call unfolding keeps_def by (metis same_files_trans)
  with keepsD [OF keeps_open o] o show ?thesis
    by (cases b) (auto simp: sync_dir_def intro: same_files_trans)
qed

subsection \<open>Replacing the original\<close>

lemma rename_False: "os_rename a b w = (False, w') \<Longrightarrow> same_files w w'"
  by (auto simp: os_rename_def split: prod.splits if_splits option.splits)

lemma rename_True:
  assumes "os_rename a b w = (True, w')"
  obtains f where "rename_fs (canon w a) (canon w b) (w_fs w) = Some f" "w_fs w' = f" "w_cwd w' = w_cwd w"
proof -
  obtain b' w1 where f: "fault w = (b', w1)" by fastforce
  from fault_same [OF f] assms f show thesis
    by (auto simp: os_rename_def same_files_def split: if_splits option.splits intro: that)
qed

lemma unchanged_check_Inr:
  assumes "unchanged_check p info w = (Inr u, w')"
  shows "\<exists>nd. lookup (w_fs w) (canon w p) = Some (fst info, nd) \<and>
     in_size nd = in_size (snd info) \<and> in_mtime nd = in_mtime (snd info)"
  using assms
  by (auto simp: unchanged_check_def lookup_def split: prod.splits option.splits if_splits dest!: os_lstat_Some)

text \<open>
  When the replacement fails the original is untouched; when it succeeds the original was
  still the file that was examined, and its name moved to the temporary file.
\<close>

lemma replace_Inl: "replace_original tmp p info w = (Inl e, w') \<Longrightarrow> writes_only tmp w w'"
proof -
  assume r: "replace_original tmp p info w = (Inl e, w')"
  note step = same_writes_only preserve_writes wo.frame_trans
  from r [unfolded replace_original_def] show ?thesis
    by (elim andthen_InlE)
      (auto simp: ok_or_def split: prod.splits if_splits
        dest!: keepsD [OF keeps_sync_temp] keepsD [OF keeps_unchanged_check] rename_False; blast intro: step)+
qed

text \<open>Steps that change the mode and the owner of files and nothing else.\<close>

definition attrs_only :: "world \<Rightarrow> world \<Rightarrow> bool" where
  "attrs_only w w' \<longleftrightarrow> w_cwd w' = w_cwd w \<and> fs_names (w_fs w') = fs_names (w_fs w) \<and>
     (\<forall>i. \<exists>m u g. fs_inodes (w_fs w') i = (fs_inodes (w_fs w) i)\<lparr>in_mode := m, in_uid := u, in_gid := g\<rparr>)"

lemma inode_attrs_refl: "\<exists>m u g. (nd :: inode) = nd\<lparr>in_mode := m, in_uid := u, in_gid := g\<rparr>"
  by (rule exI [of _ "in_mode nd"], rule exI [of _ "in_uid nd"], rule exI [of _ "in_gid nd"]) simp

lemma attrs_overwrite:
  "(nd :: inode)\<lparr>in_mode := m, in_uid := u, in_gid := g, in_mode := m', in_uid := u', in_gid := g'\<rparr> =
     nd\<lparr>in_mode := m', in_uid := u', in_gid := g'\<rparr>"
  by simp

interpretation ao: frame attrs_only
proof
  show "attrs_only w w" for w by (simp add: attrs_only_def inode_attrs_refl)
  show "attrs_only a c" if "attrs_only a b" "attrs_only b c" for a b c
    using that unfolding attrs_only_def by (metis attrs_overwrite)
qed

lemma same_attrs_only: "same_files w w' \<Longrightarrow> attrs_only w w'"
  by (auto simp: attrs_only_def inode_attrs_refl)

lemma update_attrs:
  assumes "\<And>nd. \<exists>m u h. g nd = nd\<lparr>in_mode := m, in_uid := u, in_gid := h\<rparr>"
  shows "keeps attrs_only (os_update t g)"
proof (rule keepsI)
  fix w r w'
  assume u: "os_update t g w = (r, w')"
  then obtain x w1 where s: "os_stat t w = (x, w1)" and w': "w' = w1 \<or> (\<exists>i. w' = w1\<lparr>w_fs := set_inode i g (w_fs w1)\<rparr>)"
    by (auto simp: os_update_def split: prod.splits option.splits)
  from os_stat_same [OF s] w' assms show "attrs_only w w'"
    by (auto simp: attrs_only_def set_inode_def inode_attrs_refl)
qed

lemma preserve_attrs_only: "attrs_only w (preserve_attrs t nd w)"
proof -
  have m: "keeps attrs_only (os_chmod t m)" for m
    unfolding os_chmod_def by (rule update_attrs) (metis inode.update_convs(5,6,7) inode.surjective)
  have o: "keeps attrs_only (os_chown t u g)" for u g
    unfolding os_chown_def by (rule update_attrs) (metis inode.update_convs(5,6,7) inode.surjective)
  let ?w1 = "snd (os_chmod t (in_mode nd mod 512) w)"
  obtain ok w2 where c: "os_chown t (in_uid nd) (in_gid nd) ?w1 = (ok, w2)" by fastforce
  have "attrs_only w w2" using m keepsD [OF o c] ao.frame_trans unfolding keeps_def by blast
  moreover have "attrs_only w2 (snd (os_chown t (- 1) (in_gid nd) w2))" using o by (simp add: keeps_def)
  ultimately show ?thesis
    using c ao.frame_trans unfolding preserve_attrs_def by (cases ok) (auto simp: Let_def)
qed

lemma replace_InrE:
  assumes "replace_original tmp p info w = (Inr u, w')"
  obtains w1 nd f where "writes_only tmp w w1" "attrs_only w w1"
    "lookup (w_fs w1) (canon w p) = Some (fst info, nd)"
    "in_size nd = in_size (snd info)" "in_mtime nd = in_mtime (snd info)"
    "rename_fs (canon w tmp) (canon w p) (w_fs w1) = Some f" "w_fs w' = f" "w_cwd w' = w_cwd w"
proof -
  from assms [unfolded replace_original_def] obtain u1 s1 u2 s2 s3 where
    a: "sync_temp tmp w = (Inr u1, s1)" and b: "unchanged_check p info (preserve_attrs tmp (snd info) s1) = (Inr u2, s2)"
    and c: "os_rename tmp p s2 = (True, s3)" and w': "w' = sync_dir (dir_name p) s3"
    by (elim andthen_InrE) auto
  let ?s = "preserve_attrs tmp (snd info) s1"
  have sa: "same_files w s1" by (rule keepsD [OF keeps_sync_temp a])
  have sb: "same_files ?s s2" by (rule keepsD [OF keeps_unchanged_check b])
  have w1: "writes_only tmp w s2"
    by (meson same_writes_only sa sb preserve_writes wo.frame_trans)
  have a1: "attrs_only w s2"
    by (meson same_attrs_only sa sb preserve_attrs_only ao.frame_trans)
  have cwd: "w_cwd s2 = w_cwd w" using a1 by (simp add: attrs_only_def)
  obtain nd where nd: "lookup (w_fs s2) (canon w p) = Some (fst info, nd)"
    "in_size nd = in_size (snd info)" "in_mtime nd = in_mtime (snd info)"
    using unchanged_check_Inr [OF b] sb cwd by (auto simp: canon_def dest!: same_filesD)
  from rename_True [OF c] cwd obtain f where
    "rename_fs (canon w tmp) (canon w p) (w_fs s2) = Some f" "w_fs s3 = f" "w_cwd s3 = w_cwd w"
    by (metis canon_def)
  with w1 a1 nd sync_dir_same [of s3 "dir_name p"] w' show thesis
    by (intro that [of s2 nd f]) (auto dest!: same_filesD)
qed

subsection \<open>The rename\<close>

definition same_content :: "inode \<Rightarrow> inode \<Rightarrow> bool" where
  "same_content a b \<longleftrightarrow> a\<lparr>in_nlink := 0\<rparr> = b\<lparr>in_nlink := 0\<rparr>"

lemma same_content_refl [simp]: "same_content a a"
  by (simp add: same_content_def)

text \<open>Every name but \<open>P\<close> still names the same file, with the same content; only link counts may differ.\<close>

definition others_kept :: "path \<Rightarrow> fs \<Rightarrow> fs \<Rightarrow> bool" where
  "others_kept P f f' \<longleftrightarrow> (\<forall>q. q \<noteq> P \<longrightarrow> fs_names f' q = fs_names f q \<and>
     (\<forall>i. fs_names f q = Some i \<longrightarrow> same_content (fs_inodes f i) (fs_inodes f' i)))"

lemma rename_own:
  assumes "own T f" "T \<noteq> P" "rename_fs T P f = Some f'"
  obtains i where "fs_names f T = Some i" "fs_names f' = (fs_names f)(T := None, P := Some i)"
    "fs_inodes f' i = fs_inodes f i" "\<And>j. same_content (fs_inodes f j) (fs_inodes f' j)"
proof -
  from assms(3) obtain i where i: "fs_names f T = Some i" by (auto simp: rename_fs_def split: option.splits)
  with assms(1,2) have ne: "fs_names f P \<noteq> Some i" by (auto simp: own_def)
  from assms(2,3) i ne have "fs_names f' = (fs_names f)(T := None, P := Some i)"
    "fs_inodes f' i = fs_inodes f i" "\<And>j. same_content (fs_inodes f j) (fs_inodes f' j)"
    by (auto simp: rename_fs_def lookup_def unlink_def Let_def same_content_def fun_upd_twist
        split: option.splits if_splits)
  with i show thesis by (rule that)
qed

text \<open>After the rename the temporary name is gone, so the deferred removal finds nothing.\<close>

lemma remove_absent: "fs_names (w_fs w) (canon w t) = None \<Longrightarrow> same_files w (snd (os_remove t w))"
  by (auto simp: os_remove_def canon_def split: prod.splits dest!: fault_same [THEN same_filesD])

subsection \<open>Running the tool\<close>

text \<open>The documented output of a remux command: the argument after \<open>-o\<close>, else the last one.\<close>

definition out_arg :: "string list \<Rightarrow> string" where
  "out_arg args =
     (case dropWhile (\<lambda>a. a \<noteq> ''-o'') args of _ # o' # _ \<Rightarrow> o' | _ \<Rightarrow> last args)"

text \<open>
  What the pipelines assume of mkvmerge and ffmpeg: started directly or through nice, they
  write the output they are given and no other file.
\<close>

definition remux_confined :: "engine_env \<Rightarrow> bool" where
  "remux_confined ev \<longleftrightarrow>
     (\<forall>tool args. tool \<in> {et_mkvmerge (ev_tools ev), et_ffmpeg (ev_tools ev)} \<longrightarrow>
        keeps (writes_only (out_arg args)) (run_tool ev tool args))"

lemma exec_tool_keeps: "keeps R (run_tool ev tool args) \<Longrightarrow> keeps R (exec_tool ev wk nm tool args)"
  by (auto intro!: keepsI simp: exec_tool_def dest: keepsD split: prod.splits run_result.splits if_splits)

lemma accept_step:
  "(\<lambda>w. no_err (map_option VerifyFailed (accept (probe (ev_prober ev) w tmp))) w) w = (Inr u, w') \<longleftrightarrow>
   accept (probe (ev_prober ev) w tmp) = None \<and> w' = w"
  by (auto split: option.splits)

lemma accept_keeps: "keeps same_files (\<lambda>w. no_err (map_option VerifyFailed (accept (probe (ev_prober ev) w tmp))) w)"
  by (auto intro!: keepsI)

text \<open>A failed run changes the temporary name at most.\<close>

lemma finish_err:
  assumes "keeps (writes_only tmp) (run_tool ev tool args)"
  shows "keeps_err (writes_only tmp) (finish_remux ev wk nm tool args accept tmp p info)"
proof -
  have "keeps_err (writes_only tmp) (replace_original tmp p info)"
    by (auto simp: keeps_err_def dest: replace_Inl)
  then have last: "keeps_err (writes_only tmp) (andthen (replace_original tmp p info) (\<lambda>_. ret sz))" for sz
    by (rule wo.err_andthen_last) simp
  show ?thesis unfolding finish_remux_def
    by (rule last exec_tool_keeps assms wo.err_deferred keeps_remove wo.err_andthen wo.keeps_some_or
        keeps_same_writes [OF accept_keeps] keeps_same_writes [OF keeps_stat])+
qed

lemma finish_InrE:
  assumes "finish_remux ev wk nm tool args accept tmp p info w = (Inr sz, w')"
  obtains w1 w2 s i nd where "exec_tool ev wk nm tool args w = (Inr (), w1)"
    "accept (probe (ev_prober ev) w1 tmp) = None"
    "follow max_links (w_fs w1) (canon w1 tmp) = Some (i, nd)" "in_size nd = sz" "same_files w1 w2"
    "replace_original tmp p info w2 = (Inr (), s)" "w' = snd (os_remove tmp s)"
proof -
  from assms obtain s where s: "w' = snd (os_remove tmp s)"
    and r: "andthen (exec_tool ev wk nm tool args) (\<lambda>_.
        andthen (\<lambda>w. no_err (map_option VerifyFailed (accept (probe (ev_prober ev) w tmp))) w) (\<lambda>_.
        andthen (some_or (os_stat tmp) (OSError ''stat'')) (\<lambda>out.
        andthen (replace_original tmp p info) (\<lambda>_.
        ret (in_size (snd out)))))) w = (Inr sz, s)"
    unfolding finish_remux_def deferred_def by (auto split: prod.splits)
  from r obtain w1 x w2 where "exec_tool ev wk nm tool args w = (Inr (), w1)"
    "accept (probe (ev_prober ev) w1 tmp) = None"
    "os_stat tmp w1 = (Some x, w2)" "in_size (snd x) = sz" "replace_original tmp p info w2 = (Inr (), s)"
    by (elim andthen_InrE) (auto simp: accept_step split: option.splits)
  with s show thesis by (cases x) (auto intro: that dest: os_stat_Some os_stat_same)
qed

text \<open>
  A successful run: the tool's output was accepted, the original was still the examined file,
  its name now belongs to the output, the temporary name is gone and no other name moved.
\<close>

lemma finish_okE:
  assumes k: "keeps (writes_only tmp) (run_tool ev tool args)"
    and r: "finish_remux ev wk nm tool args accept tmp p info w = (Inr sz, w')"
    and own: "own (canon w tmp) (w_fs w)" and ne: "canon w tmp \<noteq> canon w p"
  obtains w1 i nd where "accept (probe (ev_prober ev) w1 tmp) = None" "w_cwd w1 = w_cwd w"
    "only (canon w tmp) (w_fs w) (w_fs w1)"
    "lookup (w_fs w1) (canon w tmp) = Some (i, nd)" "in_size nd = sz"
    "\<exists>nd'. lookup (w_fs w') (canon w p) = Some (i, nd') \<and> in_data nd' = in_data nd \<and> in_size nd' = in_size nd"
    "\<exists>nd0. lookup (w_fs w) (canon w p) = Some (fst info, nd0) \<and> in_size nd0 = in_size (snd info) \<and>
       in_mtime nd0 = in_mtime (snd info)"
    "fs_names (w_fs w') (canon w tmp) = None"
    "\<And>q. q \<noteq> canon w p \<Longrightarrow> q \<noteq> canon w tmp \<Longrightarrow> fs_names (w_fs w') q = fs_names (w_fs w) q \<and>
       (\<forall>j. fs_names (w_fs w) q = Some j \<longrightarrow> same_content (fs_inodes (w_fs w) j) (fs_inodes (w_fs w') j))"
proof -
  let ?T = "canon w tmp" and ?P = "canon w p"
  obtain w1 w2 s i nd where ex: "exec_tool ev wk nm tool args w = (Inr (), w1)"
    and acc: "accept (probe (ev_prober ev) w1 tmp) = None"
    and st: "follow max_links (w_fs w1) (canon w1 tmp) = Some (i, nd)" "in_size nd = sz"
    and s12: "same_files w1 w2"
    and rep: "replace_original tmp p info w2 = (Inr (), s)" and w': "w' = snd (os_remove tmp s)"
    by (rule finish_InrE [OF r])
  have wo1: "writes_only tmp w w1" by (rule keepsD [OF exec_tool_keeps [OF k] ex])
  then have c1: "canon w1 = canon w" and own1: "own ?T (w_fs w1)" and only1: "only ?T (w_fs w) (w_fs w1)"
    using own by (auto simp: writes_only_def canon_def fun_eq_iff)
  have c2: "canon w2 = canon w" using s12 c1 by (auto simp: canon_def fun_eq_iff dest!: same_filesD)
  obtain w3 nd3 f where wo3: "writes_only tmp w2 w3" and ao3: "attrs_only w2 w3"
    and nd3: "lookup (w_fs w3) (canon w2 p) = Some (fst info, nd3)"
      "in_size nd3 = in_size (snd info)" "in_mtime nd3 = in_mtime (snd info)"
    and ren: "rename_fs (canon w2 tmp) (canon w2 p) (w_fs w3) = Some f" "w_fs s = f" and cs: "w_cwd s = w_cwd w2"
    by (rule replace_InrE [OF rep])
  have own3: "own ?T (w_fs w3)" "only ?T (w_fs w1) (w_fs w3)"
    using wo3 own1 s12 c2 by (auto simp: writes_only_def dest!: same_filesD)
  obtain i3 where i3: "fs_names (w_fs w3) ?T = Some i3"
    and f: "fs_names f = (fs_names (w_fs w3))(?T := None, ?P := Some i3)" "fs_inodes f i3 = fs_inodes (w_fs w3) i3"
      "\<And>j. same_content (fs_inodes (w_fs w3) j) (fs_inodes f j)"
    using rename_own [OF own3(1) ne] ren(1) c2 by auto
  have "canon s = canon w" using cs c2 by (simp add: canon_def fun_eq_iff)
  then have "same_files s w'"
    unfolding w' using f ren(2) ne by (intro remove_absent) simp
  then have fs': "w_fs w' = f" using ren(2) by auto
  have T1: "lookup (w_fs w1) ?T = Some (i, nd)"
    using follow_own [OF own1] st(1) follow_inode [OF st(1)] c1 by (simp add: lookup_def)
  then have "i3 = i" using i3 ao3 s12 by (auto simp: attrs_only_def lookup_def dest!: same_filesD)
  moreover obtain m u g where "fs_inodes (w_fs w3) i = (fs_inodes (w_fs w2) i)\<lparr>in_mode := m, in_uid := u, in_gid := g\<rparr>"
    using ao3 unfolding attrs_only_def by blast
  ultimately have P': "lookup (w_fs w') ?P = Some (i, nd\<lparr>in_mode := m, in_uid := u, in_gid := g\<rparr>)"
    using T1 f s12 unfolding fs' by (auto simp: lookup_def dest!: same_filesD)
  have look: "lookup (w_fs w3) q = lookup (w_fs w) q" if "q \<noteq> ?T" for q
    using that only1 own3(2) by (simp add: only_def)
  have P: "lookup (w_fs w) ?P = Some (fst info, nd3)" using look [of ?P] nd3(1) ne c2 by simp
  have others: "fs_names (w_fs w') q = fs_names (w_fs w) q \<and>
       (\<forall>j. fs_names (w_fs w) q = Some j \<longrightarrow> same_content (fs_inodes (w_fs w) j) (fs_inodes (w_fs w') j))"
    if "q \<noteq> ?P" "q \<noteq> ?T" for q
    using look [OF that(2)] that f(1)
    by (auto simp: fs' lookup_def map_option_case split: option.splits) (metis f(3))
  have "w_cwd w1 = w_cwd w" using wo1 by (simp add: writes_only_def)
  then show thesis
    by (rule that [OF acc _ only1 T1 st(2) _ _ _ others]) (use P' P nd3 f(1) ne fs' in auto)
qed

subsection \<open>Creating the temporary file\<close>

text \<open>Inode numbers are handed out once.\<close>

definition fs_ok :: "fs \<Rightarrow> bool" where
  "fs_ok f \<longleftrightarrow> (\<forall>p i. fs_names f p = Some i \<longrightarrow> i < fs_next f)"

definition is_temp :: "path \<Rightarrow> bool" where
  "is_temp p \<longleftrightarrow> sublist ''.muxprune.tmp.'' p"

lemma pick_name_Some:
  "pick_name mk taken rs = Some (p, rs') \<Longrightarrow> \<not> taken p \<and> (\<exists>r \<in> set rs. p = mk r)"
  by (induction mk taken rs rule: pick_name.induct) (auto split: if_splits)

lemma drop_takeWhile_suffix:
  "\<not> P c \<Longrightarrow> suffix v (drop (Suc (length (takeWhile P (u @ c # v)))) (u @ c # v))"
  by (induction u) (auto intro: suffix_ConsI suffix_appendI)

lemma split_last_star_pre:
  assumes "split_last_star (a @ CHR ''*'' # b) = (pre, suf)"
  shows "prefix a pre"
proof -
  let ?r = "rev b @ CHR ''*'' # rev a" and ?P = "\<lambda>c. c \<noteq> CHR ''*''"
  have r: "rev (a @ CHR ''*'' # b) = ?r" by simp
  have "takeWhile ?P ?r \<noteq> ?r" unfolding takeWhile_eq_all_conv by simp
  then have "pre = rev (drop (Suc (length (takeWhile ?P ?r))) ?r)"
    using assms unfolding split_last_star_def Let_def r by (simp only: if_False prod.inject)
  moreover have "suffix (rev a) (drop (Suc (length (takeWhile ?P ?r))) ?r)"
    by (rule drop_takeWhile_suffix) simp
  ultimately show ?thesis by (simp add: suffix_to_prefix)
qed

lemma sublist_appendI: "sublist a b \<Longrightarrow> sublist a (x @ b @ y)"
  by (metis append.assoc sublist_def)

lemma join_dir_sublist: "sublist a n \<Longrightarrow> sublist a (join_dir d n)"
  using sublist_appendI [of a n d "[]"] sublist_appendI [of a n "d @ [sep]" "[]"] by (auto simp: join_dir_def)

lemma temp_path_Some:
  assumes "os_create_temp d (''.'' @ b @ ''.muxprune.tmp.*'' @ e) w = (Some tmp, w')"
  obtains w1 where "same_files w w1" "is_temp tmp" "fs_names (w_fs w) (canon w tmp) = None"
    "w_cwd w' = w_cwd w" "w_fs w' = add_file (canon w tmp) (new_inode w1) (w_fs w)"
proof -
  obtain bb w1 where f: "fault w = (bb, w1)" by fastforce
  let ?pat = "''.'' @ b @ ''.muxprune.tmp.*'' @ e"
  obtain pre suf where s: "split_last_star ?pat = (pre, suf)" by fastforce
  have "?pat = (''.'' @ b @ ''.muxprune.tmp.'') @ CHR ''*'' # e" by simp
  with s have "prefix (''.'' @ b @ ''.muxprune.tmp.'') pre" by (metis split_last_star_pre)
  then obtain z where z: "pre = (''.'' @ b @ ''.muxprune.tmp.'') @ z" unfolding prefix_def by blast
  have sub: "is_temp (join_dir d (pre @ r @ suf))" for r
  proof -
    have "sublist ''.muxprune.tmp.'' ((''.'' @ b) @ ''.muxprune.tmp.'' @ (z @ r @ suf))"
      by (rule sublist_appendI) (rule sublist_order.order_refl)
    then show ?thesis unfolding is_temp_def z by (intro join_dir_sublist) simp
  qed
  note same = fault_same [OF f, THEN same_filesD]
  from assms f s obtain rs where
    p: "pick_name (\<lambda>r. join_dir d (pre @ r @ suf)) (\<lambda>p. fs_names (w_fs w1) (canon w1 p) \<noteq> None) (w_rands w1) = Some (tmp, rs)"
    and w': "w' = w1\<lparr>w_rands := rs, w_fs := add_file (canon w1 tmp) (new_inode w1) (w_fs w1)\<rparr>"
    by (auto simp: os_create_temp_def split: if_splits option.splits)
  from pick_name_Some [OF p] sub w' same show thesis
    by (intro that [OF fault_same [OF f]]) (auto simp: canon_def)
qed

lemma create_temp_None: "os_create_temp d pat w = (None, w') \<Longrightarrow> same_files w w'"
  by (auto simp: os_create_temp_def same_files_def split: prod.splits if_splits option.splits
      dest: fault_same [THEN same_filesD])

lemma add_file_own:
  assumes "fs_ok f" "fs_names f T = None" "in_kind nd = RegularFile"
  shows "own T (add_file T nd f)" "only T f (add_file T nd f)"
  using assms by (fastforce simp: own_def only_def add_file_def fs_ok_def lookup_def map_option_case split: option.splits)+

text \<open>What a failed operation may leave behind: every file is as it was, and at most one new
  name appeared, a temporary one.\<close>

definition at_most_a_temp :: "world \<Rightarrow> world \<Rightarrow> bool" where
  "at_most_a_temp w w' \<longleftrightarrow>
     (\<forall>q. fs_names (w_fs w) q \<noteq> None \<longrightarrow> lookup (w_fs w') q = lookup (w_fs w) q) \<and>
     (\<exists>tmp. is_temp tmp \<and> (\<forall>q. fs_names (w_fs w) q = None \<and> fs_names (w_fs w') q \<noteq> None \<longrightarrow> q = canon w tmp))"

definition safe_err :: "world \<Rightarrow> world \<Rightarrow> bool" where
  "safe_err w w' \<longleftrightarrow> (fs_ok (w_fs w) \<longrightarrow> at_most_a_temp w w')"

lemma is_temp_ex: "is_temp ''.muxprune.tmp.''"
  by (simp add: is_temp_def)

interpretation se: frame_into same_files safe_err
proof
  show "safe_err s t" if "same_files s t" for s t
    using same_filesD [OF that] is_temp_ex by (auto simp: safe_err_def at_most_a_temp_def)
  show "safe_err s u" if "same_files s t" "safe_err t u" for s t u
    using same_filesD [OF that(1)] that(2) by (simp add: safe_err_def at_most_a_temp_def canon_def)
qed

lemma only_at_most_a_temp:
  assumes "is_temp tmp" "fs_names (w_fs w) (canon w tmp) = None" "only (canon w tmp) (w_fs w) (w_fs w')"
  shows "at_most_a_temp w w'"
proof -
  have "lookup (w_fs w') q = lookup (w_fs w) q" if "q \<noteq> canon w tmp" for q
    using assms(3) that by (simp add: only_def)
  then show ?thesis
    using assms(1,2) unfolding at_most_a_temp_def lookup_def
    by (metis (no_types, lifting) map_option_is_None option.distinct(1))
qed

text \<open>The rest of an operation, once the temporary file exists.\<close>

lemma temp_for_cases:
  assumes "temp_for p w = (r, w')" "fs_ok (w_fs w)"
  shows "(\<exists>e. r = Inl e) \<and> same_files w w' \<or>
    (\<exists>tmp. is_temp tmp \<and> fs_names (w_fs w) (canon w tmp) = None \<and> w_cwd w' = w_cwd w \<and>
       own (canon w tmp) (w_fs w') \<and> only (canon w tmp) (w_fs w) (w_fs w') \<and> (r = Inr tmp \<or> (\<exists>e. r = Inl e)))"
proof -
  let ?ct = "os_create_temp (dir_name p)
     (''.'' @ truncate_bytes (trim_suffix (base_name p) (file_ext p)) 200 @ ''.muxprune.tmp.*'' @ file_ext p)"
  obtain x w1 where c: "?ct w = (x, w1)" by fastforce
  show ?thesis
  proof (cases x)
    case None
    with c assms(1) show ?thesis
      by (auto simp: temp_for_def temp_path_def andthen_def some_or_def dest: create_temp_None)
  next
    case (Some tmp)
    then obtain w0 where t: "is_temp tmp" "fs_names (w_fs w) (canon w tmp) = None"
      "w_cwd w1 = w_cwd w" "w_fs w1 = add_file (canon w tmp) (new_inode w0) (w_fs w)"
      using c by (blast elim: temp_path_Some)
    obtain b w2 where fc: "os_file_call w1 = (b, w2)" by fastforce
    have s: "same_files w1 w2" by (rule keepsD [OF keeps_file_call fc])
    have "r = Inr tmp \<or> (\<exists>e. r = Inl e)" "w' = w2"
      using assms(1) c Some fc
      by (auto simp: temp_for_def temp_path_def andthen_def some_or_def ok_or_def split: if_splits)
    moreover have "own (canon w tmp) (w_fs w1)" "only (canon w tmp) (w_fs w) (w_fs w1)"
      unfolding t(4) by (intro add_file_own assms t(2); simp add: new_inode_def)+
    ultimately show ?thesis using t s by (auto dest!: same_filesD)
  qed
qed

lemma temp_then_err:
  assumes "\<And>tmp. is_temp tmp \<Longrightarrow> keeps_err (writes_only tmp) (f tmp)"
  shows "keeps_err safe_err (andthen (temp_for p) f)"
  unfolding keeps_err_def safe_err_def
proof (intro allI impI)
  fix w e w'
  assume r: "andthen (temp_for p) f w = (Inl e, w')" and ok: "fs_ok (w_fs w)"
  obtain x w1 where t: "temp_for p w = (x, w1)" by fastforce
  from temp_for_cases [OF t ok] consider (none) e where "x = Inl e" "same_files w w1"
    | (some) tmp where "is_temp tmp" "fs_names (w_fs w) (canon w tmp) = None" "w_cwd w1 = w_cwd w"
      "own (canon w tmp) (w_fs w1)" "only (canon w tmp) (w_fs w) (w_fs w1)" "x = Inr tmp \<or> (\<exists>e. x = Inl e)"
    by blast
  then show "at_most_a_temp w w'"
  proof cases
    case none
    then show ?thesis using r t se.into [of w w1] ok by (auto simp: andthen_def safe_err_def)
  next
    case some
    have c: "canon w1 = canon w" using some(3) by (simp add: canon_def fun_eq_iff)
    have "writes_only tmp w1 w'"
      using r t some(6) keeps_errD [OF assms [OF some(1)]] by (auto simp: andthen_def wo.frame_refl)
    then have "only (canon w tmp) (w_fs w) (w_fs w')" using some(4,5) c by (auto simp: writes_only_def only_def)
    then show ?thesis by (rule only_at_most_a_temp [OF some(1,2)])
  qed
qed

text \<open>
  The original's name now belongs to a file that passed \<open>accept\<close> under a temporary name, with
  the content it had then; every other name is as before.
\<close>

definition replaced ::
  "engine_env \<Rightarrow> (probe_err + probe_result \<Rightarrow> verify_err option) \<Rightarrow> path \<Rightarrow> int \<Rightarrow> world \<Rightarrow> world \<Rightarrow> bool" where
  "replaced ev accept p sz w w' \<longleftrightarrow>
     (\<exists>wv tmp i nd nd'. is_temp tmp \<and> fs_names (w_fs w) (canon w tmp) = None \<and>
        accept (probe (ev_prober ev) wv tmp) = None \<and> lookup (w_fs wv) (canon w tmp) = Some (i, nd) \<and>
        lookup (w_fs w') (canon w p) = Some (i, nd') \<and> in_data nd' = in_data nd \<and> in_size nd' = in_size nd \<and>
        in_size nd = sz) \<and>
     others_kept (canon w p) (w_fs w) (w_fs w')"

lemma temp_then_ok:
  assumes t: "temp_for p w = (Inr tmp, w1)" and ok: "fs_ok (w_fs w)"
    and k: "is_temp tmp \<Longrightarrow> keeps (writes_only tmp) (run_tool ev tool args)"
    and r: "finish_remux ev wk nm tool args accept tmp p info w1 = (Inr sz, w')"
    and ex: "fs_names (w_fs w) (canon w p) \<noteq> None"
  shows "replaced ev accept p sz w w'"
proof -
  from temp_for_cases [OF t ok] have tmp: "is_temp tmp" "fs_names (w_fs w) (canon w tmp) = None"
    and c: "w_cwd w1 = w_cwd w" and own: "own (canon w tmp) (w_fs w1)" and on: "only (canon w tmp) (w_fs w) (w_fs w1)"
    by auto
  have cn: "canon w1 = canon w" using c by (simp add: canon_def fun_eq_iff)
  have ne: "canon w1 tmp \<noteq> canon w1 p" using tmp(2) ex cn by auto
  obtain wv i nd where f: "accept (probe (ev_prober ev) wv tmp) = None"
    "lookup (w_fs wv) (canon w1 tmp) = Some (i, nd)" "in_size nd = sz"
    "\<exists>nd'. lookup (w_fs w') (canon w1 p) = Some (i, nd') \<and> in_data nd' = in_data nd \<and> in_size nd' = in_size nd"
    "fs_names (w_fs w') (canon w1 tmp) = None"
    "\<And>q. q \<noteq> canon w1 p \<Longrightarrow> q \<noteq> canon w1 tmp \<Longrightarrow> fs_names (w_fs w') q = fs_names (w_fs w1) q \<and>
       (\<forall>j. fs_names (w_fs w1) q = Some j \<longrightarrow> same_content (fs_inodes (w_fs w1) j) (fs_inodes (w_fs w') j))"
    by (rule finish_okE [OF k [OF tmp(1)] r _ ne]) (use own cn in auto)
  have look: "lookup (w_fs w1) q = lookup (w_fs w) q" if "q \<noteq> canon w tmp" for q
    using on that by (simp add: only_def)
  have "fs_names (w_fs w') q = fs_names (w_fs w) q \<and>
      (\<forall>j. fs_names (w_fs w) q = Some j \<longrightarrow> same_content (fs_inodes (w_fs w) j) (fs_inodes (w_fs w') j))"
    if "q \<noteq> canon w p" for q
  proof (cases "q = canon w tmp")
    case True
    with f(5) tmp(2) cn show ?thesis by simp
  next
    case False
    with f(6) [of q] look [OF False] that cn show ?thesis
      by (auto simp: lookup_def map_option_case split: option.splits)
  qed
  then have "others_kept (canon w p) (w_fs w) (w_fs w')" by (simp add: others_kept_def)
  with f(1-4) tmp show ?thesis unfolding replaced_def cn by blast
qed

subsection \<open>Guards\<close>

lemma stat_replaceable_InrE:
  assumes "stat_replaceable p allow w = (Inr info, w')"
  obtains "same_files w w'" "lookup (w_fs w) (canon w p) = Some info" "\<not> is_symlink (snd info)"
    "allow \<or> in_nlink (snd info) \<le> 1"
proof -
  from assms [unfolded stat_replaceable_def] have l: "lookup (w_fs w) (canon w p) = Some info"
    and "\<not> is_symlink (snd info)" "allow \<or> in_nlink (snd info) \<le> 1"
    by (elim andthen_InrE; cases info; auto simp: check_hardlinks_def lookup_def dest!: os_lstat_Some
        split: if_splits option.splits)+
  with keepsD [OF keeps_stat_replaceable assms] show thesis by (intro that)
qed

lemma free_space_Inr: "free_space_check d info w = (Inr u, w') \<Longrightarrow> same_files w w'"
  by (rule keepsD [OF keeps_free_space])

lemma probe_op_Inr [simp]:
  "probe_op ev p w = (Inr r, w') \<longleftrightarrow> probe (ev_prober ev) w p = Inr r \<and> w' = w"
  by (auto simp: probe_op_def split: sum.splits)

subsection \<open>The command lines name the temporary file as output\<close>

text \<open>\<^verbatim>\<open>exec.LookPath\<close> returns a path whose last element is the name looked for.\<close>

definition tool_names :: "engine_env \<Rightarrow> bool" where
  "tool_names ev \<longleftrightarrow>
     (et_mkvmerge (ev_tools ev) \<noteq> '''' \<longrightarrow> sublist ''mkvmerge'' (base_name (et_mkvmerge (ev_tools ev)))) \<and>
     (et_ffmpeg (ev_tools ev) \<noteq> '''' \<longrightarrow> \<not> sublist ''mkvmerge'' (base_name (et_ffmpeg (ev_tools ev))))"

lemma out_arg_o: "out_arg (''-q'' # ''-o'' # t # args) = t"
  by (simp add: out_arg_def)

lemma out_arg_last: "''-o'' \<notin> set args \<Longrightarrow> t \<noteq> ''-o'' \<Longrightarrow> out_arg (args @ [t]) = t"
proof -
  assume "''-o'' \<notin> set args" "t \<noteq> ''-o''"
  then have "dropWhile (\<lambda>a. a \<noteq> ''-o'') (args @ [t]) = []" by (simp add: dropWhile_eq_Nil_conv) blast
  then show ?thesis unfolding out_arg_def by simp
qed

lemma ffmpeg_args_no_o: "''-o'' \<notin> set (ffmpeg_args res spec)"
  by (auto simp: ffmpeg_args_def negs_def neg_map_def safe_path_arg_def Let_def prefix_def)

lemma is_temp_neq_o: "is_temp t \<Longrightarrow> t \<noteq> ''-o''"
  by (auto simp: is_temp_def sublist_def dest: arg_cong [where f = length])

lemma removal_out_arg:
  assumes "tool_names ev" "build_args (ev_tools ev) res spec = Inr (tool, args)" "is_temp tmp"
  shows "out_arg (reorder_output tool (args @ output_args tool tmp) tmp) = tmp"
    and "tool \<in> {et_mkvmerge (ev_tools ev), et_ffmpeg (ev_tools ev)}"
  using assms out_arg_o out_arg_last [OF ffmpeg_args_no_o is_temp_neq_o [OF assms(3)]]
  by (auto simp: build_args_def tool_names_def reorder_output_def output_args_def split: if_splits)

lemma remux_confinedD:
  "remux_confined ev \<Longrightarrow> tool \<in> {et_mkvmerge (ev_tools ev), et_ffmpeg (ev_tools ev)} \<Longrightarrow> out_arg args = t \<Longrightarrow>
   keeps (writes_only t) (run_tool ev tool args)"
  by (auto simp: remux_confined_def)

subsection \<open>The operations\<close>

lemma finish_ret_err:
  assumes "is_temp tmp \<Longrightarrow> keeps (writes_only tmp) (run_tool ev tool args)" "is_temp tmp"
  shows "keeps_err (writes_only tmp) (andthen (finish_remux ev wk nm tool args accept tmp p info) (\<lambda>sz. ret (g sz)))"
  by (rule wo.err_andthen_last [OF finish_err]) (use assms in auto)

lemma remove_tracks_err:
  assumes "remux_confined ev" "tool_names ev"
  shows "keeps_err safe_err (remove_tracks ev p spec opts)"
proof -
  have tail: "keeps_err safe_err (andthen (temp_for p) (\<lambda>tmp.
       andthen (finish_remux ev wk nm tool (reorder_output tool (args @ output_args tool tmp) tmp) acc tmp p info)
         (\<lambda>sz. ret (g sz))))"
    if "build_args (ev_tools ev) res spec' = Inr (tool, args)" for wk nm tool args acc info g res spec'
    by (rule temp_then_err, rule finish_ret_err)
      (use removal_out_arg [OF assms(2) that] remux_confinedD [OF assms(1)] in blast)+
  show ?thesis unfolding remove_tracks_def Let_def
    by (rule se.into_andthen, rule sf.keeps_ensure sf.keeps_no_err reading_steps)+
      (rule se.into_pure, auto intro!: tail se.into_ret)
qed

lemma mkvmerge_stage_err:
  assumes "remux_confined ev" "\<And>tmp. out_arg (args tmp) = tmp"
  shows "keeps_err safe_err (mkvmerge_stage ev p info args accept)"
  unfolding mkvmerge_stage_def Let_def
  by (rule temp_then_err, rule finish_ret_err) (use remux_confinedD assms in auto)

lemma reorder_tracks_err:
  assumes "remux_confined ev"
  shows "keeps_err safe_err (reorder_tracks ev p order allow)"
  unfolding reorder_tracks_def
  by (intro se.into_andthen sf.keeps_ensure sf.keeps_no_err reading_steps mkvmerge_stage_err assms)
    (simp add: reorder_args_def out_arg_o)

lemma merge_tracks_err:
  assumes "remux_confined ev"
  shows "keeps_err safe_err (merge_tracks ev p files allow)"
  unfolding merge_tracks_def
  by (intro se.into_andthen sf.keeps_ensure sf.keeps_no_err reading_steps mkvmerge_stage_err assms)
    (simp add: merge_args_def out_arg_o)

lemma tail_okE:
  assumes t: "andthen (temp_for p) (\<lambda>tmp. andthen (finish_remux ev wk nm tool (args tmp) accept tmp p info)
      (\<lambda>sz. ret (g tmp sz))) w1 = (Inr r, w')"
    and s: "same_files w w1" and ok: "fs_ok (w_fs w)" and ex: "lookup (w_fs w) (canon w p) = Some info"
    and k: "\<And>tmp. is_temp tmp \<Longrightarrow> keeps (writes_only tmp) (run_tool ev tool (args tmp))"
  obtains sz tmp where "replaced ev accept p sz w w'" "r = g tmp sz"
proof -
  from t obtain tmp w2 sz where tmp: "temp_for p w1 = (Inr tmp, w2)"
    and f: "finish_remux ev wk nm tool (args tmp) accept tmp p info w2 = (Inr sz, w')" and r: "r = g tmp sz"
    by (auto elim!: andthen_InrE)
  have "replaced ev accept p sz w1 w'"
    by (rule temp_then_ok [OF tmp _ k f]) (use ok s ex in \<open>auto simp: lookup_def canon_def\<close>)
  then have "replaced ev accept p sz w w'" using same_filesD [OF s] by (simp add: replaced_def canon_def)
  then show thesis using r by (rule that)
qed

lemma remove_tracks_InrE:
  assumes "remove_tracks ev p spec opts w = (Inr r, w')"
    and conf: "remux_confined ev" "tool_names ev" and ok: "fs_ok (w_fs w)"
  defines "spec' \<equiv> \<lparr>rm_audio = sorted_compact (rm_audio spec), rm_subs = sorted_compact (rm_subs spec)\<rparr>"
  obtains w0 inp info out_size where "same_files w w0" "probe (ev_prober ev) w0 p = Inr inp"
    "validate inp spec' opts = None" "lookup (w_fs w) (canon w p) = Some info"
    "op_allow_hardlink opts \<or> in_nlink (snd info) \<le> 1" "\<not> spec_empty spec"
    "op_dry_run opts \<Longrightarrow> same_files w w'"
    "\<not> op_dry_run opts \<Longrightarrow> replaced ev (verify inp spec') p out_size w w' \<and>
       er_saved r = i64 (in_size (snd info) - out_size)"
proof -
  from assms(1) [unfolded remove_tracks_def Let_def, folded spec'_def]
  obtain info w1 inp w2 tool args where ne: "\<not> spec_empty spec"
    and st: "stat_replaceable p (op_allow_hardlink opts) w = (Inr info, w1)"
    and pr: "probe (ev_prober ev) w1 p = Inr inp" and va: "validate inp spec' opts = None"
    and fr: "free_space_check (dir_name p) info w1 = (Inr (), w2)"
    and ba: "build_args (ev_tools ev) inp spec' = Inr (tool, args)"
    and rest: "(if op_dry_run opts
      then ret \<lparr>er_tool = base_name tool, er_command = tool @ '' '' @ join '' '' args,
                er_saved = estimate_removed inp spec', er_dry_run = True\<rparr>
      else andthen (temp_for p) (\<lambda>tmp.
        andthen (finish_remux ev (tool = et_mkvmerge (ev_tools ev)) (base_name tool) tool
                 (reorder_output tool (args @ output_args tool tmp) tmp) (verify inp spec') tmp p info) (\<lambda>out_size.
        ret \<lparr>er_tool = base_name tool, er_command = tool @ '' '' @ join '' '' args,
             er_saved = i64 (in_size (snd info) - out_size), er_dry_run = False\<rparr>))) w2 = (Inr r, w')"
    by (elim andthen_InrE) (auto split: option.splits prod.splits if_splits)
  obtain s1: "same_files w w1" and l: "lookup (w_fs w) (canon w p) = Some info"
    and n: "op_allow_hardlink opts \<or> in_nlink (snd info) \<le> 1"
    by (rule stat_replaceable_InrE [OF st])
  have s2: "same_files w w2" using s1 free_space_Inr [OF fr] by (rule same_files_trans)
  show thesis
  proof (cases "op_dry_run opts")
    case True
    with rest s2 show thesis by (intro that [OF s1 pr va l n ne]) auto
  next
    case False
    have k: "keeps (writes_only tmp) (run_tool ev tool (reorder_output tool (args @ output_args tool tmp) tmp))"
      if "is_temp tmp" for tmp
      using removal_out_arg [OF conf(2) ba that] remux_confinedD [OF conf(1)] by blast
    from False rest have "andthen (temp_for p) (\<lambda>tmp.
        andthen (finish_remux ev (tool = et_mkvmerge (ev_tools ev)) (base_name tool) tool
                 (reorder_output tool (args @ output_args tool tmp) tmp) (verify inp spec') tmp p info) (\<lambda>out_size.
        ret \<lparr>er_tool = base_name tool, er_command = tool @ '' '' @ join '' '' args,
             er_saved = i64 (in_size (snd info) - out_size), er_dry_run = False\<rparr>)) w2 = (Inr r, w')" by simp
    then obtain sz where "replaced ev (verify inp spec') p sz w w'" "er_saved r = i64 (in_size (snd info) - sz)"
      by (rule tail_okE [OF _ s2 ok l k]) auto
    with False show thesis by (intro that [OF s1 pr va l n ne]) auto
  qed
qed

lemma mkvmerge_stage_ok:
  assumes "mkvmerge_stage ev p info args accept w1 = (Inr r, w')" "remux_confined ev"
    "\<And>tmp. out_arg (args tmp) = tmp" "same_files w w1" "fs_ok (w_fs w)" "lookup (w_fs w) (canon w p) = Some info"
  shows "\<exists>sz. replaced ev accept p sz w w' \<and> er_saved r = max 0 (i64 (in_size (snd info) - sz))"
proof -
  have k: "keeps (writes_only tmp) (run_tool ev (et_mkvmerge (ev_tools ev)) (args tmp))" for tmp
    by (rule remux_confinedD [OF assms(2) _ assms(3)]) simp
  from tail_okE [OF assms(1) [unfolded mkvmerge_stage_def Let_def] assms(4-6) k]
  obtain sz tmp where "replaced ev accept p sz w w'"
    "r = mkvmerge_result (et_mkvmerge (ev_tools ev)) (args tmp) info sz" by blast
  then show ?thesis by (intro exI [of _ sz]) (simp add: mkvmerge_result_def Let_def)
qed

lemma reorder_tracks_InrE:
  assumes "reorder_tracks ev p order allow w = (Inr r, w')"
    and conf: "remux_confined ev" and ok: "fs_ok (w_fs w)"
  obtains w0 inp info sz where "same_files w w0" "probe (ev_prober ev) w0 p = Inr inp" "is_matroska inp"
    "reorder_check (pr_streams inp) order = None" "lookup (w_fs w) (canon w p) = Some info"
    "allow \<or> in_nlink (snd info) \<le> 1"
    "replaced ev (verify inp \<lparr>rm_audio = [], rm_subs = []\<rparr>) p sz w w'"
proof -
  from assms(1) [unfolded reorder_tracks_def]
  obtain info w1 inp w2 u where st: "stat_replaceable p allow w = (Inr info, w1)"
    and pr: "probe (ev_prober ev) w1 p = Inr inp" and mk: "is_matroska inp"
    and va: "reorder_check (pr_streams inp) order = None"
    and fr: "free_space_check (dir_name p) info w1 = (Inr u, w2)"
    and rest: "mkvmerge_stage ev p info (reorder_args p (pr_streams inp) order)
       (verify inp \<lparr>rm_audio = [], rm_subs = []\<rparr>) w2 = (Inr r, w')"
    unfolding andthen_Inr_iff ensure_Inr no_err_Inr probe_op_Inr by blast
  obtain s1: "same_files w w1" and l: "lookup (w_fs w) (canon w p) = Some info"
    and n: "allow \<or> in_nlink (snd info) \<le> 1"
    by (rule stat_replaceable_InrE [OF st])
  have s2: "same_files w w2" using s1 free_space_Inr [OF fr] by (rule same_files_trans)
  have "out_arg (reorder_args p (pr_streams inp) order tmp) = tmp" for tmp
    by (simp add: reorder_args_def out_arg_o)
  from mkvmerge_stage_ok [OF rest conf this s2 ok l] that [OF s1 pr mk va l n] show thesis by blast
qed

lemma merge_tracks_InrE:
  assumes "merge_tracks ev p files allow w = (Inr r, w')"
    and conf: "remux_confined ev" and ok: "fs_ok (w_fs w)"
  obtains w0 inp info w2 w3 sz where "same_files w w0" "probe (ev_prober ev) w0 p = Inr inp" "is_matroska inp"
    "merge_visible inp = None" "same_files w w2" "validate_external_files (ev_roots ev) p files w2 = (Inr (), w3)"
    "lookup (w_fs w) (canon w p) = Some info" "allow \<or> in_nlink (snd info) \<le> 1"
    "replaced ev (verify_merge inp) p sz w w'"
proof -
  from assms(1) [unfolded merge_tracks_def]
  obtain info w1 inp w2 w3 u u' where st: "stat_replaceable p allow w = (Inr info, w1)"
    and pr: "probe (ev_prober ev) w1 p = Inr inp" and mk: "is_matroska inp"
    and va: "merge_visible inp = None"
    and ex: "validate_external_files (ev_roots ev) p files w1 = (Inr u', w2)"
    and fr: "free_space_check (dir_name p) info w2 = (Inr u, w3)"
    and rest: "mkvmerge_stage ev p info (merge_args p files) (verify_merge inp) w3 = (Inr r, w')"
    unfolding andthen_Inr_iff ensure_Inr no_err_Inr probe_op_Inr by blast
  obtain s1: "same_files w w1" and l: "lookup (w_fs w) (canon w p) = Some info"
    and n: "allow \<or> in_nlink (snd info) \<le> 1"
    by (rule stat_replaceable_InrE [OF st])
  have s3: "same_files w w3"
    using s1 keepsD [OF keeps_validate_external ex] free_space_Inr [OF fr] by (meson same_files_trans)
  have "out_arg (merge_args p files tmp) = tmp" for tmp by (simp add: merge_args_def out_arg_o)
  from mkvmerge_stage_ok [OF rest conf this s3 ok l] that [OF s1 pr mk va s1 _ l n] ex show thesis by (cases u') auto
qed

text \<open>A refused file stops every operation before its tool runs.\<close>

lemma refused:
  assumes "lookup (w_fs w) (canon w p) = Some (i, nd)" "1 < in_nlink nd" "same_files w w0"
  shows "stops same_files (stat_replaceable p False) w0"
proof -
  obtain r w1 where st: "stat_replaceable p False w0 = (r, w1)" by fastforce
  have s: "same_files w0 w1" by (rule keepsD [OF keeps_stat_replaceable st])
  show ?thesis
  proof (cases r)
    case (Inr info)
    from stat_replaceable_InrE [OF st [unfolded Inr]] assms have False
      by (metis canon_def not_le same_filesD option.inject snd_conv)
    then show ?thesis ..
  qed (use st s in \<open>auto simp: stops_def\<close>)
qed

end
