(* ===== verification/Demo.thy ===== *)
theory Demo
  imports RunProps
begin

text \<open>
  A concrete engine, file system and media file, on which the witnesses evaluate the pipelines:
  a Matroska file with one video, two audio and one subtitle stream; a remuxer that writes a
  smaller file under the output name; a prober that lists one audio stream less for it.
\<close>

definition demo_raw :: "int \<Rightarrow> string \<Rightarrow> string \<Rightarrow> string \<Rightarrow> raw_stream" where
  "demo_raw i ty codec lang = \<lparr>rs_index = i, rs_codec_type = ty, rs_codec_name = codec, rs_channels = 2,
     rs_layout = '''', rs_bit_rate = '''', rs_default = 0, rs_forced = 0, rs_attached_pic = 0,
     rs_tags = [(''language'', lang)]\<rparr>"

definition demo_streams :: "raw_stream list" where
  "demo_streams = [demo_raw 0 ''video'' ''h264'' '''', demo_raw 1 ''audio'' ''aac'' ''eng'',
     demo_raw 2 ''audio'' ''ac3'' ''fre'', demo_raw 3 ''subtitle'' ''subrip'' ''eng'']"

definition demo_probe_in :: raw_probe where
  "demo_probe_in = \<lparr>rp_streams = demo_streams, rp_format_name = ''matroska,webm'', rp_duration = ''100'',
     rp_size = ''1000''\<rparr>"

definition demo_probe_out :: raw_probe where
  "demo_probe_out = \<lparr>rp_streams = [demo_streams ! 0, demo_streams ! 1, demo_streams ! 3],
     rp_format_name = ''matroska,webm'', rp_duration = ''100'', rp_size = ''900''\<rparr>"

definition demo_ident :: "ident_track list" where
  "demo_ident =
     [\<lparr>it_id = 0, it_type = ''video'', it_lang = ''und'', it_codec = ''V_MPEG4/ISO/AVC''\<rparr>,
      \<lparr>it_id = 1, it_type = ''audio'', it_lang = ''eng'', it_codec = ''A_AAC''\<rparr>,
      \<lparr>it_id = 2, it_type = ''audio'', it_lang = ''fre'', it_codec = ''A_AC3''\<rparr>,
      \<lparr>it_id = 3, it_type = ''subtitles'', it_lang = ''eng'', it_codec = ''S_TEXT/UTF8''\<rparr>]"

definition demo_temp :: "string \<Rightarrow> bool" where
  "demo_temp arg \<longleftrightarrow> sublist ''.muxprune.'' arg"

text \<open>\<open>n\<close> says which of the two listings a temporary file gets: a removal's or a reordering's.\<close>

definition demo_prober :: "bool \<Rightarrow> world prober" where
  "demo_prober pruned = \<lparr>p_has_ffprobe = True, p_has_mkvmerge = True,
     p_ffprobe = (\<lambda>_ arg. Inr (Some (if pruned \<and> demo_temp arg then demo_probe_out else demo_probe_in))),
     p_mkvmerge = (\<lambda>_ arg. Inr (Some (if pruned \<and> demo_temp arg
        then [demo_ident ! 0, demo_ident ! 1, demo_ident ! 3] else demo_ident)))\<rparr>"

definition demo_write :: "inode \<Rightarrow> inode" where
  "demo_write nd = nd\<lparr>in_data := ''remuxed'', in_size := 900\<rparr>"

definition demo_run :: "string \<Rightarrow> string list \<Rightarrow> world \<Rightarrow> run_result \<times> world" where
  "demo_run bin args w =
     (RunOK,
      case fs_names (w_fs w) (canon w (out_arg args)) of
        None \<Rightarrow> w
      | Some i \<Rightarrow> w\<lparr>w_fs := set_inode i demo_write (w_fs w)\<rparr>)"

definition demo_tools :: engine_tools where
  "demo_tools = \<lparr>et_ffmpeg = ''/usr/bin/ffmpeg'', et_mkvmerge = ''/usr/bin/mkvmerge'',
     et_mkvpropedit = ''/usr/bin/mkvpropedit''\<rparr>"

definition demo_env :: "bool \<Rightarrow> engine_env" where
  "demo_env pruned = \<lparr>ev_tools = demo_tools,
     ev_prober = demo_prober pruned, ev_run = demo_run, ev_nice = '''', ev_ionice = '''',
     ev_roots = Some [''/m''], ev_recycle = ''''\<rparr>"

definition demo_inode :: "int \<Rightarrow> node_kind \<Rightarrow> string \<Rightarrow> inode" where
  "demo_inode links kind d = \<lparr>in_kind = kind, in_size = 1000, in_mtime = 7, in_nlink = links, in_mode = 420,
     in_uid = 1, in_gid = 2, in_data = d\<rparr>"

text \<open>Two files: \<open>a.mkv\<close>, and \<open>b.mkv\<close> which has a hard link \<open>c.mkv\<close>; and a subtitle file.\<close>

definition demo_fs :: fs where
  "demo_fs = \<lparr>fs_names = (\<lambda>_. None)(''/m'' := Some 0, ''/m/a.mkv'' := Some 5, ''/m/b.mkv'' := Some 6,
       ''/m/c.mkv'' := Some 6, ''/m/x.srt'' := Some 7),
     fs_inodes = (\<lambda>_. demo_inode 1 RegularFile ''original'')(0 := demo_inode 2 Dir '''',
       6 := demo_inode 2 RegularFile ''linked''),
     fs_next = 8\<rparr>"

definition demo_world :: "bool list \<Rightarrow> world" where
  "demo_world faults = \<lparr>w_fs = demo_fs, w_cwd = ''/'', w_free = (\<lambda>_. Some 100000), w_faults = faults,
     w_rands = [''1''], w_now = 50\<rparr>"

lemma demo_fs_ok: "fs_ok (w_fs (demo_world fl))"
  by (auto simp: fs_ok_def demo_world_def demo_fs_def split: if_splits)

lemma demo_names: "tool_names (demo_env b)"
  by code_simp

lemma demo_confined: "remux_confined (demo_env b)"
proof -
  have "keeps (writes_only (out_arg args)) (demo_run bin args)" for bin args
  proof (rule keepsI)
    fix w r w'
    assume r: "demo_run bin args w = (r, w')"
    show "writes_only (out_arg args) w w'"
    proof (cases "fs_names (w_fs w) (canon w (out_arg args))")
      case None
      with r show ?thesis by (simp add: demo_run_def wo.frame_refl)
    next
      case (Some i)
      with r have "w' = w\<lparr>w_fs := set_inode i demo_write (w_fs w)\<rparr>" by (simp add: demo_run_def)
      then show ?thesis
        using set_inode_own [OF _ Some, of demo_write] by (simp add: writes_only_def demo_write_def)
    qed
  qed
  moreover have "run_tool (demo_env b) tool args = demo_run tool args" for tool args
    by (simp add: run_tool_def demo_env_def wrap_nice_def fun_eq_iff)
  ultimately show ?thesis by (simp add: remux_confined_def)
qed

definition demo_opts :: "bool \<Rightarrow> options" where
  "demo_opts dry = \<lparr>op_allow_hardlink = False, op_allow_last_audio = False, op_dry_run = dry\<rparr>"

abbreviation demo_spec :: removal_spec where
  "demo_spec \<equiv> \<lparr>rm_audio = [2], rm_subs = []\<rparr>"

definition demo_remove :: "(engine_err + engine_result) \<times> world" where
  "demo_remove = remove_tracks (demo_env True) ''/m/a.mkv'' demo_spec (demo_opts False) (demo_world [])"

subsection \<open>Evaluating the stages\<close>

definition demo_tmp :: path where
  "demo_tmp = ''/m/.a.muxprune.tmp.1.mkv''"

lemma demo_paths:
  "dir_name ''/m/a.mkv'' = ''/m''" "file_ext ''/m/a.mkv'' = ''.mkv''"
  "trim_suffix (base_name ''/m/a.mkv'') ''.mkv'' = ''a''"
  "split_last_star (''.'' @ ''a'' @ ''.muxprune.tmp.*'' @ ''.mkv'') = (''.a.muxprune.tmp.'', ''.mkv'')"
  "join_dir ''/m'' (''.a.muxprune.tmp.'' @ ''1'' @ ''.mkv'') = demo_tmp"
  "sep \<notin> set (''.'' @ ''a'' @ ''.muxprune.tmp.*'' @ ''.mkv'')"
  by code_simp+

lemma demo_short: "truncate_bytes ''a'' 200 = ''a''"
  by (simp add: truncate_bytes_def)

lemma demo_clean:
  "clean ''/m/a.mkv'' = ''/m/a.mkv''" "clean ''/m/b.mkv'' = ''/m/b.mkv''" "clean demo_tmp = demo_tmp"
  "is_abs ''/m/a.mkv''" "is_abs ''/m/b.mkv''" "is_abs demo_tmp"
  by code_simp+

lemma demo_canon:
  "canon w ''/m/a.mkv'' = ''/m/a.mkv''" "canon w ''/m/b.mkv'' = ''/m/b.mkv''" "canon w demo_tmp = demo_tmp"
  by (simp_all only: canon_def abs_path_def demo_clean if_True)

definition demo_world1 :: world where
  "demo_world1 = (demo_world [])\<lparr>w_rands := [], w_fs := add_file demo_tmp (new_inode (demo_world [])) demo_fs\<rparr>"

definition demo_world2 :: world where
  "demo_world2 = demo_world1\<lparr>w_fs := set_inode 8 demo_write (w_fs demo_world1)\<rparr>"

lemma demo_fault:
  "w_faults w = [] \<Longrightarrow> fault w = (False, w)"
  "w_faults (demo_world []) = []" "w_faults demo_world1 = []" "w_faults demo_world2 = []"
  by (simp_all add: fault_def demo_world_def demo_world1_def demo_world2_def)

lemma demo_tmp_absent: "fs_names demo_fs demo_tmp = None"
  by (simp add: demo_fs_def demo_tmp_def)

lemma demo_names_at:
  "fs_names (w_fs (demo_world fl)) ''/m/a.mkv'' = Some 5" "fs_names (w_fs (demo_world fl)) ''/m/b.mkv'' = Some 6"
  "fs_names (w_fs demo_world1) demo_tmp = Some 8" "fs_names (w_fs demo_world2) demo_tmp = Some 8"
  "fs_names (w_fs demo_world2) ''/m/a.mkv'' = Some 5"
  by (simp_all add: demo_world_def demo_world1_def demo_world2_def add_file_def set_inode_def demo_fs_def demo_tmp_def)

lemma demo_inodes_at:
  "fs_inodes (w_fs (demo_world fl)) 5 = demo_inode 1 RegularFile ''original''"
  "fs_inodes (w_fs (demo_world fl)) 6 = demo_inode 2 RegularFile ''linked''"
  "fs_inodes (w_fs demo_world2) 5 = demo_inode 1 RegularFile ''original''"
  "fs_inodes (w_fs demo_world2) 8 = demo_write (new_inode (demo_world []))"
  by (simp_all add: demo_world_def demo_world1_def demo_world2_def add_file_def set_inode_def demo_fs_def)

lemma demo_stat:
  "w_faults w = [] \<Longrightarrow> w_fs w = demo_fs \<Longrightarrow>
   stat_replaceable ''/m/a.mkv'' a w = (Inr (5, demo_inode 1 RegularFile ''original''), w)"
  by (simp add: stat_replaceable_def op_defs os_lstat_def demo_fault demo_canon lookup_def demo_fs_def
      is_symlink_def check_hardlinks_def demo_inode_def)

lemma demo_temp_for: "temp_for ''/m/a.mkv'' (demo_world []) = (Inr demo_tmp, demo_world1)"
proof -
  have w: "w_rands (demo_world []) = [''1'']" "w_fs (demo_world []) = demo_fs"
    by (simp_all add: demo_world_def)
  have c: "os_create_temp ''/m'' (''.'' @ ''a'' @ ''.muxprune.tmp.*'' @ ''.mkv'') (demo_world []) =
      (Some demo_tmp, demo_world1)"
    unfolding os_create_temp_def
    by (simp only: demo_fault demo_paths prod.case if_False pick_name.simps w demo_canon demo_tmp_absent simp_thms
        option.case demo_world1_def)
  show ?thesis
    unfolding temp_for_def temp_path_def demo_paths demo_short andthen_def some_or_def ok_or_def os_file_call_def c
    by (simp add: demo_fault)
qed

lemma demo_exec: "out_arg args = demo_tmp \<Longrightarrow> exec_tool (demo_env b) wk nm tool args demo_world1 = (Inr (), demo_world2)"
  by (simp add: exec_tool_def run_tool_def demo_env_def wrap_nice_def demo_run_def demo_canon demo_names_at
      demo_world2_def)

lemma demo_os_stat: "os_stat demo_tmp demo_world2 = (Some (8, demo_write (new_inode (demo_world []))), demo_world2)"
  using follow_regular [OF demo_names_at(4)]
  by (simp add: os_stat_def demo_fault demo_canon demo_inodes_at demo_write_def new_inode_def)

text \<open>The replacement, with no fault left, cannot fail on an unchanged original.\<close>

lemma update_no_fault: "w_faults w = [] \<Longrightarrow> w_faults (snd (os_update p g w)) = []"
  by (auto simp: os_update_def os_stat_def fault_def split: option.splits)

lemma preserve_no_fault: "w_faults w = [] \<Longrightarrow> w_faults (preserve_attrs t nd w) = []"
proof -
  assume "w_faults w = []"
  then have 1: "w_faults (snd (os_chmod t m w)) = []" for m by (simp add: os_chmod_def update_no_fault)
  have 2: "w_faults v = [] \<Longrightarrow> w_faults (snd (os_chown t u g v)) = []" for u g v
    by (simp add: os_chown_def update_no_fault)
  obtain ok v where c: "os_chown t (in_uid nd) (in_gid nd) (snd (os_chmod t (in_mode nd mod 512) w)) = (ok, v)"
    by fastforce
  then have "w_faults v = []" using 2 [OF 1] by (metis snd_conv)
  with c 2 show ?thesis by (cases ok) (simp_all add: preserve_attrs_def)
qed

lemma demo_replace:
  "\<exists>w'. replace_original demo_tmp ''/m/a.mkv'' (5, demo_inode 1 RegularFile ''original'') demo_world2 = (Inr (), w')"
proof -
  let ?info = "(5 :: nat, demo_inode 1 RegularFile ''original'')"
  define w where "w = preserve_attrs demo_tmp (snd ?info) demo_world2"
  have s: "sync_temp demo_tmp demo_world2 = (Inr (), demo_world2)"
    by (simp add: sync_temp_def op_defs os_open_write_def demo_os_stat os_file_call_def demo_fault
        demo_write_def new_inode_def)
  have f: "fault w = (False, w)" unfolding w_def by (intro demo_fault preserve_no_fault)
  have a: "attrs_only demo_world2 w" unfolding w_def by (rule preserve_attrs_only)
  obtain nd where l: "lookup (w_fs w) ''/m/a.mkv'' = Some (5, nd)" "in_size nd = 1000" "in_mtime nd = 7"
    "in_kind nd = RegularFile"
  proof -
    obtain m u g where "fs_inodes (w_fs w) 5 = (fs_inodes (w_fs demo_world2) 5)\<lparr>in_mode := m, in_uid := u, in_gid := g\<rparr>"
      using a unfolding attrs_only_def by blast
    moreover have "fs_names (w_fs w) ''/m/a.mkv'' = Some 5" using a demo_names_at(5) by (simp add: attrs_only_def)
    ultimately show thesis by (intro that [of "fs_inodes (w_fs w) 5"])
      (simp_all add: lookup_def demo_inodes_at demo_inode_def)
  qed
  have n: "fs_names (w_fs w) demo_tmp = Some 8" using a demo_names_at(4) by (simp add: attrs_only_def)
  have u: "unchanged_check ''/m/a.mkv'' ?info w = (Inr (), w)"
    by (simp add: unchanged_check_def os_lstat_def f demo_canon l demo_inode_def)
  obtain g where "rename_fs demo_tmp ''/m/a.mkv'' (w_fs w) = Some g"
    using n l by (simp add: rename_fs_def Let_def)
  then have r: "ok_or (os_rename demo_tmp ''/m/a.mkv'') e w = (Inr (), w\<lparr>w_fs := g\<rparr>)" for e :: engine_err
    by (simp add: ok_or_def os_rename_def f demo_canon)
  have p: "(\<lambda>w. (Inr (), preserve_attrs demo_tmp (snd ?info) w)) demo_world2 = (Inr () :: engine_err + unit, w)"
    by (simp add: w_def)
  have "runs (replace_original demo_tmp ''/m/a.mkv'' ?info) demo_world2" unfolding replace_original_def
    by (rule runs_andthen, rule s, rule runs_andthen, rule p, rule runs_andthen, rule u, rule runs_andthen, rule r)
      (simp add: runs_def)
  then show ?thesis by (auto simp: runs_def)
qed

lemma demo_finish:
  assumes "out_arg args = demo_tmp" "accept (probe (ev_prober (demo_env b)) demo_world2 demo_tmp) = None"
  shows "\<exists>w'. finish_remux (demo_env b) wk nm tool args accept demo_tmp ''/m/a.mkv''
     (5, demo_inode 1 RegularFile ''original'') demo_world1 = (Inr 900, w')"
  using demo_replace assms
  by (auto simp: finish_remux_def deferred_def andthen_def demo_exec some_or_def demo_os_stat no_err_def ret_def
      demo_write_def)

subsection \<open>What the probes return\<close>

definition demo_stream :: "nat \<Rightarrow> stream" where
  "demo_stream n = (parse_stream (demo_streams ! n))\<lparr>st_mkv_id := int n\<rparr>"

definition demo_in :: probe_result where
  "demo_in = \<lparr>pr_path = ''/m/a.mkv'', pr_format = ''matroska,webm'', pr_duration = 100, pr_size = 1000,
     pr_streams = map demo_stream [0, 1, 2, 3]\<rparr>"

lemma demo_probe:
  "probe (demo_prober True) w ''/m/a.mkv'' = Inr demo_in" "probe (demo_prober False) w ''/m/a.mkv'' = Inr demo_in"
  by code_simp+

lemma demo_env_sel: "ev_prober (demo_env b) = demo_prober b" "ev_tools (demo_env b) = demo_tools"
  by (simp_all add: demo_env_def)

lemma demo_accept_removal: "verify demo_in demo_spec (probe (demo_prober True) w demo_tmp) = None"
  by code_simp

lemma demo_accept_reorder: "verify demo_in \<lparr>rm_audio = [], rm_subs = []\<rparr> (probe (demo_prober False) w demo_tmp) = None"
  by code_simp

lemma demo_accept_merge: "verify_merge demo_in (probe (demo_prober False) w demo_tmp) = None"
  by code_simp

lemmas demo_accept = demo_accept_removal demo_accept_reorder demo_accept_merge

lemma demo_free:
  "w_faults w = [] \<Longrightarrow> w_free w = w_free (demo_world []) \<Longrightarrow>
   free_space_check d (5, demo_inode 1 RegularFile ''original'') w = (Inr (), w)"
  by (simp add: free_space_check_def os_statfs_def demo_fault demo_world_def demo_inode_def)

lemma demo_validate:
  "validate demo_in demo_spec (demo_opts False) = None" "validate demo_in demo_spec (demo_opts True) = None"
  "build_args demo_tools demo_in demo_spec =
     Inr (''/usr/bin/mkvmerge'', [''--audio-tracks'', ''1'', ''/m/a.mkv''])"
  "sorted_compact [2 :: int] = [2]" "sorted_compact ([] :: int list) = []"
  by code_simp+

lemma demo_sorted: "sorted_compact [2 :: int] = [2]" "sorted_compact ([] :: int list) = []"
  by code_simp+

lemma demo_out_arg: "out_arg (reorder_output ''/usr/bin/mkvmerge'' ([''--audio-tracks'', ''1'', ''/m/a.mkv''] @ output_args ''/usr/bin/mkvmerge'' demo_tmp) demo_tmp) = demo_tmp"
  by code_simp

text \<open>Up to the remux itself every step succeeds.\<close>

abbreviation demo_args :: "string list" where
  "demo_args \<equiv> reorder_output ''/usr/bin/mkvmerge''
     ([''--audio-tracks'', ''1'', ''/m/a.mkv''] @ output_args ''/usr/bin/mkvmerge'' demo_tmp) demo_tmp"

lemma demo_remove_stage:
  "\<exists>g. remove_tracks (demo_env b) ''/m/a.mkv'' demo_spec (demo_opts False) (demo_world []) =
     andthen (finish_remux (demo_env b) (''/usr/bin/mkvmerge'' = et_mkvmerge demo_tools) (base_name ''/usr/bin/mkvmerge'')
       ''/usr/bin/mkvmerge'' demo_args (verify demo_in demo_spec) demo_tmp ''/m/a.mkv''
       (5, demo_inode 1 RegularFile ''original'')) (\<lambda>sz. ret (g sz)) demo_world1"
proof -
  have w: "w_faults (demo_world []) = []" "w_fs (demo_world []) = demo_fs" by (simp_all add: demo_world_def)
  have ens: "ensure True e v = (Inr (), v)" "no_err None v = (Inr () :: engine_err + unit, v)"
    for e :: engine_err and v :: world
    by (simp_all add: ensure_def no_err_def ret_def)
  have pr: "probe_op (demo_env b) ''/m/a.mkv'' v = (Inr demo_in, v)" for v
    by (cases b) (simp_all add: probe_op_def demo_env_sel demo_probe)
  have ba: "(\<lambda>w. (build_args demo_tools demo_in demo_spec, w)) v =
      (Inr (''/usr/bin/mkvmerge'', [''--audio-tracks'', ''1'', ''/m/a.mkv'']), v)" for v :: world
    by (simp add: demo_validate)
  show ?thesis
    unfolding remove_tracks_def Let_def removal_spec.simps demo_sorted demo_env_sel
    apply (intro exI)
    apply (rule andthen_step, simp add: spec_empty_def)
    apply (rule andthen_step, rule demo_stat [OF w])
    apply (rule andthen_step, rule pr)
    apply (rule andthen_step, simp only: demo_validate, rule ens)
    apply (rule andthen_step, rule demo_free [OF w(1) refl])
    apply (rule andthen_step, rule ba)
    apply (simp only: prod.case demo_opts_def options.select_convs if_False)
    apply (rule andthen_step, rule demo_temp_for, rule refl)
    done
qed

lemma demo_remove: "runs (remove_tracks (demo_env True) ''/m/a.mkv'' demo_spec (demo_opts False)) (demo_world [])"
proof -
  obtain g where g: "remove_tracks (demo_env True) ''/m/a.mkv'' demo_spec (demo_opts False) (demo_world []) =
     andthen (finish_remux (demo_env True) (''/usr/bin/mkvmerge'' = et_mkvmerge demo_tools) (base_name ''/usr/bin/mkvmerge'')
       ''/usr/bin/mkvmerge'' demo_args (verify demo_in demo_spec) demo_tmp ''/m/a.mkv''
       (5, demo_inode 1 RegularFile ''original'')) (\<lambda>sz. ret (g sz)) demo_world1"
    using demo_remove_stage by blast
  obtain w' where "finish_remux (demo_env True) (''/usr/bin/mkvmerge'' = et_mkvmerge demo_tools)
      (base_name ''/usr/bin/mkvmerge'') ''/usr/bin/mkvmerge'' demo_args (verify demo_in demo_spec) demo_tmp
      ''/m/a.mkv'' (5, demo_inode 1 RegularFile ''original'') demo_world1 = (Inr 900, w')"
    using demo_finish [OF demo_out_arg, of "verify demo_in demo_spec" True] demo_accept(1)
    unfolding demo_env_sel by blast
  then have "andthen (finish_remux (demo_env True) (''/usr/bin/mkvmerge'' = et_mkvmerge demo_tools)
      (base_name ''/usr/bin/mkvmerge'') ''/usr/bin/mkvmerge'' demo_args (verify demo_in demo_spec) demo_tmp
      ''/m/a.mkv'' (5, demo_inode 1 RegularFile ''original'')) (\<lambda>sz. ret (g sz)) demo_world1 = (Inr (g 900), w')"
    by (rule andthen_step) (simp add: ret_def)
  with g show ?thesis by (simp only: runs_def) blast
qed

text \<open>An output that kept a stream it should have dropped fails verification.\<close>

lemma demo_reject: "verify demo_in demo_spec (probe (demo_prober False) w demo_tmp) = Some (AudioCount 1 2)"
  by code_simp

lemma demo_remove_fails:
  "\<exists>e w'. remove_tracks (demo_env False) ''/m/a.mkv'' demo_spec (demo_opts False) (demo_world []) = (Inl e, w')"
proof -
  obtain g where g: "remove_tracks (demo_env False) ''/m/a.mkv'' demo_spec (demo_opts False) (demo_world []) =
     andthen (finish_remux (demo_env False) (''/usr/bin/mkvmerge'' = et_mkvmerge demo_tools) (base_name ''/usr/bin/mkvmerge'')
       ''/usr/bin/mkvmerge'' demo_args (verify demo_in demo_spec) demo_tmp ''/m/a.mkv''
       (5, demo_inode 1 RegularFile ''original'')) (\<lambda>sz. ret (g sz)) demo_world1"
    using demo_remove_stage by blast
  show ?thesis
    unfolding g finish_remux_def deferred_def andthen_def demo_exec [OF demo_out_arg]
    by (simp add: no_err_def demo_env_sel demo_reject fail_def)
qed

end
