(* ===== verification/EngineProps.thy ===== *)
theory EngineProps
  imports Demo
begin

text \<open>
  The properties of the engine, each with a witness on the concrete engine of \<open>Demo\<close> where it
  has hypotheses.
\<close>

abbreviation normal_spec :: "removal_spec \<Rightarrow> removal_spec" where
  "normal_spec spec \<equiv> \<lparr>rm_audio = sorted_compact (rm_audio spec), rm_subs = sorted_compact (rm_subs spec)\<rparr>"

subsection \<open>The removal pipeline\<close>

text \<open>
  C1: when RemoveTracks reports success outside a dry run, the path names a file that was written
  under a fresh temporary name and passed verification there (stream counts, duration, size
  floor), with the content it had then; the original had no other hard link or the override was
  given; no other name of the file system changed, and the saving reported is the difference of
  the sizes.
\<close>

theorem remove_tracks_replaces:
  assumes "remove_tracks ev p spec opts w = (Inr r, w')" "\<not> op_dry_run opts"
    and "remux_confined ev" "tool_names ev" "fs_ok (w_fs w)"
  shows "\<exists>w0 inp info sz. same_files w w0 \<and> probe (ev_prober ev) w0 p = Inr inp \<and>
    validate inp (normal_spec spec) opts = None \<and>
    lookup (w_fs w) (canon w p) = Some info \<and> (op_allow_hardlink opts \<or> in_nlink (snd info) \<le> 1) \<and>
    replaced ev (verify inp (normal_spec spec)) p sz w w' \<and> er_saved r = i64 (in_size (snd info) - sz)"
  by (rule remove_tracks_InrE [OF assms(1,3-5)]) (use assms(2) in blast)

theorem remove_tracks_replaces_witness:
  "\<exists>r w'. remove_tracks (demo_env True) ''/m/a.mkv'' demo_spec (demo_opts False) (demo_world []) = (Inr r, w') \<and>
     (\<exists>sz. replaced (demo_env True) (verify demo_in (normal_spec demo_spec)) ''/m/a.mkv'' sz (demo_world []) w')"
proof -
  obtain r w' where r: "remove_tracks (demo_env True) ''/m/a.mkv'' demo_spec (demo_opts False) (demo_world []) = (Inr r, w')"
    using demo_remove by (auto simp: runs_def)
  have "\<not> op_dry_run (demo_opts False)" by (simp add: demo_opts_def)
  from remove_tracks_replaces [OF r this demo_confined demo_names demo_fs_ok]
  show ?thesis using r unfolding demo_env_sel demo_probe by auto
qed

text \<open>
  C2: when RemoveTracks fails, at whatever step, every file of the file system is as it was and at
  most one new name appeared, the temporary one.
\<close>

theorem remove_tracks_error_safe:
  assumes "remove_tracks ev p spec opts w = (Inl e, w')" "remux_confined ev" "tool_names ev" "fs_ok (w_fs w)"
  shows "at_most_a_temp w w'"
  using keeps_errD [OF remove_tracks_err [OF assms(2,3)] assms(1)] assms(4) by (simp add: safe_err_def)

theorem remove_tracks_error_safe_witness:
  "\<exists>e w'. remove_tracks (demo_env False) ''/m/a.mkv'' demo_spec (demo_opts False) (demo_world []) = (Inl e, w') \<and>
     at_most_a_temp (demo_world []) w'"
  using demo_remove_fails remove_tracks_error_safe [OF _ demo_confined demo_names demo_fs_ok] by blast



text \<open>
  C8: replaceOriginal renames the temporary file over the path only if the path still names the
  very file that was examined, with its size and modification time; otherwise, and whenever any
  other step fails, nothing but the temporary file has changed.
\<close>

theorem replace_only_unchanged:
  assumes "own (canon w tmp) (w_fs w)" "canon w tmp \<noteq> canon w p"
  shows "case replace_original tmp p info w of
      (Inl e, w') \<Rightarrow> only (canon w tmp) (w_fs w) (w_fs w')
    | (Inr _, w') \<Rightarrow>
        (\<exists>nd. lookup (w_fs w) (canon w p) = Some (fst info, nd) \<and> in_size nd = in_size (snd info) \<and>
           in_mtime nd = in_mtime (snd info)) \<and>
        fs_names (w_fs w') = (fs_names (w_fs w))(canon w tmp := None, canon w p := fs_names (w_fs w) (canon w tmp))"
proof -
  obtain r w' where r: "replace_original tmp p info w = (r, w')" by fastforce
  show ?thesis
  proof (cases r)
    case (Inl e)
    with r assms(1) replace_Inl [of tmp p info w e w'] show ?thesis by (simp add: writes_only_def)
  next
    case (Inr u)
    obtain w1 nd f where w1: "writes_only tmp w w1" "attrs_only w w1"
      "lookup (w_fs w1) (canon w p) = Some (fst info, nd)"
      "in_size nd = in_size (snd info)" "in_mtime nd = in_mtime (snd info)"
      "rename_fs (canon w tmp) (canon w p) (w_fs w1) = Some f" "w_fs w' = f"
      by (rule replace_InrE [OF r [unfolded Inr]])
    have own1: "own (canon w tmp) (w_fs w1)" and on: "only (canon w tmp) (w_fs w) (w_fs w1)"
      using w1(1) assms(1) by (auto simp: writes_only_def)
    have P: "lookup (w_fs w) (canon w p) = Some (fst info, nd)" using on assms(2) w1(3) by (simp add: only_def)
    obtain i where "fs_names (w_fs w1) (canon w tmp) = Some i"
      "fs_names f = (fs_names (w_fs w1))(canon w tmp := None, canon w p := Some i)"
      by (rule rename_own [OF own1 assms(2) w1(6)])
    with P w1 r Inr show ?thesis by (simp add: attrs_only_def)
  qed
qed

theorem replace_only_unchanged_witness:
  "own demo_tmp (w_fs demo_world2) \<and>
   (\<exists>w'. replace_original demo_tmp ''/m/a.mkv'' (5, demo_inode 1 RegularFile ''original'') demo_world2 = (Inr (), w') \<and>
      fs_names (w_fs w') ''/m/a.mkv'' = Some 8)"
proof -
  have o: "own demo_tmp (w_fs demo_world2)"
    by (auto simp: own_def demo_names_at demo_inodes_at demo_write_def new_inode_def)
      (auto simp: demo_world2_def demo_world1_def set_inode_def add_file_def demo_fs_def split: if_splits)
  have n: "demo_tmp \<noteq> ''/m/a.mkv''" by code_simp
  obtain w' where r: "replace_original demo_tmp ''/m/a.mkv'' (5, demo_inode 1 RegularFile ''original'') demo_world2 = (Inr (), w')"
    using demo_replace by blast
  from replace_only_unchanged [of demo_world2 demo_tmp "''/m/a.mkv''" "(5, demo_inode 1 RegularFile ''original'')"]
    o n r show ?thesis by (simp add: demo_canon demo_names_at)
qed

text \<open>
  C12: a file with several hard links is never touched unless the override is given: each of the
  four operations returns an error and leaves the file system as it was, whatever the remux tools
  would have done.
\<close>

theorem hardlinks_refused:
  assumes "lookup (w_fs w) (canon w p) = Some (i, nd)" "1 < in_nlink nd" "\<not> op_allow_hardlink opts"
  shows "stops same_files (remove_tracks ev p spec opts) w \<and>
    stops same_files (reorder_tracks ev p order False) w \<and>
    stops same_files (merge_tracks ev p files False) w \<and>
    stops same_files (edit_metadata ev p edits False) w"
proof -
  have ref: "same_files w v \<Longrightarrow> stops same_files (andthen (stat_replaceable p False) f) v" for f v
    by (rule sf.stops_first) (rule refused [OF assms(1,2)])
  note steps = sf.stops_later sf.keeps_ensure keeps_probe_op
  have no: "op_allow_hardlink opts = False" using assms(3) by simp
  have "stops same_files (remove_tracks ev p spec opts) w"
    unfolding remove_tracks_def Let_def no by (rule steps(1), rule steps(2), rule ref)
  moreover have "stops same_files (reorder_tracks ev p order False) w"
    unfolding reorder_tracks_def by (rule steps, rule steps, rule steps, rule steps, rule ref) (rule same_files_trans)
  moreover have "stops same_files (merge_tracks ev p files False) w"
    unfolding merge_tracks_def by (rule steps, rule steps, rule steps, rule steps, rule ref) (rule same_files_trans)
  moreover have "stops same_files (edit_metadata ev p edits False) w"
    unfolding edit_metadata_def Let_def
    by (rule steps(1), rule steps)+ (rule ref, blast intro: same_files_trans)
  ultimately show ?thesis by blast
qed

theorem hardlinks_refused_witness:
  "stops same_files (remove_tracks (demo_env True) ''/m/b.mkv'' demo_spec (demo_opts False)) (demo_world [])"
proof -
  have "lookup (w_fs (demo_world [])) (canon (demo_world []) ''/m/b.mkv'') = Some (6, demo_inode 2 RegularFile ''linked'')"
    by (simp only: demo_canon lookup_def demo_names_at demo_inodes_at option.map)
  then show ?thesis
    by (rule hardlinks_refused [THEN conjunct1]) (simp_all add: demo_inode_def demo_opts_def)
qed

subsection \<open>Reordering and merging\<close>


lemma demo_reorder_ok: "reorder_check (pr_streams demo_in) [0, 2, 1, 3] = None" "is_matroska demo_in"
    "et_mkvmerge demo_tools = ''/usr/bin/mkvmerge''"
  by code_simp+



text \<open>
  A reorder or a merge that fails, at whatever step, leaves every file as it was and at most
  one new name, a temporary one.
\<close>

theorem reorder_merge_error_safe:
  assumes "reorder_tracks ev p order allow w = (Inl e, w') \<or> merge_tracks ev p files allow w = (Inl e, w')"
    and "remux_confined ev" "fs_ok (w_fs w)"
  shows "at_most_a_temp w w'"
  using assms keeps_errD [OF reorder_tracks_err [OF assms(2)]] keeps_errD [OF merge_tracks_err [OF assms(2)]]
  by (auto simp: safe_err_def)

theorem reorder_merge_error_safe_witness: "at_most_a_temp (demo_world [True]) (demo_world [])"
proof -
  have "reorder_tracks (demo_env True) ''/m/a.mkv'' [1] False (demo_world [True]) = (Inl (OSError ''lstat''), demo_world [])"
    by (simp add: reorder_tracks_def demo_env_sel demo_reorder_ok stat_replaceable_def op_defs os_lstat_def fault_def)
      (simp add: demo_world_def)
  then show ?thesis by (intro reorder_merge_error_safe [OF _ demo_confined demo_fs_ok]) (rule disjI1)
qed

subsection \<open>Decisions\<close>

text \<open>
  After probing, either no stream has a track ID, or the container is Matroska, mkvmerge
  identified it and every video, audio and subtitle stream carries, in order, the ID of a track of
  its kind with a compatible language and codec, every such track being used, and no other stream
  has an ID.
\<close>

theorem probe_ids_all_or_none:
  assumes "probe p w pth = Inr r"
  shows "ids_forgotten r \<or>
    (is_matroska r \<and> (\<exists>ident. p_mkvmerge p w (safe_path_arg pth) = Inr (Some ident) \<and> ids_aligned ident r))"
  by (rule probe_ids) (rule assms)

theorem probe_ids_all_or_none_witness: "ids_aligned demo_ident demo_in"
proof -
  have "\<not> ids_forgotten demo_in" by code_simp
  with probe_ids_all_or_none [OF demo_probe(2)] show ?thesis by (auto simp: demo_prober_def)
qed

text \<open>
  The floor an output must reach is at least a tenth of the input and at most the input, for
  any estimate between nothing and the whole file (sizes below 2^53, where a float is exact).
\<close>

theorem size_floor_range:
  assumes "0 \<le> est" "est \<le> sz" "sz < 2 ^ 53"
  shows "sz div 10 \<le> size_floor sz est \<and> size_floor sz est \<le> sz"
  using size_floor_bounds [OF assms] by simp

theorem size_floor_range_witness: "size_floor 1000 400 = 420 \<and> (1000 :: int) div 10 \<le> 420"
proof -
  have "size_floor 1000 400 = 420" by code_simp
  with size_floor_range [of 400 1000] show ?thesis by simp
qed

text \<open>
  An output is accepted only if its duration is within the tolerance of the input's, which is
  one percent of it, at least 2 and at most 60 seconds, when both durations are known; and only if
  it is not smaller than the size floor.
\<close>

theorem verify_bounds:
  assumes "verify inp spec (Inr out) = None"
  shows "(0 < pr_duration inp \<and> 0 < pr_duration out \<longrightarrow>
      \<bar>fl64 (pr_duration inp - pr_duration out)\<bar> \<le> tolerance (pr_duration inp)) \<and>
    2 \<le> tolerance (pr_duration inp) \<and> tolerance (pr_duration inp) \<le> 60 \<and>
    (0 \<le> pr_size inp \<longrightarrow> pr_size inp div 10 \<le> pr_size out)"
proof -
  obtain out' where "Inr out = (Inr out' :: probe_err + probe_result)"
    "duration_check (pr_duration inp) (pr_duration out') = None"
    "size_floor (pr_size inp)
       (if removed_bitrates_known inp spec then estimate_removed inp spec else pr_size inp) \<le> pr_size out'"
    by (rule verify_NoneD [OF assms])
  with size_floor_min duration_check_None show ?thesis
    by (auto simp: tolerance_bounds intro: order_trans)
qed

theorem verify_bounds_witness:
  "\<exists>out. probe (demo_prober True) (demo_world []) demo_tmp = Inr out \<and> pr_size demo_in div 10 \<le> pr_size out"
proof -
  obtain out where o: "probe (demo_prober True) (demo_world []) demo_tmp = Inr out"
    using demo_accept(1) [of "demo_world []"] by (auto elim: verify_NoneD)
  have "0 \<le> pr_size demo_in" by (simp add: demo_in_def)
  with o verify_bounds [OF demo_accept(1) [of "demo_world []", unfolded o]] show ?thesis by blast
qed

subsection \<open>Metadata edits\<close>

text \<open>The arguments an edit may add.\<close>

definition safe_edit_arg :: "string \<Rightarrow> bool" where
  "safe_edit_arg a \<longleftrightarrow>
     a \<in> {''--edit'', ''--set'', ''--delete'', ''name'', ''flag-default=0'', ''flag-default=1'',
          ''flag-forced=0'', ''flag-forced=1''} \<or>
     (\<exists>n. 0 < n \<and> a = ''track:'' @ itoa n) \<or>
     (\<exists>tag. a = ''language='' @ tag \<and> tag \<noteq> '''' \<and> (\<forall>c \<in> set tag. is_alnum c \<or> c = CHR ''-'')) \<or>
     (\<exists>title. a = ''name='' @ title \<and> (\<forall>c \<in> set title. \<not> is_control c))"

lemma safe_word:
  "safe_edit_arg ''--edit''" "safe_edit_arg ''--set''" "safe_edit_arg ''--delete''" "safe_edit_arg ''name''"
  "safe_edit_arg (''flag-default='' @ bool_flag b)" "safe_edit_arg (''flag-forced='' @ bool_flag b)"
  by (simp_all add: safe_edit_arg_def bool_flag_def)

lemma safe_title: "safe_edit_arg (''name='' @ strip_control t)"
  unfolding safe_edit_arg_def using strip_control_no_control by blast

lemma safe_language: "valid_language_tag t \<Longrightarrow> safe_edit_arg (''language='' @ t)"
  unfolding safe_edit_arg_def using valid_language_tag_chars [of t] by blast

lemma safe_track: "0 \<le> i \<Longrightarrow> safe_edit_arg (''track:'' @ itoa (i + 1))"
  unfolding safe_edit_arg_def by (intro disjI2 disjI1 exI [of _ "i + 1"]) simp

lemma edit_acts_safe:
  assumes "edit_acts st edit = Inr acts"
  shows "\<forall>a \<in> set acts. safe_edit_arg a"
proof -
  have v: "me_lang edit \<noteq> '''' \<longrightarrow> valid_language_tag (me_lang edit)"
    by (rule ccontr) (use assms in \<open>simp add: edit_acts_def\<close>)
  have acts: "acts =
        (if me_lang edit \<noteq> '''' \<and> me_lang edit \<noteq> st_lang st
         then [''--set'', ''language='' @ me_lang edit] else []) @
        (case me_title edit of
           None \<Rightarrow> []
         | Some t \<Rightarrow>
             let title = strip_control t
             in if title \<noteq> '''' then [''--set'', ''name='' @ title] else [''--delete'', ''name'']) @
        (case me_default edit of None \<Rightarrow> [] | Some b \<Rightarrow> [''--set'', ''flag-default='' @ bool_flag b]) @
        (case me_forced edit of None \<Rightarrow> [] | Some b \<Rightarrow> [''--set'', ''flag-forced='' @ bool_flag b])"
    using assms unfolding edit_acts_def by (simp split: if_splits)
  have sets: "(\<forall>a \<in> set (xs @ ys). safe_edit_arg a) \<longleftrightarrow> (\<forall>a \<in> set xs. safe_edit_arg a) \<and> (\<forall>a \<in> set ys. safe_edit_arg a)"
    for xs ys by auto
  have l: "\<forall>a \<in> set (if me_lang edit \<noteq> '''' \<and> me_lang edit \<noteq> st_lang st
         then [''--set'', ''language='' @ me_lang edit] else []). safe_edit_arg a"
    using v safe_language safe_word(2) by (auto simp del: append.simps)
  have t: "\<forall>a \<in> set (case me_title edit of None \<Rightarrow> []
       | Some t \<Rightarrow> let title = strip_control t
             in if title \<noteq> '''' then [''--set'', ''name='' @ title] else [''--delete'', ''name'']). safe_edit_arg a"
    using safe_title safe_word(2-4) by (auto simp: Let_def simp del: append.simps split: option.split)
  have f: "\<forall>a \<in> set (case m of None \<Rightarrow> [] | Some b \<Rightarrow> [''--set'', ''flag-default='' @ bool_flag b]). safe_edit_arg a"
    "\<forall>a \<in> set (case m of None \<Rightarrow> [] | Some b \<Rightarrow> [''--set'', ''flag-forced='' @ bool_flag b]). safe_edit_arg a" for m
    using safe_word(2,5,6) by (auto simp del: append.simps split: option.split)
  show ?thesis unfolding acts sets by (intro conjI l t f)
qed

text \<open>
  C19: whatever text a user gives, the arguments mkvpropedit gets beyond the file are fixed option
  words, a positive track number, a language tag of letters, digits and hyphens, or a title free
  of control characters.
\<close>

theorem edit_args_safe:
  assumes "edit_args ss edits [safe_path_arg p] = Inr args"
  shows "\<exists>more. args = safe_path_arg p # more \<and> (\<forall>a \<in> set more. safe_edit_arg a)"
proof -
  have "edit_args ss edits base = Inr args \<Longrightarrow> \<exists>more. args = base @ more \<and> (\<forall>a \<in> set more. safe_edit_arg a)" for base
  proof (induction ss edits base rule: edit_args.induct)
    case (2 ss edit edits base)
    from "2.prems" obtain st acts where s: "by_idx ss (me_track edit) = Some st" "\<not> st_mkv_id st < 0"
      "edit_acts st edit = Inr acts"
      by (auto split: option.splits if_splits sum.splits)
    have t: "safe_edit_arg (''track:'' @ itoa (st_mkv_id st + 1))" using s(2) by (intro safe_track) simp
    define new where "new = (if 0 < length acts then [''--edit'', ''track:'' @ itoa (st_mkv_id st + 1)] @ acts else [])"
    have n: "\<forall>a \<in> set new. safe_edit_arg a"
      using edit_acts_safe [OF s(3)] t safe_word(1) by (auto simp: new_def)
    have b: "(if 0 < length acts then base @ [''--edit'', ''track:'' @ itoa (st_mkv_id st + 1)] @ acts else base) = base @ new"
      by (simp add: new_def)
    have "edit_args ss edits (base @ new) = Inr args"
      using "2.prems" by (simp only: edit_args.simps s option.case sum.case if_False b)
    with "2.IH" [OF s, unfolded b] obtain more where "args = base @ new @ more" "\<forall>a \<in> set more. safe_edit_arg a"
      by auto
    with n show ?case by (intro exI [of _ "new @ more"]) auto
  qed simp
  with assms show ?thesis by fastforce
qed

theorem edit_args_safe_witness:
  "\<exists>more. edit_args (pr_streams demo_in) [\<lparr>me_track = 1, me_lang = ''ger'', me_title = Some [CHR 0x07, CHR ''x''],
       me_default = Some True, me_forced = None\<rparr>] [safe_path_arg ''a.mkv''] = Inr (safe_path_arg ''a.mkv'' # more) \<and>
     (\<forall>a \<in> set more. safe_edit_arg a)"
proof -
  have "edit_args (pr_streams demo_in) [\<lparr>me_track = 1, me_lang = ''ger'', me_title = Some [CHR 0x07, CHR ''x''],
       me_default = Some True, me_forced = None\<rparr>] [safe_path_arg ''a.mkv''] =
    Inr [''./a.mkv'', ''--edit'', ''track:2'', ''--set'', ''language=ger'', ''--set'', ''name=x'', ''--set'', ''flag-default=1'']"
    by code_simp
  from edit_args_safe [OF this] this show ?thesis by auto
qed

end
