(* ===== verification/TrackIds.thy ===== *)
theory TrackIds
  imports Demo
begin

text \<open>
  The command lines of the engine on what a prober reports: whichever tool is chosen, the streams it is
  told to leave out are the ones the request names, and the IDs given to mkvmerge are those of the tracks
  it sees itself.
\<close>

lemma tracks_ids_distinct:
  assumes "distinct (map it_id ident)"
  shows "distinct (map mt_id (tracks_of ident t))"
proof -
  have "map mt_id (tracks_of ident t) = map it_id (filter (\<lambda>x. type_map (it_type x) = Some t) ident)"
    by (simp add: tracks_of_def)
  with assms show ?thesis by (simp add: distinct_map_filter)
qed

lemma keep_by_id:
  assumes al: "list_all2 matches_track ss ts" and d: "distinct (map mt_id ts)" and i: "i < length ss"
  shows "itoa (mt_id (ts ! i)) \<in> set (map (\<lambda>s. itoa (st_mkv_id s)) (filter P ss)) \<longleftrightarrow> P (ss ! i)"
proof -
  have len: "length ts = length ss" using al by (simp add: list_all2_lengthD)
  have id: "st_mkv_id (ss ! j) = mt_id (ts ! j)" if "j < length ss" for j
    using list_all2_nthD [OF al that] by (simp add: matches_track_def)
  show ?thesis
  proof
    assume "P (ss ! i)"
    then have "ss ! i \<in> set (filter P ss)" using i by simp
    then show "itoa (mt_id (ts ! i)) \<in> set (map (\<lambda>s. itoa (st_mkv_id s)) (filter P ss))"
      unfolding id [OF i, symmetric] set_map by (rule imageI)
  next
    assume "itoa (mt_id (ts ! i)) \<in> set (map (\<lambda>s. itoa (st_mkv_id s)) (filter P ss))"
    then obtain s where s: "s \<in> set ss" "P s" "st_mkv_id s = mt_id (ts ! i)" by auto
    then obtain j where j: "j < length ss" "ss ! j = s" by (auto simp: in_set_conv_nth)
    have "mt_id (ts ! j) = mt_id (ts ! i)" using id [OF j(1)] j(2) s(3) by simp
    then have "map mt_id ts ! j = map mt_id ts ! i" using i j(1) len by simp
    then have "j = i" using nth_eq_iff_index_eq [OF d] i j(1) len by simp
    with j(2) s(2) show "P (ss ! i)" by simp
  qed
qed

context stream_prober
begin

lemma keep_names_tracks:
  assumes r: "prb w p = Inr r" and ids: "\<And>ident. tracks w p = Some ident \<Longrightarrow> distinct (map it_id ident)"
    and known: "\<forall>s \<in> set (streams_of_type r t). 0 \<le> st_mkv_id s" and t: "t \<in> set aligned_types"
    and i: "i < length (streams_of_type r t)"
  shows "\<exists>ident. tracks w p = Some ident \<and> length (tracks_of ident t) = length (streams_of_type r t) \<and>
    matches_track (streams_of_type r t ! i) (tracks_of ident t ! i) \<and>
    (itoa (mt_id (tracks_of ident t ! i)) \<in> set (keep r t removed) \<longleftrightarrow> st_index (streams_of_type r t ! i) \<notin> set removed)"
proof -
  have s: "streams_of_type r t ! i \<in> set (streams_of_type r t)" using i by simp
  then have "streams_of_type r t ! i \<in> set (pr_streams r)" by (simp add: streams_of_type_def of_type_def)
  with known s obtain ident where id: "tracks w p = Some ident" "ids_aligned ident r"
    using ids_from_tracks [OF r] by blast
  then have al: "list_all2 matches_track (streams_of_type r t) (tracks_of ident t)" using t by (simp add: ids_aligned_def)
  from keep_by_id [OF al tracks_ids_distinct [OF ids [OF id(1)]] i, of "\<lambda>s. st_index s \<notin> set removed"]
    list_all2_nthD [OF al i] list_all2_lengthD [OF al] id(1)
  show ?thesis by (auto simp: keep_def)
qed

end

subsection \<open>Reading a command line\<close>

text \<open>
  One type of stream: what the request takes away of it, ffmpeg's letter for it, and the two options of
  mkvmerge that select its tracks.
\<close>

fun removed_of :: "removal_spec \<Rightarrow> string \<Rightarrow> int list" where
  "removed_of spec t = (if t = ''audio'' then rm_audio spec else if t = ''subtitle'' then rm_subs spec else [])"

definition kind_letter :: "string \<Rightarrow> char" where
  "kind_letter t = (if t = ''audio'' then CHR ''a'' else CHR ''s'')"

definition drop_all_option :: "string \<Rightarrow> string" where
  "drop_all_option t = (if t = ''audio'' then ''--no-audio'' else ''--no-subtitles'')"

definition keep_some_option :: "string \<Rightarrow> string" where
  "keep_some_option t = (if t = ''audio'' then ''--audio-tracks'' else ''--subtitle-tracks'')"

text \<open>
  The documented reading of the two command lines: without an option every track of the type is copied, one
  option drops them all, the other is followed by the IDs of the tracks to copy; a negative map of ffmpeg takes a
  stream away by its position among those of its type.
\<close>

fun value_after :: "string \<Rightarrow> string list \<Rightarrow> string option" where
  "value_after k (x # y # args) = (if x = k then Some y else value_after k (y # args))"
| "value_after k args = None"

definition mkvmerge_copies :: "string \<Rightarrow> string list \<Rightarrow> int \<Rightarrow> bool" where
  "mkvmerge_copies t args i \<longleftrightarrow> drop_all_option t \<notin> set args \<and>
     (case value_after (keep_some_option t) args of None \<Rightarrow> True | Some v \<Rightarrow> itoa i \<in> set (split_on (CHR '','') v))"

definition ffmpeg_copies :: "string \<Rightarrow> string list \<Rightarrow> nat \<Rightarrow> bool" where
  "ffmpeg_copies t args i \<longleftrightarrow> neg_map (kind_letter t) (int i) \<notin> set args"

lemma itoa_chars: "c \<in> set (itoa i) \<Longrightarrow> (of_char c :: nat) \<in> {45} \<union> {48..57}"
  by (auto simp: itoa_def digit_char_def dest!: nat_digits_set split: if_splits)

lemma itoa_list:
  assumes "c \<in> set (join '','' (map itoa is))"
  shows "(of_char c :: nat) \<in> {44, 45} \<union> {48..57}"
proof -
  have "set (join s ws) \<subseteq> set s \<union> \<Union> (set ` set ws)" for s :: string and ws
    by (induction s ws rule: join.induct) auto
  with assms obtain i where "c = CHR '','' \<or> c \<in> set (itoa i)" by fastforce
  then show ?thesis using itoa_chars by force
qed

lemma split_ids: "is \<noteq> [] \<Longrightarrow> split_on (CHR '','') (join '','' (map itoa is)) = map itoa is"
proof -
  assume "is \<noteq> []"
  moreover have "CHR '','' \<notin> set (itoa i)" for i using itoa_chars [of "CHR '',''" i] by auto
  ultimately show ?thesis by (intro split_on_join) auto
qed

text \<open>A list of IDs and a path are no option.\<close>

lemma ids_no_option:
  "CHR ''o'' \<in> set k \<or> CHR ''a'' \<in> set k \<Longrightarrow> join '','' (map itoa is) \<noteq> k"
  using itoa_list [of "CHR ''o''" "is"] itoa_list [of "CHR ''a''" "is"] by auto

lemma path_no_option: "safe_path_arg p \<noteq> CHR ''-'' # k"
  by (auto simp: safe_path_arg_def prefix_def)

lemma keep_ids: "keep r t removed = map itoa (map st_mkv_id (kept r t removed))"
  by (simp add: keep_kept)

lemma value_after_own:
  "n \<noteq> k \<Longrightarrow> value_after k (keep_option n k ids @ args) = (if ids = [] then value_after k args else Some (join '','' ids))"
  by (cases args) (auto simp: keep_option_def)

lemma value_after_other:
  "k \<notin> {n, m} \<Longrightarrow> join '','' ids \<noteq> k \<Longrightarrow> value_after k (keep_option n m ids @ args) = value_after k args"
  by (cases args) (auto simp: keep_option_def)

lemma in_keep_option:
  "join '','' ids \<noteq> k \<Longrightarrow> k \<in> set (keep_option n m ids) \<longleftrightarrow> (if ids = [] then k = n else k = m)"
  by (auto simp: keep_option_def)

lemma value_after_path: "value_after k [safe_path_arg p] = None"
  by simp

lemma mkvmerge_copies_keep:
  assumes "t \<in> {''audio'', ''subtitle''}"
  shows "mkvmerge_copies t (mkvmerge_args r spec) i \<longleftrightarrow>
    removed_of spec t = [] \<or> itoa i \<in> set (keep r t (removed_of spec t))"
proof -
  have o: "join '','' (map itoa is) \<noteq> ''--no-audio''" "join '','' (map itoa is) \<noteq> ''--no-subtitles''"
    "join '','' (map itoa is) \<noteq> ''--audio-tracks''" "join '','' (map itoa is) \<noteq> ''--subtitle-tracks''" for "is"
    by (rule ids_no_option, simp)+
  have p: "''--no-audio'' \<noteq> safe_path_arg p" "''--no-subtitles'' \<noteq> safe_path_arg p" for p
    by (rule path_no_option [symmetric])+
  show ?thesis
  proof (cases "t = ''audio''")
    case True
    show ?thesis
      by (cases "rm_audio spec = []"; cases "rm_subs spec = []")
        (simp_all add: True mkvmerge_copies_def mkvmerge_args_def drop_all_option_def keep_some_option_def keep_ids
          in_keep_option value_after_own value_after_other o p split_ids del: map_map value_after.simps(1))
  next
    case False
    then have "t = ''subtitle''" using assms by simp
    then show ?thesis
      by (cases "rm_audio spec = []"; cases "rm_subs spec = []")
        (simp_all add: mkvmerge_copies_def mkvmerge_args_def drop_all_option_def keep_some_option_def keep_ids
          in_keep_option value_after_own value_after_other o p split_ids del: map_map value_after.simps(1))
  qed
qed

subsection \<open>Removal\<close>

text \<open>
  C10: whatever tool the engine picks for a validated request on a probed file, its command line leaves out
  exactly the audio and subtitle streams the request names. ffmpeg drops the i-th stream of a type exactly when it is
  named; mkvmerge is chosen only when it identified the tracks of the file, and copies the i-th track of the type,
  which is compatible with the i-th stream in language and codec, exactly when that stream is not named.
\<close>

theorem named_streams_removed:
  assumes "probe P w p = Inr r" "validate r spec opts = None" "distinct_indexes (pr_streams r)"
    and "build_args e r spec = Inr (tool, args)"
    and "\<And>ident. identified P w p = Some ident \<Longrightarrow> distinct (map it_id ident)"
    and "t \<in> {''audio'', ''subtitle''}" "i < length (streams_of_type r t)"
  shows "tool = et_ffmpeg e \<and>
      (ffmpeg_copies t args i \<longleftrightarrow> st_index (streams_of_type r t ! i) \<notin> set (removed_of spec t)) \<or>
    tool = et_mkvmerge e \<and>
      (\<exists>ident. identified P w p = Some ident \<and> length (tracks_of ident t) = length (streams_of_type r t) \<and>
         matches_track (streams_of_type r t ! i) (tracks_of ident t ! i) \<and>
         (mkvmerge_copies t args (mt_id (tracks_of ident t ! i)) \<longleftrightarrow>
          st_index (streams_of_type r t ! i) \<notin> set (removed_of spec t)))"
proof (cases "is_matroska r \<and> et_mkvmerge e \<noteq> '''' \<and> mkv_ids_known r spec")
  case True
  then have a: "tool = et_mkvmerge e" "args = mkvmerge_args r spec" using assms(4) by (simp_all add: build_args_def)
  have t: "t \<in> set aligned_types" using assms(6) by (auto simp: aligned_types_def)
  have "\<forall>s \<in> set (streams_of_type r t). 0 \<le> st_mkv_id s"
    using True assms(6) by (auto simp: mkv_ids_known_def streams_of_type_def of_type_def)
  from prober.keep_names_tracks [OF assms(1,5) this t assms(7), of "removed_of spec t"] show ?thesis
    by (auto simp: a mkvmerge_copies_keep [OF assms(6)])
next
  case False
  then have a: "tool = et_ffmpeg e" "args = ffmpeg_args r spec" using assms(4) by (auto simp: build_args_def split: if_splits)
  have m: "\<forall>j \<in> set (removed_of spec t). has_type (pr_streams r) t j"
    using assms(6) validate_NoneD(1,2) [OF assms(2)] by auto
  have "neg_map (kind_letter t) (int i) \<in> set (negs r spec) \<longleftrightarrow>
      neg_map (kind_letter t) (int i) \<in> (\<lambda>j. neg_map (kind_letter t) (pos_in (streams_of_type r t) j 0)) ` set (removed_of spec t)"
    using assms(6) by (auto simp: negs_def kind_letter_def neg_map_eq)
  with negs_select [OF assms(3) m assms(7)] a assms(7) show ?thesis
    by (simp add: ffmpeg_copies_def neg_map_in_ffmpeg_args kept_def)
qed

theorem named_streams_removed_witness:
  "\<not> mkvmerge_copies ''audio'' [''--audio-tracks'', ''1'', ''/m/a.mkv''] (mt_id (tracks_of demo_ident ''audio'' ! 1))"
proof -
  have a: "streams_of_type demo_in ''audio'' = [demo_stream 1, demo_stream 2]" by code_simp
  have d: "distinct_indexes (pr_streams demo_in)" by (simp add: distinct_indexes_def) code_simp
  have "\<not> demo_temp (safe_path_arg ''/m/a.mkv'')" by code_simp
  then have i: "identified (demo_prober True) w ''/m/a.mkv'' = Some demo_ident" for w
    by (simp add: identified_def demo_prober_def)
  have u: "distinct (map it_id demo_ident)" by code_simp
  have x: "st_index (demo_stream 2) = 2" by code_simp
  have n: "''/usr/bin/mkvmerge'' \<noteq> et_ffmpeg demo_tools" by code_simp
  have s: "''audio'' \<in> {''audio'', ''subtitle''}" "1 < length (streams_of_type demo_in ''audio'')" by (simp_all add: a)
  have u': "distinct (map it_id ident)" if "identified (demo_prober True) (demo_world []) ''/m/a.mkv'' = Some ident" for ident
    using that u by (simp add: i)
  show ?thesis
    using named_streams_removed [OF demo_probe(1) demo_validate(1) d demo_validate(3) u' s] n x
    by (simp only: i a removed_of.simps) simp
qed

end
