(* ===== verification/Table.thy ===== *)
theory Table
  imports Prelude
begin

text \<open>
  Rows of a SQL table with an \<^verbatim>\<open>INTEGER PRIMARY KEY\<close>, kept in key order. A new row without a key
  gets one more than the largest key in use, so the key of a deleted last row is used again. The
  statements of package \<^verbatim>\<open>internal/store\<close> are built from these.
\<close>

definition next_id :: "('r \<Rightarrow> int) \<Rightarrow> 'r list \<Rightarrow> int" where
  "next_id ident rows = 1 + foldl max 0 (map ident rows)"

definition insert_row :: "('r \<Rightarrow> int) \<Rightarrow> (int \<Rightarrow> 'r \<Rightarrow> 'r) \<Rightarrow> 'r \<Rightarrow> 'r list \<Rightarrow> int \<times> 'r list" where
  "insert_row ident set_ident r rows = (next_id ident rows, rows @ [set_ident (next_id ident rows) r])"

definition find_row :: "('r \<Rightarrow> int) \<Rightarrow> int \<Rightarrow> 'r list \<Rightarrow> 'r option" where
  "find_row ident i rows = List.find (\<lambda>r. ident r = i) rows"

definition update_where :: "('r \<Rightarrow> bool) \<Rightarrow> ('r \<Rightarrow> 'r) \<Rightarrow> 'r list \<Rightarrow> 'r list" where
  "update_where P g rows = map (\<lambda>r. if P r then g r else r) rows"

definition delete_where :: "('r \<Rightarrow> bool) \<Rightarrow> 'r list \<Rightarrow> 'r list" where
  "delete_where P rows = filter (\<lambda>r. \<not> P r) rows"

definition count_where :: "('r \<Rightarrow> bool) \<Rightarrow> 'r list \<Rightarrow> nat" where
  "count_where P rows = length (filter P rows)"

lemma set_delete_where [simp]: "set (delete_where P rows) = {r \<in> set rows. \<not> P r}"
  by (auto simp: delete_where_def)

lemma set_update_where [simp]: "set (update_where P g rows) = (\<lambda>r. if P r then g r else r) ` set rows"
  by (simp add: update_where_def)

lemma update_where_Nil [simp]: "update_where P g [] = []"
  by (simp add: update_where_def)

lemma find_row_SomeD: "find_row ident i rows = Some r \<Longrightarrow> r \<in> set rows \<and> ident r = i"
  by (auto simp: find_row_def find_Some_iff)

lemma find_row_None_iff: "find_row ident i rows = None \<longleftrightarrow> i \<notin> ident ` set rows"
  by (auto simp: find_row_def find_None_iff)

lemma foldl_max_ge: "(a :: int) \<le> foldl max a xs \<and> (\<forall>x \<in> set xs. x \<le> foldl max a xs)"
proof (induction xs arbitrary: a)
  case (Cons x xs)
  from Cons [of "max a x"] show ?case by auto
qed simp

lemma next_id_pos: "0 < next_id ident rows"
  using foldl_max_ge [of 0 "map ident rows"] by (simp add: next_id_def)

lemma next_id_gt: "r \<in> set rows \<Longrightarrow> ident r < next_id ident rows"
proof -
  assume "r \<in> set rows"
  then have "ident r \<in> set (map ident rows)" by simp
  with foldl_max_ge [of 0 "map ident rows"] have "ident r \<le> foldl max 0 (map ident rows)" by blast
  then show ?thesis by (simp add: next_id_def)
qed

text \<open>Keys are positive and ascend strictly.\<close>

definition keys_ok :: "('r \<Rightarrow> int) \<Rightarrow> 'r list \<Rightarrow> bool" where
  "keys_ok ident rows \<longleftrightarrow> sorted_wrt (<) (map ident rows) \<and> (\<forall>r \<in> set rows. 0 < ident r)"

lemma keys_ok_Nil [simp]: "keys_ok ident []"
  by (simp add: keys_ok_def)

lemma keys_ok_distinct: "keys_ok ident rows \<Longrightarrow> distinct (map ident rows)"
  by (auto simp: keys_ok_def strict_sorted_iff)

lemma keys_ok_inj: "keys_ok ident rows \<Longrightarrow> r \<in> set rows \<Longrightarrow> r' \<in> set rows \<Longrightarrow> ident r = ident r' \<Longrightarrow> r = r'"
  using keys_ok_distinct [of ident rows] by (auto simp: distinct_map dest: inj_onD)

lemma keys_ok_delete: "keys_ok ident rows \<Longrightarrow> keys_ok ident (delete_where P rows)"
  by (auto simp: keys_ok_def delete_where_def sorted_wrt_map intro: sorted_wrt_filter)

lemma keys_ok_update:
  assumes "keys_ok ident rows" "\<And>r. P r \<Longrightarrow> ident (g r) = ident r"
  shows "keys_ok ident (update_where P g rows)"
proof -
  have "map ident (update_where P g rows) = map ident rows"
    using assms(2) by (auto simp: update_where_def)
  with assms show ?thesis by (auto simp: keys_ok_def)
qed

lemma keys_ok_snoc: "keys_ok ident rows \<Longrightarrow> ident r = next_id ident rows \<Longrightarrow> keys_ok ident (rows @ [r])"
  using next_id_pos [of ident rows] next_id_gt [of _ rows ident]
  by (auto simp: keys_ok_def sorted_wrt_append)

lemma find_row_eq:
  assumes "keys_ok ident rows"
  shows "find_row ident i rows = Some r \<longleftrightarrow> r \<in> set rows \<and> ident r = i"
proof
  assume r: "r \<in> set rows \<and> ident r = i"
  then obtain r' where "find_row ident i rows = Some r'"
    by (cases "find_row ident i rows") (auto simp: find_row_None_iff)
  with r find_row_SomeD [of ident i rows r'] keys_ok_inj [OF assms] show "find_row ident i rows = Some r" by auto
qed (auto dest: find_row_SomeD)

text \<open>
  A table as a component sees it: rows with a key, a way to write the key. The laws are those of
  a record with an ID field.
\<close>

locale id_table =
  fixes ident :: "'r \<Rightarrow> int" and set_ident :: "int \<Rightarrow> 'r \<Rightarrow> 'r"
  assumes ident_set: "ident (set_ident i r) = i"
begin

lemma insert_keys: "keys_ok ident rows \<Longrightarrow> keys_ok ident (snd (insert_row ident set_ident r rows))"
  by (simp add: insert_row_def keys_ok_snoc ident_set)

lemma insert_fresh: "fst (insert_row ident set_ident r rows) \<notin> ident ` set rows"
proof -
  have "ident q \<noteq> next_id ident rows" if "q \<in> set rows" for q
    using next_id_gt [OF that, of ident] by simp
  then show ?thesis by (auto simp: insert_row_def) metis
qed

lemma find_inserted:
  assumes "keys_ok ident rows"
  shows "find_row ident (fst (insert_row ident set_ident r rows)) (snd (insert_row ident set_ident r rows)) =
    Some (set_ident (fst (insert_row ident set_ident r rows)) r)"
  unfolding find_row_eq [OF insert_keys [OF assms]] by (simp add: insert_row_def ident_set)

lemma find_other:
  assumes "keys_ok ident rows" "i \<in> ident ` set rows"
  shows "find_row ident i (snd (insert_row ident set_ident r rows)) = find_row ident i rows"
proof -
  obtain q where q: "find_row ident i rows = Some q"
    using assms(2) by (cases "find_row ident i rows") (auto simp: find_row_None_iff)
  with find_row_eq [OF insert_keys [OF assms(1)]] find_row_SomeD [OF q] show ?thesis
    by (simp add: insert_row_def)
qed

lemma deleted_gone: "find_row ident i (delete_where (\<lambda>r. ident r = i) rows) = None"
  by (auto simp: find_row_None_iff)

lemma find_updated:
  assumes "keys_ok ident rows" "find_row ident i rows = Some r" "\<And>q. ident (g q) = ident q"
  shows "find_row ident i (update_where P g rows) = Some (if P r then g r else r)"
  using find_row_SomeD [OF assms(2)] assms(3)
  by (auto simp: find_row_eq [OF keys_ok_update [OF assms(1)]])

end

end
