(* ===== verification/Store.thy ===== *)
theory Store
  imports Table GoStr
begin

text \<open>
  Package \<^verbatim>\<open>internal/store\<close>: the database as four tables and the settings, one operation per
  method. A statement is translated with the meaning SQL gives it; what the engine adds is stated
  here: foreign keys are on (\<^verbatim>\<open>ON DELETE CASCADE\<close> and \<^verbatim>\<open>SET NULL\<close> are part of each delete), text
  is compared bytewise, and any statement may fail for a reason outside the model: each one
  consumes an element of \<open>s_faults\<close>. The single connection makes operations atomic.

  A payload is kept as the JSON value its text denotes.
\<close>

subsection \<open>Rows\<close>

datatype json =
    JNull
  | JBool bool
  | JNum int
  | JStr string
  | JArr "json list"
  | JObj "(string \<times> json) list"

record library =
  lb_id :: int
  lb_name :: string
  lb_path :: path
  lb_kind :: string
  lb_policy :: string
  lb_interval :: int
  lb_watch :: bool
  lb_last_scan :: int

record sidecar =
  sc_id :: int
  sc_file :: int
  sc_path :: path
  sc_name :: string
  sc_lang :: string
  sc_hi :: bool
  sc_forced :: bool
  sc_ext :: string
  sc_size :: int

record media_file =
  mf_id :: int
  mf_library :: int
  mf_path :: path
  mf_size :: int
  mf_mtime :: int
  mf_nlink :: int
  mf_kind :: string
  mf_series :: string
  mf_season :: int
  mf_episode :: string
  mf_title :: string
  mf_video :: string
  mf_audio :: string
  mf_subs :: string
  mf_sidecar_summary :: string
  mf_probe :: string
  mf_scanned :: int
  mf_sidecars :: "sidecar list"

record job =
  jb_id :: int
  jb_type :: string
  jb_file :: "int option"
  jb_path :: path
  jb_payload :: json
  jb_status :: string
  jb_attempts :: int
  jb_fsize :: "int option"
  jb_fmtime :: "int option"
  jb_log :: string
  jb_saved :: int
  jb_created :: int
  jb_finished :: int

record db =
  db_libs :: "library list"
  db_files :: "media_file list"
  db_sidecars :: "sidecar list"
  db_jobs :: "job list"
  db_settings :: "(string \<times> string) list"

record store =
  s_db :: db
  s_faults :: "bool list"
  s_now :: int

datatype store_err =
    SqlError
  | JobNotQueued int
  | JobNotFound int
  | JobNotRetryable int string
  | JobRunning int

type_synonym 'a store_op = "(store, store_err, 'a) op"

subsection \<open>Statements and transactions\<close>

definition sql_fault :: "store \<Rightarrow> bool \<times> store" where
  "sql_fault s = (case s_faults s of [] \<Rightarrow> (False, s) | b # bs \<Rightarrow> (b, s\<lparr>s_faults := bs\<rparr>))"

text \<open>A statement yields a value and a database, or violates a constraint (\<open>None\<close>).\<close>

definition sql :: "(db \<Rightarrow> ('a \<times> db) option) \<Rightarrow> 'a store_op" where
  "sql f s =
     (case sql_fault s of (b, s1) \<Rightarrow>
        if b then (Inl SqlError, s1)
        else (case f (s_db s1) of
            None \<Rightarrow> (Inl SqlError, s1)
          | Some (a, d) \<Rightarrow> (Inr a, s1\<lparr>s_db := d\<rparr>)))"

definition query :: "(db \<Rightarrow> 'a) \<Rightarrow> 'a store_op" where
  "query f = sql (\<lambda>d. Some (f d, d))"

text \<open>\<^verbatim>\<open>Begin\<close>, the statements, \<^verbatim>\<open>Commit\<close>; the deferred \<^verbatim>\<open>Rollback\<close> restores the database otherwise.\<close>

definition transaction :: "'a store_op \<Rightarrow> 'a store_op" where
  "transaction m s =
     (case query (\<lambda>_. ()) s of
        (Inl e, s1) \<Rightarrow> (Inl e, s1)
      | (Inr _, s1) \<Rightarrow>
          (case m s1 of
             (Inl e, s2) \<Rightarrow> (Inl e, s2\<lparr>s_db := s_db s1\<rparr>)
           | (Inr a, s2) \<Rightarrow>
               (case sql_fault s2 of
                  (True, s3) \<Rightarrow> (Inl SqlError, s3\<lparr>s_db := s_db s1\<rparr>)
                | (False, s3) \<Rightarrow> (Inr a, s3))))"

subsection \<open>Cascades\<close>

definition drop_sidecars :: "(sidecar \<Rightarrow> bool) \<Rightarrow> db \<Rightarrow> db" where
  "drop_sidecars P d = d\<lparr>db_sidecars := delete_where P (db_sidecars d)\<rparr>"

definition drop_files :: "(media_file \<Rightarrow> bool) \<Rightarrow> db \<Rightarrow> db" where
  "drop_files P d =
     (let gone = set (map mf_id (filter P (db_files d))) in
      drop_sidecars (\<lambda>r. sc_file r \<in> gone)
        (d\<lparr>db_files := delete_where P (db_files d),
           db_jobs := update_where (\<lambda>j. case jb_file j of Some i \<Rightarrow> i \<in> gone | None \<Rightarrow> False)
                        (\<lambda>j. j\<lparr>jb_file := None\<rparr>) (db_jobs d)\<rparr>))"

definition drop_libs :: "(library \<Rightarrow> bool) \<Rightarrow> db \<Rightarrow> db" where
  "drop_libs P d =
     (let gone = set (map lb_id (filter P (db_libs d))) in
      drop_files (\<lambda>f. mf_library f \<in> gone) (d\<lparr>db_libs := delete_where P (db_libs d)\<rparr>))"

definition lib_row :: "int \<Rightarrow> db \<Rightarrow> library option" where
  "lib_row i d = find_row lb_id i (db_libs d)"

definition file_row :: "int \<Rightarrow> db \<Rightarrow> media_file option" where
  "file_row i d = find_row mf_id i (db_files d)"

definition sidecar_row :: "int \<Rightarrow> db \<Rightarrow> sidecar option" where
  "sidecar_row i d = find_row sc_id i (db_sidecars d)"

definition job_row :: "int \<Rightarrow> db \<Rightarrow> job option" where
  "job_row i d = find_row jb_id i (db_jobs d)"

subsection \<open>Libraries\<close>

definition set_lb_id :: "int \<Rightarrow> library \<Rightarrow> library" where "set_lb_id i r = r\<lparr>lb_id := i\<rparr>"
definition set_mf_id :: "int \<Rightarrow> media_file \<Rightarrow> media_file" where "set_mf_id i r = r\<lparr>mf_id := i\<rparr>"
definition set_sc_id :: "int \<Rightarrow> sidecar \<Rightarrow> sidecar" where "set_sc_id i r = r\<lparr>sc_id := i\<rparr>"
definition set_jb_id :: "int \<Rightarrow> job \<Rightarrow> job" where "set_jb_id i r = r\<lparr>jb_id := i\<rparr>"

definition add_library :: "library \<Rightarrow> int store_op" where
  "add_library l = sql (\<lambda>d.
     if lb_path l \<in> lb_path ` set (db_libs d) then None
     else (case insert_row lb_id set_lb_id (l\<lparr>lb_last_scan := 0\<rparr>) (db_libs d) of
             (i, rows) \<Rightarrow> Some (i, d\<lparr>db_libs := rows\<rparr>)))"

definition update_library :: "library \<Rightarrow> unit store_op" where
  "update_library l = transaction (
     andthen (sql (\<lambda>d. Some ((),
        (case lib_row (lb_id l) d of
           None \<Rightarrow> d
         | Some old \<Rightarrow> if lb_path old \<noteq> lb_path l then drop_files (\<lambda>f. mf_library f = lb_id l) d else d)))) (\<lambda>_.
     sql (\<lambda>d.
        if (\<exists>r \<in> set (db_libs d). lb_path r = lb_path l \<and> lb_id r \<noteq> lb_id l) \<and> lib_row (lb_id l) d \<noteq> None then None
        else Some ((), d\<lparr>db_libs := update_where (\<lambda>r. lb_id r = lb_id l)
               (\<lambda>r. r\<lparr>lb_name := lb_name l, lb_path := lb_path l, lb_kind := lb_kind l, lb_policy := lb_policy l,
                     lb_interval := lb_interval l, lb_watch := lb_watch l\<rparr>) (db_libs d)\<rparr>))))"

definition delete_library :: "int \<Rightarrow> unit store_op" where
  "delete_library i = sql (\<lambda>d. Some ((), drop_libs (\<lambda>r. lb_id r = i) d))"

definition mark_library_scanned :: "int \<Rightarrow> int \<Rightarrow> unit store_op" where
  "mark_library_scanned i ts = sql (\<lambda>d.
     Some ((), d\<lparr>db_libs := update_where (\<lambda>r. lb_id r = i) (\<lambda>r. r\<lparr>lb_last_scan := ts\<rparr>) (db_libs d)\<rparr>))"

definition get_library :: "int \<Rightarrow> library option store_op" where
  "get_library i = query (lib_row i)"

definition list_libraries :: "library list store_op" where
  "list_libraries = query (\<lambda>d. sort_key lb_name (db_libs d))"

definition count_files_by_library :: "int \<Rightarrow> nat store_op" where
  "count_files_by_library i = query (\<lambda>d. count_where (\<lambda>f. mf_library f = i) (db_files d))"

subsection \<open>Media files\<close>

record file_meta =
  fm_id :: int
  fm_size :: int
  fm_mtime :: int
  fm_nlink :: int
  fm_sidecars :: string
  fm_probed :: bool

definition file_by_path :: "path \<Rightarrow> db \<Rightarrow> media_file option" where
  "file_by_path p d = List.find (\<lambda>f. mf_path f = p) (db_files d)"

definition get_file_by_path_meta :: "path \<Rightarrow> file_meta store_op" where
  "get_file_by_path_meta p = query (\<lambda>d.
     case file_by_path p d of
       None \<Rightarrow> \<lparr>fm_id = 0, fm_size = 0, fm_mtime = 0, fm_nlink = 0, fm_sidecars = '''', fm_probed = False\<rparr>
     | Some f \<Rightarrow> \<lparr>fm_id = mf_id f, fm_size = mf_size f, fm_mtime = mf_mtime f, fm_nlink = mf_nlink f,
                  fm_sidecars = mf_sidecar_summary f, fm_probed = (0 < length (mf_probe f))\<rparr>)"

text \<open>On a path that exists every column but the key is replaced; the scan time never goes back.\<close>

definition upsert_media_file :: "media_file \<Rightarrow> int store_op" where
  "upsert_media_file f s =
     (let at = (if mf_scanned f = 0 then s_now s else mf_scanned f);
          row = f\<lparr>mf_scanned := at, mf_sidecars := []\<rparr> in
      sql (\<lambda>d.
        if lib_row (mf_library f) d = None then None
        else (case file_by_path (mf_path f) d of
            Some old \<Rightarrow>
              Some (mf_id old, d\<lparr>db_files := update_where (\<lambda>r. mf_path r = mf_path f)
                 (\<lambda>r. row\<lparr>mf_id := mf_id r, mf_scanned := max (mf_scanned r) at\<rparr>) (db_files d)\<rparr>)
          | None \<Rightarrow>
              (case insert_row mf_id set_mf_id row (db_files d) of
                 (i, rows) \<Rightarrow> Some (i, d\<lparr>db_files := rows\<rparr>)))) s)"

definition touch_file :: "int \<Rightarrow> int \<Rightarrow> string \<Rightarrow> int \<Rightarrow> unit store_op" where
  "touch_file i nlink summary at = sql (\<lambda>d.
     Some ((), d\<lparr>db_files := update_where (\<lambda>r. mf_id r = i)
       (\<lambda>r. r\<lparr>mf_scanned := max (mf_scanned r) at, mf_nlink := nlink, mf_sidecar_summary := summary\<rparr>)
       (db_files d)\<rparr>))"

text \<open>Batches of 500 IDs, each one statement.\<close>

definition batch_size :: nat where "batch_size = 500"

definition touch_batch :: "int list \<Rightarrow> int \<Rightarrow> unit store_op" where
  "touch_batch ids at = sql (\<lambda>d.
     Some ((), d\<lparr>db_files := update_where (\<lambda>r. mf_id r \<in> set ids)
       (\<lambda>r. r\<lparr>mf_scanned := max (mf_scanned r) at\<rparr>) (db_files d)\<rparr>))"

function touch_batches :: "int list \<Rightarrow> int \<Rightarrow> unit store_op" where
  "touch_batches ids at =
     (if ids = [] then ret ()
      else andthen (touch_batch (take batch_size ids) at) (\<lambda>_. touch_batches (drop batch_size ids) at))"
  by pat_completeness auto
termination
  by (relation "measure (\<lambda>(ids, at). length ids)") (auto simp: batch_size_def)

declare touch_batches.simps [simp del]

definition touch_files_bulk :: "int list \<Rightarrow> int \<Rightarrow> unit store_op" where
  "touch_files_bulk ids at = (if length ids = 0 then ret () else transaction (touch_batches ids at))"

definition prune_files :: "int \<Rightarrow> int \<Rightarrow> nat store_op" where
  "prune_files lib start = sql (\<lambda>d.
     let P = (\<lambda>f. mf_library f = lib \<and> mf_scanned f < start)
     in Some (count_where P (db_files d), drop_files P d))"

definition with_sep :: "path \<Rightarrow> path" where
  "with_sep p = (if suffix ''/'' p then p else p @ ''/'')"

definition prune_files_outside :: "int \<Rightarrow> path \<Rightarrow> nat store_op" where
  "prune_files_outside lib root = sql (\<lambda>d.
     let pre = with_sep root;
         P = (\<lambda>f. mf_library f = lib \<and> mf_path f \<noteq> root \<and> take (length pre) (mf_path f) \<noteq> pre)
     in Some (count_where P (db_files d), drop_files P d))"

definition count_stale_files :: "int \<Rightarrow> int \<Rightarrow> nat store_op" where
  "count_stale_files lib start =
     query (\<lambda>d. count_where (\<lambda>f. mf_library f = lib \<and> mf_scanned f < start) (db_files d))"

subsection \<open>Sidecars\<close>

definition upsert_sidecar :: "int \<Rightarrow> sidecar \<Rightarrow> unit store_op" where
  "upsert_sidecar fid sc = sql (\<lambda>d.
     if file_row fid d = None then None
     else if sc_path sc \<in> sc_path ` set (db_sidecars d)
     then Some ((), d\<lparr>db_sidecars := update_where (\<lambda>r. sc_path r = sc_path sc)
            (\<lambda>r. sc\<lparr>sc_id := sc_id r, sc_file := fid\<rparr>) (db_sidecars d)\<rparr>)
     else Some ((), d\<lparr>db_sidecars := snd (insert_row sc_id set_sc_id (sc\<lparr>sc_file := fid\<rparr>) (db_sidecars d))\<rparr>))"

fun upsert_sidecars :: "int \<Rightarrow> sidecar list \<Rightarrow> unit store_op" where
  "upsert_sidecars fid [] = ret ()"
| "upsert_sidecars fid (sc # scs) = andthen (upsert_sidecar fid sc) (\<lambda>_. upsert_sidecars fid scs)"

definition replace_sidecars :: "int \<Rightarrow> sidecar list \<Rightarrow> unit store_op" where
  "replace_sidecars fid scs = transaction (
     andthen (sql (\<lambda>d. Some ((), drop_sidecars (\<lambda>r. sc_file r = fid) d))) (\<lambda>_. upsert_sidecars fid scs))"

definition delete_sidecar_row :: "int \<Rightarrow> unit store_op" where
  "delete_sidecar_row i = sql (\<lambda>d. Some ((), drop_sidecars (\<lambda>r. sc_id r = i) d))"

definition get_sidecar :: "int \<Rightarrow> sidecar option store_op" where
  "get_sidecar i = query (sidecar_row i)"

definition get_file :: "int \<Rightarrow> media_file option store_op" where
  "get_file i =
     andthen (query (file_row i)) (\<lambda>r.
     case r of
       None \<Rightarrow> ret None
     | Some f \<Rightarrow>
         andthen (query (\<lambda>d. sort_key sc_name (filter (\<lambda>sc. sc_file sc = i) (db_sidecars d)))) (\<lambda>scs.
         ret (Some (f\<lparr>mf_scanned := 0, mf_sidecars := scs\<rparr>))))"

end
