(* ===== verification/JobStore.thy ===== *)
theory JobStore
  imports Store
begin

text \<open>
  The job queue of package \<^verbatim>\<open>internal/store\<close>: creation, claiming, finishing, cancelling, retrying
  and deleting of jobs, the questions about running scans, statistics and settings.
\<close>

subsection \<open>Creating and claiming\<close>

definition new_job :: "string \<Rightarrow> int \<Rightarrow> path \<Rightarrow> json \<Rightarrow> int \<Rightarrow> db \<Rightarrow> job" where
  "new_job ty fid p payload now d =
     \<lparr>jb_id = 0, jb_type = ty, jb_file = (if fid = 0 then None else Some fid), jb_path = p, jb_payload = payload,
      jb_status = ''queued'', jb_attempts = 0, jb_fsize = map_option mf_size (file_row fid d),
      jb_fmtime = map_option mf_mtime (file_row fid d), jb_log = '''', jb_saved = 0, jb_created = now, jb_finished = 0\<rparr>"

definition create_job :: "string \<Rightarrow> int \<Rightarrow> path \<Rightarrow> json \<Rightarrow> job store_op" where
  "create_job ty fid p payload s =
     sql (\<lambda>d.
       if fid \<noteq> 0 \<and> file_row fid d = None then None
       else (case insert_row jb_id set_jb_id (new_job ty fid p payload (s_now s) d) (db_jobs d) of
               (i, rows) \<Rightarrow> Some (set_jb_id i (new_job ty fid p payload (s_now s) d), d\<lparr>db_jobs := rows\<rparr>))) s"

text \<open>The oldest queued job: the first in key order.\<close>

definition first_queued :: "job list \<Rightarrow> job option" where
  "first_queued js = List.find (\<lambda>j. jb_status j = ''queued'') js"

text \<open>The returned job has the columns of the \<^verbatim>\<open>RETURNING\<close> clause, the others zero.\<close>

definition claim_next_job :: "job option store_op" where
  "claim_next_job = sql (\<lambda>d.
     case first_queued (db_jobs d) of
       None \<Rightarrow> Some (None, d)
     | Some j \<Rightarrow>
         Some (Some (j\<lparr>jb_status := ''running'', jb_log := '''', jb_saved := 0, jb_finished := 0\<rparr>),
           d\<lparr>db_jobs := update_where (\<lambda>r. jb_id r = jb_id j) (\<lambda>r. r\<lparr>jb_status := ''running''\<rparr>) (db_jobs d)\<rparr>))"

definition finish_job :: "int \<Rightarrow> string \<Rightarrow> string \<Rightarrow> int \<Rightarrow> unit store_op" where
  "finish_job i status msg saved s =
     sql (\<lambda>d. Some ((), d\<lparr>db_jobs := update_where (\<lambda>r. jb_id r = i)
       (\<lambda>r. r\<lparr>jb_status := status, jb_log := msg, jb_saved := saved, jb_finished := s_now s\<rparr>) (db_jobs d)\<rparr>)) s"

subsection \<open>Cancelling, retrying, deleting\<close>

definition cancel_job :: "int \<Rightarrow> unit store_op" where
  "cancel_job i s =
     andthen (sql (\<lambda>d.
       let P = (\<lambda>r. jb_id r = i \<and> jb_status r = ''queued'') in
       Some (count_where P (db_jobs d),
         d\<lparr>db_jobs := update_where P (\<lambda>r. r\<lparr>jb_status := ''cancelled'', jb_log := ''cancelled by user'',
             jb_finished := s_now s\<rparr>) (db_jobs d)\<rparr>))) (\<lambda>rows.
     ensure (rows \<noteq> 0) (JobNotQueued i)) s"

definition retryable :: "string \<Rightarrow> bool" where
  "retryable st \<longleftrightarrow> st = ''failed'' \<or> st = ''skipped'' \<or> st = ''cancelled''"

definition get_job :: "int \<Rightarrow> job option store_op" where
  "get_job i = query (job_row i)"

definition retry_row :: "job \<Rightarrow> int \<Rightarrow> job" where
  "retry_row j now = j\<lparr>jb_status := ''queued'', jb_created := now, jb_attempts := jb_attempts j + 1,
     jb_log := '''', jb_saved := 0, jb_finished := 0\<rparr>"

definition retry_job :: "int \<Rightarrow> job option store_op" where
  "retry_job i s =
     andthen (sql (\<lambda>d.
       case List.find (\<lambda>r. jb_id r = i \<and> retryable (jb_status r)) (db_jobs d) of
         None \<Rightarrow> Some (None, d)
       | Some j \<Rightarrow>
           (case insert_row jb_id set_jb_id (retry_row j (s_now s)) (db_jobs d) of
              (n, rows) \<Rightarrow> Some (Some n, d\<lparr>db_jobs := rows\<rparr>)))) (\<lambda>new.
     case new of
       Some n \<Rightarrow> get_job n
     | None \<Rightarrow>
         andthen (get_job i) (\<lambda>r.
         case r of
           None \<Rightarrow> fail (JobNotFound i)
         | Some j \<Rightarrow> fail (JobNotRetryable i (jb_status j)))) s"

definition delete_job :: "int \<Rightarrow> unit store_op" where
  "delete_job i =
     andthen (sql (\<lambda>d.
       let P = (\<lambda>r. jb_id r = i \<and> jb_status r \<noteq> ''running'') in
       Some (count_where P (db_jobs d), d\<lparr>db_jobs := delete_where P (db_jobs d)\<rparr>))) (\<lambda>rows.
     ensure (rows \<noteq> 0) (JobRunning i))"

definition fail_interrupted :: "nat store_op" where
  "fail_interrupted s =
     sql (\<lambda>d.
       let P = (\<lambda>r. jb_status r = ''running'') in
       Some (count_where P (db_jobs d),
         d\<lparr>db_jobs := update_where P (\<lambda>r. r\<lparr>jb_status := ''failed'', jb_log := ''interrupted by restart'',
             jb_finished := s_now s\<rparr>) (db_jobs d)\<rparr>)) s"

subsection \<open>Listing\<close>

definition max_offset :: int where "max_offset = 100000"

definition clamp_offset :: "int \<Rightarrow> int" where
  "clamp_offset off = (if off < 0 then 0 else if max_offset < off then max_offset else off)"

definition page :: "int \<Rightarrow> int \<Rightarrow> 'a list \<Rightarrow> 'a list" where
  "page limit off xs = take (nat limit) (drop (nat off) xs)"

definition status_filter :: "string \<Rightarrow> job \<Rightarrow> bool" where
  "status_filter status j \<longleftrightarrow> status = '''' \<or> jb_status j = status"

definition job_limit :: "int \<Rightarrow> int" where
  "job_limit limit = (if limit \<le> 0 \<or> 500 < limit then 100 else limit)"

definition list_jobs :: "string \<Rightarrow> int \<Rightarrow> int \<Rightarrow> (job list \<times> nat) store_op" where
  "list_jobs status limit off =
     andthen (query (\<lambda>d. count_where (status_filter status) (db_jobs d))) (\<lambda>total.
     andthen (query (\<lambda>d. page (job_limit limit) (clamp_offset off)
        (rev (sort_key jb_id (filter (status_filter status) (db_jobs d)))))) (\<lambda>js.
     ret (map (\<lambda>j. j\<lparr>jb_fsize := None, jb_fmtime := None\<rparr>) js, total)))"

subsection \<open>Scans\<close>

text \<open>
  Decoding one field of a payload: the last key that matches (Go ignores case), a missing key
  leaves the zero value, a value of another type is an error.
\<close>

definition json_field :: "string \<Rightarrow> (string \<times> json) list \<Rightarrow> json option" where
  "json_field k kvs = map_option snd (List.find (\<lambda>(k', _). equal_fold k k') (rev kvs))"

definition json_int :: "string \<Rightarrow> json \<Rightarrow> int option" where
  "json_int k j =
     (case j of
        JObj kvs \<Rightarrow>
          (case json_field k kvs of
             None \<Rightarrow> Some 0
           | Some (JNum n) \<Rightarrow> if in_i64 n then Some n else None
           | Some JNull \<Rightarrow> Some 0
           | _ \<Rightarrow> None)
      | JNull \<Rightarrow> Some 0
      | _ \<Rightarrow> None)"

definition scan_in_status :: "int \<Rightarrow> string list \<Rightarrow> bool store_op" where
  "scan_in_status lib statuses =
     andthen (query (\<lambda>d. count_where (\<lambda>j. jb_type j = ''scan_all'' \<and> jb_status j \<in> set statuses) (db_jobs d))) (\<lambda>n.
     if 0 < n then ret True
     else query (\<lambda>d. \<exists>j \<in> set (db_jobs d). jb_type j = ''scan_library'' \<and> jb_status j \<in> set statuses \<and>
            json_int ''library_id'' (jb_payload j) = Some lib))"

definition is_scan_active :: "int \<Rightarrow> bool store_op" where
  "is_scan_active lib = scan_in_status lib [''queued'', ''running'']"

definition is_scan_queued :: "int \<Rightarrow> bool store_op" where
  "is_scan_queued lib = scan_in_status lib [''queued'']"

definition is_scan_all_active :: "bool store_op" where
  "is_scan_all_active =
     andthen (query (\<lambda>d. count_where (\<lambda>j. jb_type j = ''scan_all'' \<and> jb_status j \<in> {''queued'', ''running''}) (db_jobs d)))
       (\<lambda>n. ret (0 < n))"

subsection \<open>Hard-link policy\<close>

definition rtrim_sep :: "path \<Rightarrow> path" where
  "rtrim_sep p = rev (dropWhile (\<lambda>c. c = CHR ''/'') (rev p))"

text \<open>The libraries whose path covers the file, the longest path first.\<close>

definition covers :: "media_file \<Rightarrow> library \<Rightarrow> bool" where
  "covers f l \<longleftrightarrow> mf_path f = lb_path l \<or>
     take (length (rtrim_sep (lb_path l)) + 1) (mf_path f) = rtrim_sep (lb_path l) @ ''/''"

definition hardlink_policy_proceeds :: "int \<Rightarrow> store \<Rightarrow> bool \<times> store" where
  "hardlink_policy_proceeds fid s =
     (case query (\<lambda>d. case file_row fid d of
          None \<Rightarrow> None
        | Some f \<Rightarrow> (case sort_key (\<lambda>l. - int (length (lb_path l))) (filter (covers f) (db_libs d)) of
             [] \<Rightarrow> None | l # _ \<Rightarrow> Some (lb_policy l))) s of
        (Inr (Some policy), s') \<Rightarrow> (policy = ''proceed'', s')
      | (_, s') \<Rightarrow> (False, s'))"

subsection \<open>Statistics and settings\<close>

record stats =
  ss_saved :: int
  ss_files :: nat
  ss_active :: nat

definition stats :: "stats store_op" where
  "stats =
     andthen (query (\<lambda>d. sum_list (map jb_saved (filter (\<lambda>j. jb_status j = ''done'') (db_jobs d))))) (\<lambda>saved.
     andthen (query (\<lambda>d. length (db_files d))) (\<lambda>files.
     andthen (query (\<lambda>d. count_where (\<lambda>j. jb_status j \<in> {''queued'', ''running''}) (db_jobs d))) (\<lambda>active.
     ret \<lparr>ss_saved = saved, ss_files = files, ss_active = active\<rparr>)))"

definition get_setting :: "string \<Rightarrow> string \<Rightarrow> store \<Rightarrow> string \<times> store" where
  "get_setting k dflt s =
     (case query (\<lambda>d. map_of (db_settings d) k) s of
        (Inr (Some v), s') \<Rightarrow> (v, s')
      | (_, s') \<Rightarrow> (dflt, s'))"

definition set_setting :: "string \<Rightarrow> string \<Rightarrow> unit store_op" where
  "set_setting k v = sql (\<lambda>d.
     Some ((), d\<lparr>db_settings := (if k \<in> fst ` set (db_settings d)
       then map (\<lambda>(k', v'). if k' = k then (k', v) else (k', v')) (db_settings d)
       else db_settings d @ [(k, v)])\<rparr>))"

end
