(* ===== verification/FileList.thy ===== *)
theory FileList
  imports JobStore
begin

text \<open>
  \<^verbatim>\<open>ListFiles\<close>: the search filter with its \<^verbatim>\<open>LIKE\<close> patterns, the whitelisted sort orders, paging.
\<close>

subsection \<open>Patterns\<close>

text \<open>\<^verbatim>\<open>escapeLike\<close>: the three special characters get the escape character in front.\<close>

fun escape_like :: "string \<Rightarrow> string" where
  "escape_like [] = []"
| "escape_like (c # cs) =
     (if c = CHR 0x5C \<or> c = CHR ''%'' \<or> c = CHR ''_'' then CHR 0x5C # c # escape_like cs else c # escape_like cs)"

text \<open>
  \<^verbatim>\<open>LIKE ... ESCAPE '\'\<close>: percent matches any text, underscore one character, letters compare
  without case within ASCII, an escape character at the end matches nothing.
\<close>

definition ascii_fold :: "char \<Rightarrow> char" where
  "ascii_fold c = (if CHR ''A'' \<le> c \<and> c \<le> CHR ''Z'' then char_of (of_char c + (32 :: nat)) else c)"

function like :: "string \<Rightarrow> string \<Rightarrow> bool" where
  "like [] s = (s = [])"
| "like (p # ps) s =
     (if p = CHR ''%'' then like ps s \<or> (case s of [] \<Rightarrow> False | _ # t \<Rightarrow> like (p # ps) t)
      else if p = CHR ''_'' then
        s \<noteq> [] \<and> (case rune_len s of Some n \<Rightarrow> like ps (drop n s) | None \<Rightarrow> like ps (tl s))
      else if p = CHR 0x5C then
        (case ps of [] \<Rightarrow> False | q # qs \<Rightarrow> s \<noteq> [] \<and> ascii_fold q = ascii_fold (hd s) \<and> like qs (tl s))
      else s \<noteq> [] \<and> ascii_fold p = ascii_fold (hd s) \<and> like ps (tl s))"
  by pat_completeness auto
termination
  by (relation "measure (\<lambda>(ps, s). length ps + length s)") (auto dest: rune_len_pos simp: neq_Nil_conv)

declare like.simps(2) [simp del]

subsection \<open>Filters\<close>

record file_filter =
  ff_library :: int
  ff_query :: string
  ff_kind :: string
  ff_limit :: int
  ff_offset :: int
  ff_sort :: string
  ff_order :: string
  ff_hardlinks :: string
  ff_subs :: string

definition matches_query :: "string \<Rightarrow> media_file \<Rightarrow> bool" where
  "matches_query q m \<longleftrightarrow>
     (let pat = ''%'' @ escape_like q @ ''%'' in like pat (mf_path m) \<or> like pat (mf_series m) \<or> like pat (mf_title m))"

definition matches_subs :: "string \<Rightarrow> media_file \<Rightarrow> bool" where
  "matches_subs subs m \<longleftrightarrow>
     (if subs = ''embedded'' then mf_subs m \<noteq> ''''
      else if subs = ''none_embedded'' then mf_subs m = ''''
      else if subs = ''sidecar'' then mf_sidecar_summary m \<noteq> ''''
      else if subs = ''none_sidecar'' then mf_sidecar_summary m = ''''
      else if subs = ''any'' then mf_subs m \<noteq> '''' \<or> mf_sidecar_summary m \<noteq> ''''
      else if subs = ''none'' then mf_subs m = '''' \<and> mf_sidecar_summary m = ''''
      else True)"

definition matches_filter :: "file_filter \<Rightarrow> media_file \<Rightarrow> bool" where
  "matches_filter f m \<longleftrightarrow>
     (0 < ff_library f \<longrightarrow> mf_library m = ff_library f) \<and>
     (ff_kind f \<noteq> '''' \<longrightarrow> mf_kind m = ff_kind f) \<and>
     (ff_query f \<noteq> '''' \<longrightarrow> matches_query (ff_query f) m) \<and>
     (if ff_hardlinks f = ''yes'' then 1 < mf_nlink m else if ff_hardlinks f = ''no'' then mf_nlink m = 1 else True) \<and>
     matches_subs (ff_subs f) m"

subsection \<open>Orders\<close>

text \<open>A column's value: SQL orders numbers before texts, texts bytewise.\<close>

datatype sqlval = SInt int | SText string

instantiation sqlval :: linorder
begin

fun less_eq_sqlval :: "sqlval \<Rightarrow> sqlval \<Rightarrow> bool" where
  "less_eq_sqlval (SInt a) (SInt b) \<longleftrightarrow> a \<le> b"
| "less_eq_sqlval (SInt a) (SText b) \<longleftrightarrow> True"
| "less_eq_sqlval (SText a) (SInt b) \<longleftrightarrow> False"
| "less_eq_sqlval (SText a) (SText b) \<longleftrightarrow> a \<le> b"

definition less_sqlval :: "sqlval \<Rightarrow> sqlval \<Rightarrow> bool" where
  "less_sqlval a b \<longleftrightarrow> a \<le> b \<and> \<not> b \<le> a"

instance
proof
  fix x y z :: sqlval
  show "x < y \<longleftrightarrow> x \<le> y \<and> \<not> y \<le> x" by (simp add: less_sqlval_def)
  show "x \<le> x" by (cases x) auto
  show "x \<le> y \<Longrightarrow> y \<le> z \<Longrightarrow> x \<le> z" by (cases x; cases y; cases z) auto
  show "x \<le> y \<Longrightarrow> y \<le> x \<Longrightarrow> x = y" by (cases x; cases y) auto
  show "x \<le> y \<or> y \<le> x" by (cases x; cases y) auto
qed

end

definition sort_cols :: "string \<Rightarrow> media_file \<Rightarrow> sqlval list" where
  "sort_cols srt m =
     (if srt = ''size'' then [SInt (mf_size m)]
      else if srt = ''mtime'' then [SInt (mf_mtime m)]
      else if srt = ''nlink'' then [SInt (mf_nlink m)]
      else if srt = ''scanned_at'' then [SInt (mf_scanned m)]
      else if srt = ''title'' then [SText (mf_title m)]
      else [SText (mf_series m), SInt (mf_season m), SText (mf_episode m), SText (mf_title m), SText (mf_path m)])"

text \<open>The key ends with the ID, so rows never tie and \<^verbatim>\<open>DESC\<close> on every column is the reverse.\<close>

definition sort_row :: "string \<Rightarrow> media_file \<Rightarrow> sqlval list" where
  "sort_row srt m = sort_cols srt m @ [SInt (mf_id m)]"

definition ordered :: "file_filter \<Rightarrow> media_file list \<Rightarrow> media_file list" where
  "ordered f ms =
     (let asc = sort_key (sort_row (ff_sort f)) ms in if to_lower (ff_order f) = ''desc'' then rev asc else asc)"

definition file_limit :: "int \<Rightarrow> int" where
  "file_limit limit = (if limit \<le> 0 \<or> 500 < limit then 200 else limit)"

definition list_files :: "file_filter \<Rightarrow> (media_file list \<times> nat) store_op" where
  "list_files f =
     andthen (query (\<lambda>d. count_where (matches_filter f) (db_files d))) (\<lambda>total.
     andthen (query (\<lambda>d. page (file_limit (ff_limit f)) (clamp_offset (ff_offset f))
        (ordered f (filter (matches_filter f) (db_files d))))) (\<lambda>ms.
     ret (map (\<lambda>m. m\<lparr>mf_probe := '''', mf_scanned := 0\<rparr>) ms, total)))"

end
