(* ===== verification/StoreInv.thy ===== *)
theory StoreInv
  imports FileList
begin

text \<open>
  The integrity of the database: keys, unique paths, foreign keys. Every operation preserves it,
  whether it succeeds or fails; a failed transaction leaves the database as it was.
\<close>

subsection \<open>The invariant\<close>

definition db_ok :: "db \<Rightarrow> bool" where
  "db_ok d \<longleftrightarrow>
     keys_ok lb_id (db_libs d) \<and> keys_ok mf_id (db_files d) \<and> keys_ok sc_id (db_sidecars d) \<and>
     keys_ok jb_id (db_jobs d) \<and>
     distinct (map lb_path (db_libs d)) \<and> distinct (map mf_path (db_files d)) \<and>
     distinct (map sc_path (db_sidecars d)) \<and> distinct (map fst (db_settings d)) \<and>
     (\<forall>f \<in> set (db_files d). mf_library f \<in> lb_id ` set (db_libs d)) \<and>
     (\<forall>r \<in> set (db_sidecars d). sc_file r \<in> mf_id ` set (db_files d)) \<and>
     (\<forall>j \<in> set (db_jobs d). \<forall>i. jb_file j = Some i \<longrightarrow> i \<in> mf_id ` set (db_files d))"

lemma db_okD:
  assumes "db_ok d"
  shows "keys_ok lb_id (db_libs d)" "keys_ok mf_id (db_files d)" "keys_ok sc_id (db_sidecars d)"
    "keys_ok jb_id (db_jobs d)" "distinct (map lb_path (db_libs d))" "distinct (map mf_path (db_files d))"
    "distinct (map sc_path (db_sidecars d))" "distinct (map fst (db_settings d))"
    "\<And>f. f \<in> set (db_files d) \<Longrightarrow> mf_library f \<in> lb_id ` set (db_libs d)"
    "\<And>r. r \<in> set (db_sidecars d) \<Longrightarrow> sc_file r \<in> mf_id ` set (db_files d)"
    "\<And>j i. j \<in> set (db_jobs d) \<Longrightarrow> jb_file j = Some i \<Longrightarrow> i \<in> mf_id ` set (db_files d)"
  using assms by (auto simp: db_ok_def)

text \<open>The four tables are instances of the keyed table.\<close>

interpretation libs: id_table lb_id set_lb_id by unfold_locales (simp add: set_lb_id_def)
interpretation files: id_table mf_id set_mf_id by unfold_locales (simp add: set_mf_id_def)
interpretation sidecars: id_table sc_id set_sc_id by unfold_locales (simp add: set_sc_id_def)
interpretation jobs: id_table jb_id set_jb_id by unfold_locales (simp add: set_jb_id_def)

lemma map_update_same: "(\<And>r. P r \<Longrightarrow> f (g r) = f r) \<Longrightarrow> map f (update_where P g rows) = map f rows"
  by (auto simp: update_where_def)

lemma image_update_same: "(\<And>r. P r \<Longrightarrow> f (g r) = f r) \<Longrightarrow> f ` set (update_where P g rows) = f ` set rows"
  by (metis map_update_same list.set_map)

lemma distinct_delete: "distinct (map f rows) \<Longrightarrow> distinct (map f (delete_where P rows))"
  by (auto simp: delete_where_def distinct_map_filter)

text \<open>One row of an update gets a value nobody else has.\<close>

lemma distinct_update_one:
  assumes "distinct (map f rows)" "keys_ok ident rows" "\<And>r. f (g r) = v"
    "\<forall>r \<in> set rows. f r = v \<longrightarrow> ident r = i"
  shows "distinct (map f (update_where (\<lambda>r. ident r = i) g rows))"
proof -
  have "inj_on (\<lambda>r. f (if ident r = i then g r else r)) (set rows)"
  proof (rule inj_onI)
    fix x y
    assume xy: "x \<in> set rows" "y \<in> set rows"
      "f (if ident x = i then g x else x) = f (if ident y = i then g y else y)"
    then have "ident x = i \<longleftrightarrow> ident y = i" using assms(3,4) by (metis (full_types))
    then show "x = y"
      using xy assms(1) keys_ok_inj [OF assms(2)] by (auto simp: distinct_map dest: inj_onD split: if_splits)
  qed
  moreover have "distinct rows" using assms(1) by (simp add: distinct_map)
  ultimately show ?thesis by (simp add: update_where_def distinct_map o_def)
qed

subsection \<open>Cascading deletes\<close>

lemma db_ok_drop_sidecars: "db_ok d \<Longrightarrow> db_ok (drop_sidecars P d)"
  by (auto simp: db_ok_def drop_sidecars_def intro: keys_ok_delete distinct_delete)

lemma db_ok_drop_files:
  assumes ok: "db_ok d"
  shows "db_ok (drop_files P d)"
proof -
  let ?gone = "set (map mf_id (filter P (db_files d)))"
  have kept: "i \<in> mf_id ` {f \<in> set (db_files d). \<not> P f}" if "i \<in> mf_id ` set (db_files d)" "i \<notin> ?gone" for i
    using that by auto
  have jobs: "map jb_id (update_where Q (\<lambda>j. j\<lparr>jb_file := None\<rparr>) js) = map jb_id js" for Q js
    by (rule map_update_same) simp
  show ?thesis
    unfolding db_ok_def drop_files_def drop_sidecars_def Let_def
    using db_okD [OF ok] kept jobs
    by (auto intro!: keys_ok_delete distinct_delete keys_ok_update split: option.splits if_splits)
qed

lemma drop_files_libs [simp]: "db_libs (drop_files P d) = db_libs d" "db_settings (drop_files P d) = db_settings d"
  by (simp_all add: drop_files_def drop_sidecars_def Let_def)

lemma drop_files_files [simp]: "db_files (drop_files P d) = delete_where P (db_files d)"
  by (simp add: drop_files_def drop_sidecars_def Let_def)

lemma drop_files_settings_libs: "drop_files P (d\<lparr>db_libs := ls\<rparr>) = (drop_files P d)\<lparr>db_libs := ls\<rparr>"
  by (simp add: drop_files_def drop_sidecars_def Let_def)

lemma db_ok_drop_libs:
  assumes ok: "db_ok d"
  shows "db_ok (drop_libs P d)"
proof -
  let ?gone = "set (map lb_id (filter P (db_libs d)))"
  have ok': "db_ok (drop_files (\<lambda>f. mf_library f \<in> ?gone) d)" by (rule db_ok_drop_files) (rule ok)
  have "mf_library f \<in> lb_id ` {l \<in> set (db_libs d). \<not> P l}"
    if "f \<in> set (db_files d)" "mf_library f \<notin> ?gone" for f
    using db_okD(9) [OF ok that(1)] that(2) by auto
  with db_okD [OF ok'] show ?thesis
    unfolding drop_libs_def Let_def drop_files_settings_libs
    by (auto simp: db_ok_def intro!: keys_ok_delete distinct_delete)
qed

subsection \<open>Statements\<close>

text \<open>A relation on databases, lifted to the store; statements that respect it make operations that do.\<close>

definition on_db :: "(db \<Rightarrow> db \<Rightarrow> bool) \<Rightarrow> store \<Rightarrow> store \<Rightarrow> bool" where
  "on_db R s s' \<longleftrightarrow> s_now s' = s_now s \<and> R (s_db s) (s_db s')"

locale db_frame =
  fixes R :: "db \<Rightarrow> db \<Rightarrow> bool"
  assumes db_refl: "R d d" and db_trans: "R d e \<Longrightarrow> R e f \<Longrightarrow> R d f"
begin

lemma is_frame: "frame (on_db R)"
  by unfold_locales (auto simp: on_db_def db_refl intro: db_trans)

lemma fault_keeps: "sql_fault s = (b, s') \<Longrightarrow> on_db R s s'"
  by (auto simp: sql_fault_def on_db_def db_refl split: list.splits)

lemma sql_keeps: "(\<And>d a d'. f d = Some (a, d') \<Longrightarrow> R d d') \<Longrightarrow> keeps (on_db R) (sql f)"
  by (rule keepsI)
    (auto simp: sql_def on_db_def sql_fault_def db_refl split: prod.splits if_splits option.splits list.splits)

lemma query_keeps: "keeps (on_db R) (query f)"
  unfolding query_def by (rule sql_keeps) (auto simp: db_refl)

lemma transaction_keeps:
  assumes "keeps (on_db R) m"
  shows "keeps (on_db R) (transaction m)"
proof (rule keepsI)
  fix s r s'
  assume t: "transaction m s = (r, s')"
  obtain x s1 where q: "query (\<lambda>_. ()) s = (x, s1)" by fastforce
  have q1: "on_db R s s1" by (rule keepsD [OF query_keeps q])
  obtain y s2 where m: "m s1 = (y, s2)" by fastforce
  have m1: "on_db R s1 s2" by (rule keepsD [OF assms m])
  obtain b s3 where f: "sql_fault s2 = (b, s3)" by fastforce
  have f1: "on_db R s2 s3" by (rule fault_keeps [OF f])
  have "s' = s1 \<or> s' = s2\<lparr>s_db := s_db s1\<rparr> \<or> s' = s3\<lparr>s_db := s_db s1\<rparr> \<or> s' = s3"
    using t q m f by (auto simp: transaction_def split: sum.splits bool.splits)
  moreover have "on_db R s1 (s2\<lparr>s_db := s_db s1\<rparr>)" "on_db R s1 (s3\<lparr>s_db := s_db s1\<rparr>)"
    using m1 f1 by (simp_all add: on_db_def db_refl)
  ultimately show "on_db R s s'" using q1 m1 f1 frame.frame_trans [OF is_frame] by blast
qed

end

text \<open>A failed transaction leaves no trace.\<close>

lemma transaction_rollback: "transaction m s = (Inl e, s') \<Longrightarrow> s_db s' = s_db s"
  by (auto simp: transaction_def query_def sql_def sql_fault_def split: prod.splits sum.splits bool.splits list.splits if_splits)

lemma sql_error: "sql f s = (Inl e, s') \<Longrightarrow> s_db s' = s_db s"
  by (auto simp: sql_def sql_fault_def split: prod.splits list.splits if_splits option.splits)

lemma sql_Inr: "sql f s = (Inr a, s') \<Longrightarrow> f (s_db s) = Some (a, s_db s') \<and> s_now s' = s_now s"
  by (auto simp: sql_def sql_fault_def split: prod.splits list.splits if_splits option.splits)

lemma query_Inr: "query f s = (Inr a, s') \<Longrightarrow> a = f (s_db s) \<and> s_db s' = s_db s"
  unfolding query_def by (auto dest: sql_Inr)

subsection \<open>Every operation keeps the invariant\<close>

definition inv_db :: "db \<Rightarrow> db \<Rightarrow> bool" where
  "inv_db d d' \<longleftrightarrow> (db_ok d \<longrightarrow> db_ok d')"

abbreviation db_inv :: "store \<Rightarrow> store \<Rightarrow> bool" where
  "db_inv \<equiv> on_db inv_db"

interpretation iv: db_frame inv_db
  by unfold_locales (auto simp: inv_db_def)

interpretation ivf: frame db_inv
  by (rule iv.is_frame)

lemma inv_sql: "(\<And>d a d'. db_ok d \<Longrightarrow> f d = Some (a, d') \<Longrightarrow> db_ok d') \<Longrightarrow> keeps db_inv (sql f)"
  by (rule iv.sql_keeps) (auto simp: inv_db_def)

lemma db_ok_jobs:
  assumes "db_ok d" "map jb_id js = map jb_id (db_jobs d)" "\<forall>j \<in> set js. \<exists>j' \<in> set (db_jobs d). jb_file j = jb_file j'"
  shows "db_ok (d\<lparr>db_jobs := js\<rparr>)"
proof -
  have "jb_id ` set js = jb_id ` set (db_jobs d)" using assms(2) by (metis list.set_map)
  then have "\<forall>j \<in> set js. 0 < jb_id j" using db_okD(4) [OF assms(1)] by (auto simp: keys_ok_def image_iff) (metis image_iff)
  with assms show ?thesis by (fastforce simp: db_ok_def keys_ok_def)
qed

lemma db_ok_update_jobs:
  "db_ok d \<Longrightarrow> (\<And>r. jb_id (g r) = jb_id r \<and> jb_file (g r) = jb_file r) \<Longrightarrow> db_ok (d\<lparr>db_jobs := update_where P g (db_jobs d)\<rparr>)"
  by (rule db_ok_jobs) (auto simp: map_update_same)

lemma db_ok_insert_job:
  assumes "db_ok d" "\<And>i. jb_file j = Some i \<Longrightarrow> i \<in> mf_id ` set (db_files d)"
  shows "db_ok (d\<lparr>db_jobs := snd (insert_row jb_id set_jb_id j (db_jobs d))\<rparr>)"
  using assms jobs.insert_keys [OF db_okD(4) [OF assms(1)], of j]
  by (auto simp: db_ok_def insert_row_def set_jb_id_def)

lemma db_ok_delete_jobs: "db_ok d \<Longrightarrow> db_ok (d\<lparr>db_jobs := delete_where P (db_jobs d)\<rparr>)"
  by (auto simp: db_ok_def intro: keys_ok_delete)

lemma db_ok_update_files:
  assumes "db_ok d" "\<And>r. P r \<Longrightarrow> mf_id (g r) = mf_id r \<and> mf_path (g r) = mf_path r"
    "\<And>r. r \<in> set (db_files d) \<Longrightarrow> P r \<Longrightarrow> mf_library (g r) \<in> lb_id ` set (db_libs d)"
  shows "db_ok (d\<lparr>db_files := update_where P g (db_files d)\<rparr>)"
proof -
  have m: "map mf_path (update_where P g (db_files d)) = map mf_path (db_files d)"
    "mf_id ` set (update_where P g (db_files d)) = mf_id ` set (db_files d)"
    by (rule map_update_same, use assms(2) in blast) (rule image_update_same, use assms(2) in blast)
  have l: "\<forall>f \<in> set (update_where P g (db_files d)). mf_library f \<in> lb_id ` set (db_libs d)"
    using assms(3) db_okD(9) [OF assms(1)] by auto
  have k: "keys_ok mf_id (update_where P g (db_files d))"
    using db_okD(2) [OF assms(1)] assms(2) by (intro keys_ok_update) auto
  show ?thesis using assms(1) by (simp add: db_ok_def m l k del: set_update_where)
qed

lemma db_ok_update_libs:
  assumes "db_ok d" "\<And>r. P r \<Longrightarrow> lb_id (g r) = lb_id r"
    "distinct (map lb_path (update_where P g (db_libs d)))"
  shows "db_ok (d\<lparr>db_libs := update_where P g (db_libs d)\<rparr>)"
proof -
  have m: "lb_id ` set (update_where P g (db_libs d)) = lb_id ` set (db_libs d)"
    using assms(2) by (rule image_update_same)
  have k: "keys_ok lb_id (update_where P g (db_libs d))"
    using db_okD(1) [OF assms(1)] assms(2) by (rule keys_ok_update)
  show ?thesis using assms(1,3) by (simp add: db_ok_def m k del: set_update_where)
qed

lemma find_path_None: "List.find (\<lambda>f. g f = p) xs = None \<longleftrightarrow> p \<notin> g ` set xs"
  by (auto simp: find_None_iff)

lemma inv_add_library: "keeps db_inv (add_library l)"
  unfolding add_library_def
proof (rule inv_sql)
  fix d a d'
  assume ok: "db_ok d" and r: "(if lb_path l \<in> lb_path ` set (db_libs d) then None
    else (case insert_row lb_id set_lb_id (l\<lparr>lb_last_scan := 0\<rparr>) (db_libs d) of (i, rows) \<Rightarrow> Some (i, d\<lparr>db_libs := rows\<rparr>))) = Some (a, d')"
  then have n: "lb_path l \<notin> lb_path ` set (db_libs d)" by (auto split: if_splits)
  with r have d': "d' = d\<lparr>db_libs := snd (insert_row lb_id set_lb_id (l\<lparr>lb_last_scan := 0\<rparr>) (db_libs d))\<rparr>"
    by (auto split: prod.splits)
  show "db_ok d'" using ok n libs.insert_keys [OF db_okD(1) [OF ok], of "l\<lparr>lb_last_scan := 0\<rparr>"]
    unfolding d' by (auto simp: db_ok_def insert_row_def set_lb_id_def)
qed

lemma inv_update_library: "keeps db_inv (update_library l)"
  unfolding update_library_def
proof (intro iv.transaction_keeps ivf.keeps_andthen inv_sql)
  fix d a d'
  assume "db_ok d" "Some ((), case lib_row (lb_id l) d of None \<Rightarrow> d
    | Some old \<Rightarrow> if lb_path old \<noteq> lb_path l then drop_files (\<lambda>f. mf_library f = lb_id l) d else d) = Some (a, d')"
  then show "db_ok d'" by (auto split: option.splits if_splits intro: db_ok_drop_files)
next
  fix u d a d'
  let ?g = "\<lambda>r. r\<lparr>lb_name := lb_name l, lb_path := lb_path l, lb_kind := lb_kind l, lb_policy := lb_policy l,
                     lb_interval := lb_interval l, lb_watch := lb_watch l\<rparr>"
  assume ok: "db_ok d" and r: "(if (\<exists>r \<in> set (db_libs d). lb_path r = lb_path l \<and> lb_id r \<noteq> lb_id l) \<and> lib_row (lb_id l) d \<noteq> None then None
        else Some ((), d\<lparr>db_libs := update_where (\<lambda>r. lb_id r = lb_id l) ?g (db_libs d)\<rparr>)) = Some (a, d')"
  then have d': "d' = d\<lparr>db_libs := update_where (\<lambda>r. lb_id r = lb_id l) ?g (db_libs d)\<rparr>"
    and c: "lib_row (lb_id l) d = None \<or> (\<forall>r \<in> set (db_libs d). lb_path r = lb_path l \<longrightarrow> lb_id r = lb_id l)"
    by (auto split: if_splits)
  have "distinct (map lb_path (update_where (\<lambda>r. lb_id r = lb_id l) ?g (db_libs d)))"
  proof (cases "lib_row (lb_id l) d")
    case None
    then have "update_where (\<lambda>r. lb_id r = lb_id l) ?g (db_libs d) = db_libs d"
      unfolding update_where_def lib_row_def find_row_None_iff by (intro map_idI) (metis image_eqI)
    then show ?thesis using db_okD(5) [OF ok] by simp
  next
    case (Some x)
    with c show ?thesis
      by (intro distinct_update_one [OF db_okD(5) [OF ok] db_okD(1) [OF ok], of _ "lb_path l"]) auto
  qed
  then show "db_ok d'" unfolding d' by (intro db_ok_update_libs [OF ok]) auto
qed

lemma inv_delete_library: "keeps db_inv (delete_library i)"
  unfolding delete_library_def by (rule inv_sql) (auto intro: db_ok_drop_libs)

lemma inv_mark_library_scanned: "keeps db_inv (mark_library_scanned i ts)"
  unfolding mark_library_scanned_def
  by (rule inv_sql) (auto intro!: db_ok_update_libs simp: map_update_same db_okD)

lemma inv_upsert_media_file: "keeps db_inv (upsert_media_file f)"
proof (rule keepsI)
  fix s s' :: store and r
  let ?at = "if mf_scanned f = 0 then s_now s else mf_scanned f"
  let ?row = "f\<lparr>mf_scanned := ?at, mf_sidecars := []\<rparr>"
  let ?F = "\<lambda>d. if lib_row (mf_library f) d = None then None
        else (case file_by_path (mf_path f) d of
            Some old \<Rightarrow> Some (mf_id old, d\<lparr>db_files := update_where (\<lambda>r. mf_path r = mf_path f)
                 (\<lambda>r. ?row\<lparr>mf_id := mf_id r, mf_scanned := max (mf_scanned r) ?at\<rparr>) (db_files d)\<rparr>)
          | None \<Rightarrow> (case insert_row mf_id set_mf_id ?row (db_files d) of
                 (i, rows) \<Rightarrow> Some (i, d\<lparr>db_files := rows\<rparr>)))"
  have "db_ok d'" if ok: "db_ok d" and r: "?F d = Some (a, d')" for d a d'
  proof -
    have l: "mf_library f \<in> lb_id ` set (db_libs d)"
      using r by (auto simp: lib_row_def find_row_None_iff split: if_splits)
    show ?thesis
    proof (cases "file_by_path (mf_path f) d")
      case None
      then have n: "mf_path f \<notin> mf_path ` set (db_files d)" by (simp add: file_by_path_def find_path_None)
      have d': "d' = d\<lparr>db_files := snd (insert_row mf_id set_mf_id ?row (db_files d))\<rparr>"
        using r None by (auto split: prod.splits if_splits)
      show ?thesis using ok n l files.insert_keys [OF db_okD(2) [OF ok], of ?row]
        unfolding d' by (auto simp: db_ok_def insert_row_def set_mf_id_def)
    next
      case (Some old)
      have d': "d' = d\<lparr>db_files := update_where (\<lambda>r. mf_path r = mf_path f)
                 (\<lambda>r. ?row\<lparr>mf_id := mf_id r, mf_scanned := max (mf_scanned r) ?at\<rparr>) (db_files d)\<rparr>"
        using r Some by (auto split: if_splits)
      show ?thesis unfolding d' using l by (intro db_ok_update_files [OF ok]) simp_all
    qed
  qed
  then have "keeps db_inv (sql ?F)" by (rule inv_sql)
  moreover assume "upsert_media_file f s = (r, s')"
  ultimately show "db_inv s s'" unfolding upsert_media_file_def Let_def by (rule keepsD)
qed

lemma inv_touch_file: "keeps db_inv (touch_file i n sm at)"
  unfolding touch_file_def by (rule inv_sql) (auto intro!: db_ok_update_files dest: db_okD(9))

lemma inv_touch_batch: "keeps db_inv (touch_batch ids at)"
  unfolding touch_batch_def by (rule inv_sql) (auto intro!: db_ok_update_files dest: db_okD(9))

lemma inv_touch_batches: "keeps db_inv (touch_batches ids at)"
proof (induction ids at rule: touch_batches.induct)
  case (1 ids at)
  then show ?case
    by (subst touch_batches.simps) (auto intro!: ivf.keeps_ret ivf.keeps_andthen inv_touch_batch)
qed

lemma inv_touch_files_bulk: "keeps db_inv (touch_files_bulk ids at)"
  unfolding touch_files_bulk_def by (auto intro!: ivf.keeps_ret iv.transaction_keeps inv_touch_batches)

lemma inv_prune_files: "keeps db_inv (prune_files lib start)"
  unfolding prune_files_def by (rule inv_sql) (auto simp: Let_def intro: db_ok_drop_files)

lemma inv_prune_files_outside: "keeps db_inv (prune_files_outside lib root)"
  unfolding prune_files_outside_def by (rule inv_sql) (auto simp: Let_def intro: db_ok_drop_files)

lemma inv_upsert_sidecar: "keeps db_inv (upsert_sidecar fid sc)"
  unfolding upsert_sidecar_def
proof (rule inv_sql)
  fix d a d'
  let ?g = "\<lambda>r. sc\<lparr>sc_id := sc_id r, sc_file := fid\<rparr>"
  assume ok: "db_ok d" and r: "(if file_row fid d = None then None
     else if sc_path sc \<in> sc_path ` set (db_sidecars d)
     then Some ((), d\<lparr>db_sidecars := update_where (\<lambda>r. sc_path r = sc_path sc) ?g (db_sidecars d)\<rparr>)
     else Some ((), d\<lparr>db_sidecars := snd (insert_row sc_id set_sc_id (sc\<lparr>sc_file := fid\<rparr>) (db_sidecars d))\<rparr>)) = Some (a, d')"
  then have f: "fid \<in> mf_id ` set (db_files d)" by (auto simp: file_row_def find_row_None_iff split: if_splits)
  show "db_ok d'"
  proof (cases "sc_path sc \<in> sc_path ` set (db_sidecars d)")
    case True
    let ?up = "update_where (\<lambda>r. sc_path r = sc_path sc) ?g (db_sidecars d)"
    have d': "d' = d\<lparr>db_sidecars := ?up\<rparr>" using r True by (auto split: if_splits)
    have m: "map sc_path ?up = map sc_path (db_sidecars d)" by (rule map_update_same) simp
    have k: "keys_ok sc_id ?up" using db_okD(3) [OF ok] by (rule keys_ok_update) simp
    have "\<forall>r \<in> set ?up. sc_file r \<in> mf_id ` set (db_files d)" using f db_okD(10) [OF ok] by auto
    with ok show ?thesis unfolding d' by (simp add: db_ok_def m k del: set_update_where)
  next
    case False
    then have d': "d' = d\<lparr>db_sidecars := snd (insert_row sc_id set_sc_id (sc\<lparr>sc_file := fid\<rparr>) (db_sidecars d))\<rparr>"
      using r by (auto split: if_splits)
    show ?thesis using ok f False sidecars.insert_keys [OF db_okD(3) [OF ok], of "sc\<lparr>sc_file := fid\<rparr>"]
      unfolding d' by (auto simp: db_ok_def insert_row_def set_sc_id_def)
  qed
qed

lemma inv_upsert_sidecars: "keeps db_inv (upsert_sidecars fid scs)"
  by (induction scs) (auto intro!: ivf.keeps_ret ivf.keeps_andthen inv_upsert_sidecar)

lemma inv_replace_sidecars: "keeps db_inv (replace_sidecars fid scs)"
  unfolding replace_sidecars_def
  by (intro iv.transaction_keeps ivf.keeps_andthen inv_sql inv_upsert_sidecars) (auto intro: db_ok_drop_sidecars)

lemma inv_delete_sidecar_row: "keeps db_inv (delete_sidecar_row i)"
  unfolding delete_sidecar_row_def by (rule inv_sql) (auto intro: db_ok_drop_sidecars)

text \<open>An operation that reads the clock is, at each state, one that does not.\<close>

lemma keeps_at: "(\<And>s. \<exists>m'. m s = m' s \<and> keeps R m') \<Longrightarrow> keeps R m"
  unfolding keeps_def by metis

lemma inv_create_job: "keeps db_inv (create_job ty fid p payload)"
proof -
  have "keeps db_inv (sql (\<lambda>d. if fid \<noteq> 0 \<and> file_row fid d = None then None
       else (case insert_row jb_id set_jb_id (new_job ty fid p payload n d) (db_jobs d) of
               (i, rows) \<Rightarrow> Some (set_jb_id i (new_job ty fid p payload n d), d\<lparr>db_jobs := rows\<rparr>))))" for n
  proof (rule inv_sql)
    fix d a d'
    assume ok: "db_ok d" and r: "(if fid \<noteq> 0 \<and> file_row fid d = None then None
       else (case insert_row jb_id set_jb_id (new_job ty fid p payload n d) (db_jobs d) of
               (i, rows) \<Rightarrow> Some (set_jb_id i (new_job ty fid p payload n d), d\<lparr>db_jobs := rows\<rparr>))) = Some (a, d')"
    then have "d' = d\<lparr>db_jobs := snd (insert_row jb_id set_jb_id (new_job ty fid p payload n d) (db_jobs d))\<rparr>"
      by (auto split: if_splits prod.splits)
    with ok r show "db_ok d'"
      by (auto intro!: db_ok_insert_job simp: new_job_def file_row_def find_row_None_iff split: if_splits)
  qed
  then show ?thesis by (intro keeps_at) (blast intro: create_job_def)
qed

lemma inv_claim_next_job: "keeps db_inv claim_next_job"
  unfolding claim_next_job_def by (rule inv_sql) (auto split: option.splits intro!: db_ok_update_jobs)

lemma inv_finish_job: "keeps db_inv (finish_job i st msg saved)"
  by (rule keeps_at, rule exI, rule conjI, rule finish_job_def, rule inv_sql) (auto intro!: db_ok_update_jobs)

lemma inv_cancel_job: "keeps db_inv (cancel_job i)"
  by (rule keeps_at, rule exI, rule conjI, rule cancel_job_def, intro ivf.keeps_andthen ivf.keeps_ensure inv_sql)
    (auto simp: Let_def intro!: db_ok_update_jobs)

lemma inv_query: "keeps db_inv (query f)"
  by (rule iv.query_keeps)

lemma db_ok_retry:
  assumes ok: "db_ok d" and f: "List.find (\<lambda>r. jb_id r = i \<and> retryable (jb_status r)) (db_jobs d) = Some j"
    and i: "insert_row jb_id set_jb_id (retry_row j now) (db_jobs d) = (n, rows)"
  shows "db_ok (d\<lparr>db_jobs := rows\<rparr>)"
proof -
  have "jb_file (retry_row j now) = jb_file j" by (simp add: retry_row_def)
  moreover have "j \<in> set (db_jobs d)" using f by (auto simp: find_Some_iff)
  moreover have "rows = snd (insert_row jb_id set_jb_id (retry_row j now) (db_jobs d))" using i by simp
  ultimately show ?thesis using db_okD(11) [OF ok] by (auto intro: db_ok_insert_job [OF ok])
qed

lemma inv_retry_job: "keeps db_inv (retry_job i)"
  apply (rule keeps_at, rule exI, rule conjI, rule retry_job_def, intro ivf.keeps_andthen inv_sql)
   apply (auto split: option.splits prod.splits simp: get_job_def intro!: ivf.keeps_andthen inv_query ivf.keeps_fail db_ok_retry)
  done

lemma inv_delete_job: "keeps db_inv (delete_job i)"
  unfolding delete_job_def
  by (intro ivf.keeps_andthen ivf.keeps_ensure inv_sql) (auto simp: Let_def intro: db_ok_delete_jobs)

lemma inv_fail_interrupted: "keeps db_inv fail_interrupted"
  by (rule keeps_at, rule exI, rule conjI, rule fail_interrupted_def, rule inv_sql)
    (auto simp: Let_def intro!: db_ok_update_jobs)

lemma inv_set_setting: "keeps db_inv (set_setting k v)"
  unfolding set_setting_def
proof (rule inv_sql)
  fix d a d'
  assume ok: "db_ok d" and r: "Some ((), d\<lparr>db_settings := (if k \<in> fst ` set (db_settings d)
       then map (\<lambda>(k', v'). if k' = k then (k', v) else (k', v')) (db_settings d)
       else db_settings d @ [(k, v)])\<rparr>) = Some (a, d')"
  have m: "map fst (map (\<lambda>(k', v'). if k' = k then (k', v) else (k', v')) (db_settings d)) = map fst (db_settings d)"
    by auto
  from db_okD(8) [OF ok] have "distinct (map fst (if k \<in> fst ` set (db_settings d)
       then map (\<lambda>(k', v'). if k' = k then (k', v) else (k', v')) (db_settings d) else db_settings d @ [(k, v)]))"
    by (simp add: m del: map_map)
  with ok r show "db_ok d'" by (auto simp: db_ok_def)
qed

end
