(* ===== verification/StoreTrace.thy ===== *)
theory StoreTrace
  imports StoreInv
begin

text \<open>
  The database over time: one constructor per method that writes, the states that a sequence of
  calls reaches, and the job table seen as a board of statuses, with the moves a job can make.
\<close>

subsection \<open>Requests\<close>

datatype request =
    AddLibrary library
  | UpdateLibrary library
  | DeleteLibrary int
  | MarkLibraryScanned int int
  | UpsertMediaFile media_file
  | TouchFile int int string int
  | TouchFilesBulk "int list" int
  | PruneFiles int int
  | PruneFilesOutside int path
  | UpsertSidecar int sidecar
  | ReplaceSidecars int "sidecar list"
  | DeleteSidecarRow int
  | CreateJob string int path json
  | ClaimNextJob
  | FinishJob int string string int
  | CancelJob int
  | RetryJob int
  | DeleteJob int
  | FailInterrupted
  | SetSetting string string

fun exec :: "request \<Rightarrow> store \<Rightarrow> store" where
  "exec (AddLibrary l) s = snd (add_library l s)"
| "exec (UpdateLibrary l) s = snd (update_library l s)"
| "exec (DeleteLibrary i) s = snd (delete_library i s)"
| "exec (MarkLibraryScanned i ts) s = snd (mark_library_scanned i ts s)"
| "exec (UpsertMediaFile f) s = snd (upsert_media_file f s)"
| "exec (TouchFile i n sm at) s = snd (touch_file i n sm at s)"
| "exec (TouchFilesBulk ids at) s = snd (touch_files_bulk ids at s)"
| "exec (PruneFiles lib start) s = snd (prune_files lib start s)"
| "exec (PruneFilesOutside lib root) s = snd (prune_files_outside lib root s)"
| "exec (UpsertSidecar fid sc) s = snd (upsert_sidecar fid sc s)"
| "exec (ReplaceSidecars fid scs) s = snd (replace_sidecars fid scs s)"
| "exec (DeleteSidecarRow i) s = snd (delete_sidecar_row i s)"
| "exec (CreateJob ty fid p payload) s = snd (create_job ty fid p payload s)"
| "exec ClaimNextJob s = snd (claim_next_job s)"
| "exec (FinishJob i st msg saved) s = snd (finish_job i st msg saved s)"
| "exec (CancelJob i) s = snd (cancel_job i s)"
| "exec (RetryJob i) s = snd (retry_job i s)"
| "exec (DeleteJob i) s = snd (delete_job i s)"
| "exec FailInterrupted s = snd (fail_interrupted s)"
| "exec (SetSetting k v) s = snd (set_setting k v s)"

definition empty_db :: db where
  "empty_db = \<lparr>db_libs = [], db_files = [], db_sidecars = [], db_jobs = [], db_settings = []\<rparr>"

text \<open>Time passes and statements fail between the calls as they like.\<close>

inductive reached :: "store \<Rightarrow> bool" where
  start: "s_db s = empty_db \<Longrightarrow> reached s"
| call: "reached s \<Longrightarrow> reached (exec r s)"
| outside: "reached s \<Longrightarrow> s_db s' = s_db s \<Longrightarrow> reached s'"

lemma keeps_snd: "keeps R m \<Longrightarrow> R s (snd (m s))"
  by (simp add: keeps_def)

lemmas inv_ops =
  inv_add_library inv_update_library inv_delete_library inv_mark_library_scanned inv_upsert_media_file
  inv_touch_file inv_touch_files_bulk inv_prune_files inv_prune_files_outside inv_upsert_sidecar
  inv_replace_sidecars inv_delete_sidecar_row inv_create_job inv_claim_next_job inv_finish_job
  inv_cancel_job inv_retry_job inv_delete_job inv_fail_interrupted inv_set_setting

lemma inv_exec: "db_inv s (exec r s)"
  by (cases r) (simp_all add: inv_ops [THEN keeps_snd])

lemma exec_ok: "db_ok (s_db s) \<Longrightarrow> db_ok (s_db (exec r s))"
  using inv_exec [of s r] by (simp add: on_db_def inv_db_def)

lemma empty_ok: "db_ok empty_db"
  by (simp add: db_ok_def empty_db_def)

lemma reached_ok: "reached s \<Longrightarrow> db_ok (s_db s)"
  by (induction rule: reached.induct) (simp_all add: empty_ok exec_ok)

subsection \<open>The board of jobs\<close>

definition board :: "db \<Rightarrow> int \<Rightarrow> string option" where
  "board d = map_of (map (\<lambda>j. (jb_id j, jb_status j)) (db_jobs d))"

text \<open>
  The moves of the statuses: what may happen to a job, and to no other at the same time. A job that
  runs is left alone by all but its own end and a restart.
\<close>

inductive calm_step :: "(int \<Rightarrow> string option) \<Rightarrow> (int \<Rightarrow> string option) \<Rightarrow> bool" where
  stay: "calm_step b b"
| enqueue: "b i = None \<Longrightarrow> calm_step b (b(i \<mapsto> ''queued''))"
| claim: "b i = Some ''queued'' \<Longrightarrow> (\<And>k. b k = Some ''queued'' \<Longrightarrow> i \<le> k) \<Longrightarrow>
    calm_step b (b(i \<mapsto> ''running''))"
| cancel: "b i = Some ''queued'' \<Longrightarrow> calm_step b (b(i \<mapsto> ''cancelled''))"
| forget: "b i \<noteq> Some ''running'' \<Longrightarrow> calm_step b (b(i := None))"

inductive board_step :: "(int \<Rightarrow> string option) \<Rightarrow> (int \<Rightarrow> string option) \<Rightarrow> bool" where
  calm: "calm_step b b' \<Longrightarrow> board_step b b'"
| finish: "b i = Some ''running'' \<Longrightarrow> board_step b (b(i \<mapsto> st))"
| restart: "board_step b (\<lambda>i. if b i = Some ''running'' then Some ''failed'' else b i)"

lemma board_Some: "keys_ok jb_id (db_jobs d) \<Longrightarrow> board d i = Some st \<longleftrightarrow> (\<exists>j \<in> set (db_jobs d). jb_id j = i \<and> jb_status j = st)"
  using keys_ok_distinct [of jb_id "db_jobs d"]
  by (auto simp: board_def map_of_eq_Some_iff o_def image_iff)

lemma board_None: "board d i = None \<longleftrightarrow> i \<notin> jb_id ` set (db_jobs d)"
  by (auto simp: board_def map_of_eq_None_iff image_iff)

lemma board_update_one:
  assumes "\<And>j. jb_id (g j) = jb_id j \<and> jb_status (g j) = v"
  shows "board (d\<lparr>db_jobs := update_where (\<lambda>j. jb_id j = i) g js\<rparr>) =
    (\<lambda>k. if k = i \<and> i \<in> jb_id ` set js then Some v else board (d\<lparr>db_jobs := js\<rparr>) k)"
proof -
  have "map_of (map (\<lambda>j. (jb_id j, jb_status j)) (update_where (\<lambda>j. jb_id j = i) g js)) k =
    (if k = i \<and> i \<in> jb_id ` set js then Some v else map_of (map (\<lambda>j. (jb_id j, jb_status j)) js) k)" for k
    using assms by (induction js) (auto simp: update_where_def)
  then show ?thesis by (auto simp: board_def fun_eq_iff)
qed

lemma update_where_cong: "(\<And>r. r \<in> set rows \<Longrightarrow> P r = Q r) \<Longrightarrow> update_where P g rows = update_where Q g rows"
  by (simp add: update_where_def)

lemma delete_where_cong: "(\<And>r. r \<in> set rows \<Longrightarrow> P r = Q r) \<Longrightarrow> delete_where P rows = delete_where Q rows"
  by (auto simp: delete_where_def intro: filter_cong)

lemma update_where_none: "(\<And>r. r \<in> set rows \<Longrightarrow> \<not> P r) \<Longrightarrow> update_where P g rows = rows"
  by (simp add: update_where_def map_idI)

lemma delete_where_none: "(\<And>r. r \<in> set rows \<Longrightarrow> \<not> P r) \<Longrightarrow> delete_where P rows = rows"
  by (simp add: delete_where_def)

lemma board_delete_one:
  "board (d\<lparr>db_jobs := delete_where (\<lambda>j. jb_id j = i) js\<rparr>) = (board (d\<lparr>db_jobs := js\<rparr>))(i := None)"
proof -
  have "map_of (map (\<lambda>j. (jb_id j, jb_status j)) (delete_where (\<lambda>j. jb_id j = i) js)) k =
    (if k = i then None else map_of (map (\<lambda>j. (jb_id j, jb_status j)) js) k)" for k
    by (induction js) (auto simp: delete_where_def)
  then show ?thesis by (auto simp: board_def fun_eq_iff)
qed

lemma board_insert:
  "board (d\<lparr>db_jobs := snd (insert_row jb_id set_jb_id j (db_jobs d))\<rparr>) =
     (board d)(next_id jb_id (db_jobs d) \<mapsto> jb_status j)"
  "board d (next_id jb_id (db_jobs d)) = None"
proof -
  show n: "board d (next_id jb_id (db_jobs d)) = None"
    using jobs.insert_fresh [of j "db_jobs d"] by (simp add: board_None insert_row_def)
  then show "board (d\<lparr>db_jobs := snd (insert_row jb_id set_jb_id j (db_jobs d))\<rparr>) =
     (board d)(next_id jb_id (db_jobs d) \<mapsto> jb_status j)"
    by (auto simp: board_def insert_row_def set_jb_id_def map_add_def fun_eq_iff split: option.splits)
qed

lemma board_same: "map (\<lambda>j. (jb_id j, jb_status j)) js = map (\<lambda>j. (jb_id j, jb_status j)) (db_jobs d) \<Longrightarrow>
    db_jobs d' = js \<Longrightarrow> board d' = board d"
  by (simp add: board_def)

subsection \<open>Operations that leave the board alone\<close>

definition same_board :: "db \<Rightarrow> db \<Rightarrow> bool" where
  "same_board d d' \<longleftrightarrow> board d' = board d"

interpretation bd: db_frame same_board
  by unfold_locales (auto simp: same_board_def)

interpretation bdf: frame "on_db same_board"
  by (rule bd.is_frame)

lemma same_board_jobs: "db_jobs d' = db_jobs d \<Longrightarrow> same_board d d'"
  by (simp add: same_board_def board_def)

lemma drop_files_board [simp]: "same_board d (drop_files P d)"
proof -
  have "map (\<lambda>j. (jb_id j, jb_status j)) (db_jobs (drop_files P d)) = map (\<lambda>j. (jb_id j, jb_status j)) (db_jobs d)"
    by (auto simp: drop_files_def drop_sidecars_def Let_def update_where_def)
  then show ?thesis by (simp add: same_board_def board_def)
qed

lemma drop_libs_board [simp]: "same_board d (drop_libs P d)"
  unfolding drop_libs_def Let_def drop_files_settings_libs
  using drop_files_board [of d] by (simp add: same_board_def board_def)

lemma sql_board: "(\<And>d a d'. f d = Some (a, d') \<Longrightarrow> same_board d d') \<Longrightarrow> keeps (on_db same_board) (sql f)"
  by (rule bd.sql_keeps)

lemma upsert_sidecar_board: "keeps (on_db same_board) (upsert_sidecar fid sc)"
  unfolding upsert_sidecar_def by (rule sql_board) (auto intro: same_board_jobs split: if_splits)

lemma touch_batches_board: "keeps (on_db same_board) (touch_batches ids at)"
proof (induction ids at rule: touch_batches.induct)
  case (1 ids at)
  have "keeps (on_db same_board) (touch_batch b at)" for b
    unfolding touch_batch_def by (rule sql_board) (auto intro: same_board_jobs)
  with 1 show ?case
    by (subst touch_batches.simps) (auto intro!: bdf.keeps_ret bdf.keeps_andthen)
qed

lemma board_kept:
  "keeps (on_db same_board) (add_library l)"
  "keeps (on_db same_board) (delete_library i)"
  "keeps (on_db same_board) (mark_library_scanned i ts)"
  "keeps (on_db same_board) (touch_file i n sm at)"
  "keeps (on_db same_board) (touch_files_bulk ids at)"
  "keeps (on_db same_board) (prune_files lib start)"
  "keeps (on_db same_board) (prune_files_outside lib root)"
  "keeps (on_db same_board) (delete_sidecar_row i)"
  "keeps (on_db same_board) (set_setting k v)"
  unfolding add_library_def delete_library_def mark_library_scanned_def touch_file_def
    touch_files_bulk_def prune_files_def prune_files_outside_def delete_sidecar_row_def set_setting_def
  by (auto intro!: sql_board bdf.keeps_ret bd.transaction_keeps touch_batches_board intro: same_board_jobs
      simp: Let_def drop_sidecars_def insert_row_def split: if_splits)

lemma board_kept_update_library: "keeps (on_db same_board) (update_library l)"
  unfolding update_library_def
  by (intro bd.transaction_keeps bdf.keeps_andthen sql_board)
    (auto simp: bd.db_refl intro: same_board_jobs split: option.splits if_splits)

lemma board_kept_upsert: "keeps (on_db same_board) (upsert_media_file f)"
  by (rule keeps_at, rule exI, rule conjI, rule upsert_media_file_def [unfolded Let_def], rule sql_board)
    (auto intro: same_board_jobs split: option.splits if_splits prod.splits)

lemma board_kept_sidecars:
  "keeps (on_db same_board) (upsert_sidecars fid scs)" "keeps (on_db same_board) (replace_sidecars fid scs)"
proof -
  show u: "keeps (on_db same_board) (upsert_sidecars fid scs)" for scs
    by (induction scs) (auto intro!: bdf.keeps_ret bdf.keeps_andthen upsert_sidecar_board)
  show "keeps (on_db same_board) (replace_sidecars fid scs)"
    unfolding replace_sidecars_def
    by (intro bd.transaction_keeps bdf.keeps_andthen sql_board u) (auto simp: drop_sidecars_def intro: same_board_jobs)
qed

lemmas all_board_kept = board_kept board_kept_update_library board_kept_upsert board_kept_sidecars upsert_sidecar_board

lemma board_kept_step: "keeps (on_db same_board) m \<Longrightarrow> calm_step (board (s_db s)) (board (s_db (snd (m s))))"
  using keeps_snd [of "on_db same_board" m s] by (simp add: on_db_def same_board_def calm_step.stay)

end
