(* ===== verification/JobProps.thy ===== *)
theory JobProps
  imports StoreTrace
begin

text \<open>
  The job queue of the store against the board of statuses: what each call does to the rows, and
  the simulation of every call by a move of the board.
\<close>

subsection \<open>Statements by cases\<close>

lemma sqlE:
  assumes "sql f s = (r, s')"
  obtains "r = Inl SqlError" "s_db s' = s_db s"
  | a d' where "f (s_db s) = Some (a, d')" "r = Inr a" "s_db s' = d'"
  using assms by (auto simp: sql_def sql_fault_def split: prod.splits list.splits if_splits option.splits)

lemma queryE:
  assumes "query f s = (r, s')"
  obtains "r = Inl SqlError" "s_db s' = s_db s" | "r = Inr (f (s_db s))" "s_db s' = s_db s"
  using assms unfolding query_def by (rule sqlE) (use that in auto)

lemma query_db: "query f s = (r, s') \<Longrightarrow> s_db s' = s_db s"
  by (erule queryE) auto

lemma count_where_0: "count_where P rows = 0 \<longleftrightarrow> (\<forall>r \<in> set rows. \<not> P r)"
  by (auto simp: count_where_def filter_empty_conv)

lemma count_where_pos: "count_where P rows = n \<Longrightarrow> n \<noteq> 0 \<Longrightarrow> \<exists>r \<in> set rows. P r"
  using count_where_0 [of P rows] by auto

lemma find_first:
  "sorted_wrt (<) (map f xs) \<Longrightarrow> List.find P xs = Some x \<Longrightarrow>
     x \<in> set xs \<and> P x \<and> (\<forall>y \<in> set xs. P y \<longrightarrow> f x \<le> (f y :: int))"
  by (induction xs) (fastforce split: if_splits)+

lemma job_row_eq: "db_ok d \<Longrightarrow> job_row i d = Some j \<longleftrightarrow> j \<in> set (db_jobs d) \<and> jb_id j = i"
  unfolding job_row_def by (rule find_row_eq) (rule db_okD)

lemma job_row_None: "job_row i d = None \<longleftrightarrow> i \<notin> jb_id ` set (db_jobs d)"
  by (simp add: job_row_def find_row_None_iff)

lemma first_queuedD:
  assumes "db_ok d" "first_queued (db_jobs d) = Some j"
  shows "job_row (jb_id j) d = Some j" "jb_status j = ''queued''"
    "\<And>k. k \<in> set (db_jobs d) \<Longrightarrow> jb_status k = ''queued'' \<Longrightarrow> jb_id j \<le> jb_id k"
proof -
  have "sorted_wrt (<) (map jb_id (db_jobs d))" using db_okD(4) [OF assms(1)] by (simp add: keys_ok_def)
  from find_first [OF this assms(2) [unfolded first_queued_def]] job_row_eq [OF assms(1)]
  show "job_row (jb_id j) d = Some j" "jb_status j = ''queued''"
    "\<And>k. k \<in> set (db_jobs d) \<Longrightarrow> jb_status k = ''queued'' \<Longrightarrow> jb_id j \<le> jb_id k" by auto
qed

lemma job_row_update:
  assumes "db_ok d" "\<And>r. jb_id (g r) = jb_id r"
  shows "job_row i (d\<lparr>db_jobs := update_where P g (db_jobs d)\<rparr>) =
    map_option (\<lambda>r. if P r then g r else r) (job_row i d)"
proof (cases "job_row i d")
  case None
  moreover have "jb_id ` set (update_where P g (db_jobs d)) = jb_id ` set (db_jobs d)"
    by (rule image_update_same) (rule assms(2))
  ultimately have "job_row i (d\<lparr>db_jobs := update_where P g (db_jobs d)\<rparr>) = None"
    by (simp add: job_row_None del: set_update_where)
  with None show ?thesis by simp
next
  case (Some j)
  then show ?thesis
    using jobs.find_updated [OF db_okD(4) [OF assms(1)], of i j g P] assms(2) by (simp add: job_row_def)
qed

lemma job_row_delete:
  assumes "db_ok d"
  shows "job_row i (d\<lparr>db_jobs := delete_where P (db_jobs d)\<rparr>) =
    (case job_row i d of Some r \<Rightarrow> if P r then None else Some r | None \<Rightarrow> None)"
proof -
  let ?d = "d\<lparr>db_jobs := delete_where P (db_jobs d)\<rparr>"
  have e: "job_row i ?d = Some j \<longleftrightarrow> job_row i d = Some j \<and> \<not> P j" for j
    using job_row_eq [OF assms, of i j] job_row_eq [OF db_ok_delete_jobs [OF assms], of i P j] by auto
  show ?thesis
  proof (cases "job_row i ?d")
    case None
    then have "\<not> (job_row i d = Some j \<and> \<not> P j)" for j using e [of j] by simp
    with None show ?thesis by (simp split: option.splits)
  next
    case (Some j)
    then have "job_row i d = Some j \<and> \<not> P j" using e [of j] by simp
    with Some show ?thesis by simp
  qed
qed

lemma job_row_insert:
  assumes "db_ok d"
  shows "job_row i (d\<lparr>db_jobs := snd (insert_row jb_id set_jb_id j (db_jobs d))\<rparr>) =
    (if i = next_id jb_id (db_jobs d) then Some (set_jb_id i j) else job_row i d)"
proof -
  let ?n = "next_id jb_id (db_jobs d)"
  have k: "keys_ok jb_id (db_jobs d)" by (rule db_okD) (rule assms)
  note eq = find_row_eq [OF jobs.insert_keys [OF k, of j]]
  show ?thesis
  proof (cases "i = ?n")
    case True
    then show ?thesis using jobs.find_inserted [OF k, of j] by (simp add: job_row_def insert_row_def)
  next
    case False
    have "job_row i (d\<lparr>db_jobs := snd (insert_row jb_id set_jb_id j (db_jobs d))\<rparr>) = Some q \<longleftrightarrow> job_row i d = Some q" for q
      using eq [of i q] job_row_eq [OF assms] False
      by (auto simp: job_row_def insert_row_def set_jb_id_def)
    then show ?thesis using False by (metis option.exhaust)
  qed
qed

lemma job_row_fresh: "db_ok d \<Longrightarrow> job_row (next_id jb_id (db_jobs d)) d = None"
  using jobs.insert_fresh [of undefined "db_jobs d"] by (simp add: job_row_def find_row_None_iff insert_row_def)

subsection \<open>Every call is a move\<close>

lemma board_row: "db_ok d \<Longrightarrow> board d i = map_option jb_status (job_row i d)"
proof (cases "job_row i d")
  case None
  then have "board d i = None" by (simp add: board_None job_row_None)
  with None show ?thesis by simp
next
  case (Some j)
  moreover assume ok: "db_ok d"
  ultimately have "j \<in> set (db_jobs d)" "jb_id j = i" using job_row_eq [OF ok] by auto
  then have "board d i = Some (jb_status j)" by (auto simp: board_Some [OF db_okD(4) [OF ok]])
  with Some show ?thesis by simp
qed

lemma step_create: "calm_step (board (s_db s)) (board (s_db (snd (create_job ty fid p payload s))))"
proof -
  obtain r s' where m: "create_job ty fid p payload s = (r, s')" by fastforce
  let ?j = "new_job ty fid p payload (s_now s) (s_db s)"
  have "s_db s' = s_db s \<or> s_db s' = (s_db s)\<lparr>db_jobs := snd (insert_row jb_id set_jb_id ?j (db_jobs (s_db s)))\<rparr>"
    using m unfolding create_job_def by (elim sqlE) (auto split: if_splits prod.splits)
  moreover have "calm_step (board (s_db s)) ((board (s_db s))(next_id jb_id (db_jobs (s_db s)) \<mapsto> ''queued''))"
    by (rule calm_step.enqueue) (rule board_insert)
  ultimately show ?thesis
    by (auto simp: m board_insert(1) new_job_def intro: calm_step.stay)
qed

lemma step_claim:
  assumes ok: "db_ok (s_db s)"
  shows "calm_step (board (s_db s)) (board (s_db (snd (claim_next_job s))))"
proof -
  obtain r s' where m: "claim_next_job s = (r, s')" by fastforce
  let ?d = "s_db s"
  let ?up = "\<lambda>j. ?d\<lparr>db_jobs := update_where (\<lambda>r. jb_id r = jb_id j) (\<lambda>r. r\<lparr>jb_status := ''running''\<rparr>) (db_jobs ?d)\<rparr>"
  have "s_db s' = ?d \<or> (\<exists>j. first_queued (db_jobs ?d) = Some j \<and> s_db s' = ?up j)"
    using m unfolding claim_next_job_def by (elim sqlE) (auto split: option.splits)
  then show ?thesis
  proof (elim disjE exE conjE)
    fix j
    assume j: "first_queued (db_jobs ?d) = Some j" and s': "s_db s' = ?up j"
    have b: "board ?d (jb_id j) = Some ''queued''" using first_queuedD(1,2) [OF ok j] by (simp add: board_row ok)
    have "jb_id j \<le> k" if "board ?d k = Some ''queued''" for k
      using first_queuedD(3) [OF ok j] that by (auto simp: board_Some [OF db_okD(4) [OF ok]])
    moreover have "board (?up j) = (board ?d)(jb_id j \<mapsto> ''running'')"
      using b by (subst board_update_one [of _ "''running''"]) (auto simp: fun_eq_iff board_None [symmetric])
    ultimately show ?thesis by (simp add: m s' calm_step.claim b)
  qed (simp add: m calm_step.stay)
qed

text \<open>A change of the one row with a status.\<close>

lemma board_update_status:
  assumes ok: "db_ok d" and b: "board d i = Some st" and g: "\<And>r. jb_id (g r) = jb_id r \<and> jb_status (g r) = st'"
    and P: "\<And>r. P r \<longleftrightarrow> jb_id r = i \<and> jb_status r = st"
  shows "board (d\<lparr>db_jobs := update_where P g (db_jobs d)\<rparr>) = (board d)(i \<mapsto> st')"
proof -
  have "update_where P g (db_jobs d) = update_where (\<lambda>r. jb_id r = i) g (db_jobs d)"
    using b P keys_ok_inj [OF db_okD(4) [OF ok]]
    by (intro update_where_cong) (auto simp: board_Some [OF db_okD(4) [OF ok]])
  with b show ?thesis using g
    by (auto simp: board_update_one [of g st'] fun_eq_iff board_None [symmetric])
qed

lemma step_finish:
  assumes ok: "db_ok (s_db s)" and b: "board (s_db s) i = Some ''running''"
  shows "board_step (board (s_db s)) (board (s_db (snd (finish_job i st msg saved s))))"
proof -
  obtain r s' where m: "finish_job i st msg saved s = (r, s')" by fastforce
  let ?g = "\<lambda>r. r\<lparr>jb_status := st, jb_log := msg, jb_saved := saved, jb_finished := s_now s\<rparr>"
  have "s_db s' = s_db s \<or> s_db s' = (s_db s)\<lparr>db_jobs := update_where (\<lambda>r. jb_id r = i) ?g (db_jobs (s_db s))\<rparr>"
    using m unfolding finish_job_def by (elim sqlE) auto
  moreover have "board ((s_db s)\<lparr>db_jobs := update_where (\<lambda>r. jb_id r = i) ?g (db_jobs (s_db s))\<rparr>) = (board (s_db s))(i \<mapsto> st)"
    using b by (subst board_update_one [of _ st]) (auto simp: fun_eq_iff board_None [symmetric])
  moreover have "board_step (board (s_db s)) ((board (s_db s))(i \<mapsto> st))" by (rule board_step.finish) (rule b)
  ultimately show ?thesis by (auto simp: m intro: board_step.calm [OF calm_step.stay])
qed

definition cancelled :: "int \<Rightarrow> int \<Rightarrow> db \<Rightarrow> db" where
  "cancelled i now d = d\<lparr>db_jobs := update_where (\<lambda>r. jb_id r = i \<and> jb_status r = ''queued'')
     (\<lambda>r. r\<lparr>jb_status := ''cancelled'', jb_log := ''cancelled by user'', jb_finished := now\<rparr>) (db_jobs d)\<rparr>"

lemma cancel_cases:
  assumes m: "cancel_job i s = (r, s')"
  obtains "\<not> is_ok r" "s_db s' = s_db s" "r = Inl (JobNotQueued i) \<Longrightarrow> \<forall>j \<in> set (db_jobs (s_db s)). jb_id j = i \<longrightarrow> jb_status j \<noteq> ''queued''"
  | j where "r = Inr ()" "j \<in> set (db_jobs (s_db s))" "jb_id j = i" "jb_status j = ''queued''"
      "s_db s' = cancelled i (s_now s) (s_db s)"
proof -
  let ?P = "\<lambda>r. jb_id r = i \<and> jb_status r = ''queued''"
  let ?F = "\<lambda>d. Some (count_where ?P (db_jobs d), cancelled i (s_now s) d)"
  obtain x s1 where q: "sql ?F s = (x, s1)" by fastforce
  have m': "andthen (sql ?F) (\<lambda>rows. ensure (rows \<noteq> 0) (JobNotQueued i)) s = (r, s')"
    using m by (simp add: cancel_job_def cancelled_def Let_def)
  from q show thesis
  proof (cases rule: sqlE)
    case 1
    with m' q have "r = Inl SqlError" "s' = s1" by (simp_all add: andthen_def)
    with 1 that(1) show ?thesis by simp
  next
    case (2 a d')
    show ?thesis
    proof (cases "a = 0")
      case True
      then have none: "\<forall>j \<in> set (db_jobs (s_db s)). \<not> ?P j" using 2(1) by (simp add: count_where_0)
      then have "cancelled i (s_now s) (s_db s) = s_db s" by (simp add: cancelled_def update_where_none)
      with True none 2 m' q that(1) show ?thesis by (auto simp: andthen_def)
    next
      case False
      with 2(1) obtain j where "j \<in> set (db_jobs (s_db s))" "?P j"
        using count_where_pos [of ?P "db_jobs (s_db s)" a] by auto
      with False 2 m' q that(2) show ?thesis by (auto simp: andthen_def)
    qed
  qed
qed

lemma step_cancel:
  assumes ok: "db_ok (s_db s)"
  shows "calm_step (board (s_db s)) (board (s_db (snd (cancel_job i s))))"
proof -
  obtain r s' where m: "cancel_job i s = (r, s')" by fastforce
  from m show ?thesis
  proof (cases rule: cancel_cases)
    case (2 j)
    then have b: "board (s_db s) i = Some ''queued''" by (auto simp: board_Some [OF db_okD(4) [OF ok]])
    have "board (s_db s') = (board (s_db s))(i \<mapsto> ''cancelled'')"
      unfolding 2(5) cancelled_def by (rule board_update_status [OF ok b]) auto
    then show ?thesis by (simp add: m calm_step.cancel b)
  qed (simp add: m calm_step.stay)
qed

lemma retry_cases:
  assumes m: "retry_job i s = (r, s')"
  obtains "s_db s' = s_db s" "\<not> is_ok r" 
  | j where "List.find (\<lambda>r. jb_id r = i \<and> retryable (jb_status r)) (db_jobs (s_db s)) = Some j"
      "s_db s' = (s_db s)\<lparr>db_jobs := snd (insert_row jb_id set_jb_id (retry_row j (s_now s)) (db_jobs (s_db s)))\<rparr>"
      "r = Inr (job_row (next_id jb_id (db_jobs (s_db s))) (s_db s')) \<or> r = Inl SqlError"
proof -
  let ?find = "\<lambda>d. List.find (\<lambda>r. jb_id r = i \<and> retryable (jb_status r)) (db_jobs d)"
  let ?F = "\<lambda>d. case ?find d of None \<Rightarrow> Some (None, d)
       | Some j \<Rightarrow> (case insert_row jb_id set_jb_id (retry_row j (s_now s)) (db_jobs d) of
              (n, rows) \<Rightarrow> Some (Some n, d\<lparr>db_jobs := rows\<rparr>))"
  obtain x s1 where q: "sql ?F s = (x, s1)" by fastforce
  note m' = m [unfolded retry_job_def andthen_def [of "sql ?F"] q]
  from q show thesis
  proof (cases rule: sqlE)
    case 1
    with m' have "r = Inl SqlError" "s' = s1" by simp_all
    with 1 that(1) show ?thesis by simp
  next
    case (2 a d')
    show ?thesis
    proof (cases "?find (s_db s)")
      case None
      with 2 have a: "x = Inr None" "s_db s1 = s_db s" by auto
      have "s_db s' = s_db s1" "\<not> is_ok r"
        using m' a(1) unfolding get_job_def andthen_def
        by (auto split: prod.splits sum.splits option.splits dest: query_db)
      with a that(1) show ?thesis by simp
    next
      case (Some j)
      let ?n = "next_id jb_id (db_jobs (s_db s))"
      from Some 2 have a: "x = Inr (Some ?n)"
        "s_db s1 = (s_db s)\<lparr>db_jobs := snd (insert_row jb_id set_jb_id (retry_row j (s_now s)) (db_jobs (s_db s)))\<rparr>"
        by (auto simp: insert_row_def)
      with m' have g: "query (job_row ?n) s1 = (r, s')" by (simp add: get_job_def)
      then show ?thesis using that(2) [OF Some] a(2) by (cases rule: queryE) auto
    qed
  qed
qed

lemma step_retry:
  assumes ok: "db_ok (s_db s)"
  shows "calm_step (board (s_db s)) (board (s_db (snd (retry_job i s))))"
proof -
  obtain r s' where m: "retry_job i s = (r, s')" by fastforce
  let ?d = "s_db s"
  have "s_db s' = ?d \<or> (\<exists>j. s_db s' = ?d\<lparr>db_jobs := snd (insert_row jb_id set_jb_id (retry_row j (s_now s)) (db_jobs ?d))\<rparr>)"
    using m by (cases rule: retry_cases) auto
  moreover have "calm_step (board ?d) ((board ?d)(next_id jb_id (db_jobs ?d) \<mapsto> ''queued''))"
    by (rule calm_step.enqueue) (rule board_insert)
  ultimately show ?thesis
    by (auto simp: m board_insert(1) retry_row_def intro: calm_step.stay)
qed

lemma delete_cases:
  assumes m: "delete_job i s = (r, s')"
  obtains "\<not> is_ok r" "s_db s' = s_db s"
  | j where "r = Inr ()" "j \<in> set (db_jobs (s_db s))" "jb_id j = i" "jb_status j \<noteq> ''running''"
      "s_db s' = (s_db s)\<lparr>db_jobs := delete_where (\<lambda>r. jb_id r = i \<and> jb_status r \<noteq> ''running'') (db_jobs (s_db s))\<rparr>"
proof -
  let ?P = "\<lambda>r. jb_id r = i \<and> jb_status r \<noteq> ''running''"
  let ?F = "\<lambda>d. Some (count_where ?P (db_jobs d), d\<lparr>db_jobs := delete_where ?P (db_jobs d)\<rparr>)"
  obtain x s1 where q: "sql ?F s = (x, s1)" by fastforce
  have m': "andthen (sql ?F) (\<lambda>rows. ensure (rows \<noteq> 0) (JobRunning i)) s = (r, s')"
    using m by (simp add: delete_job_def Let_def)
  from q show thesis
  proof (cases rule: sqlE)
    case 1
    with m' q have "r = Inl SqlError" "s' = s1" by (simp_all add: andthen_def)
    with 1 that(1) show ?thesis by simp
  next
    case (2 a d')
    show ?thesis
    proof (cases "a = 0")
      case True
      then have "\<forall>j \<in> set (db_jobs (s_db s)). \<not> ?P j" using 2(1) by (simp add: count_where_0)
      then have "delete_where ?P (db_jobs (s_db s)) = db_jobs (s_db s)" by (simp add: delete_where_none)
      with True 2 m' q that(1) show ?thesis by (auto simp: andthen_def)
    next
      case False
      with 2(1) obtain j where "j \<in> set (db_jobs (s_db s))" "?P j"
        using count_where_pos [of ?P "db_jobs (s_db s)" a] by auto
      with False 2 m' q that(2) show ?thesis by (auto simp: andthen_def)
    qed
  qed
qed

lemma step_delete:
  assumes ok: "db_ok (s_db s)"
  shows "calm_step (board (s_db s)) (board (s_db (snd (delete_job i s))))"
proof -
  obtain r s' where m: "delete_job i s = (r, s')" by fastforce
  then show ?thesis
  proof (cases rule: delete_cases)
    case (2 j)
    let ?js = "db_jobs (s_db s)"
    have b: "board (s_db s) i \<noteq> Some ''running''"
      using 2(2,3,4) keys_ok_inj [OF db_okD(4) [OF ok]] by (auto simp: board_Some [OF db_okD(4) [OF ok]])
    have "delete_where (\<lambda>r. jb_id r = i \<and> jb_status r \<noteq> ''running'') ?js = delete_where (\<lambda>r. jb_id r = i) ?js"
      using 2(2,3,4) keys_ok_inj [OF db_okD(4) [OF ok]] by (intro delete_where_cong) auto
    then have "board (s_db s') = (board (s_db s))(i := None)" by (simp add: 2(5) board_delete_one)
    then show ?thesis by (simp add: m calm_step.forget b)
  qed (simp add: m calm_step.stay)
qed

lemma step_restart: "board_step (board (s_db s)) (board (s_db (snd (fail_interrupted s))))"
proof -
  obtain r s' where m: "fail_interrupted s = (r, s')" by fastforce
  let ?up = "update_where (\<lambda>r. jb_status r = ''running'')
    (\<lambda>r. r\<lparr>jb_status := ''failed'', jb_log := ''interrupted by restart'', jb_finished := s_now s\<rparr>)"
  have "s_db s' = s_db s \<or> s_db s' = (s_db s)\<lparr>db_jobs := ?up (db_jobs (s_db s))\<rparr>"
    using m unfolding fail_interrupted_def by (elim sqlE) (auto simp: Let_def)
  moreover have up: "map_of (map (\<lambda>j. (jb_id j, jb_status j)) (?up js)) =
    (\<lambda>k. if map_of (map (\<lambda>j. (jb_id j, jb_status j)) js) k = Some ''running'' then Some ''failed''
     else map_of (map (\<lambda>j. (jb_id j, jb_status j)) js) k)" for js
    by (induction js) (auto simp: update_where_def fun_eq_iff)
  have "board ((s_db s)\<lparr>db_jobs := ?up (db_jobs (s_db s))\<rparr>) =
    (\<lambda>i. if board (s_db s) i = Some ''running'' then Some ''failed'' else board (s_db s) i)"
    using up [of "db_jobs (s_db s)"] unfolding board_def by simp
  ultimately show ?thesis using board_step.restart [of "board (s_db s)"]
    by (auto simp: m intro: board_step.calm [OF calm_step.stay])
qed

text \<open>A caller that finishes only jobs that run; the calls that end no run.\<close>

fun finishes_running :: "request \<Rightarrow> db \<Rightarrow> bool" where
  "finishes_running (FinishJob i st msg saved) d = (board d i = Some ''running'')"
| "finishes_running _ d = True"

fun is_calm :: "request \<Rightarrow> bool" where
  "is_calm (FinishJob i st msg saved) = False"
| "is_calm FailInterrupted = False"
| "is_calm _ = True"

lemma exec_calm_step:
  assumes "db_ok (s_db s)" "is_calm r"
  shows "calm_step (board (s_db s)) (board (s_db (exec r s)))"
  using assms
  by (cases r) (simp_all add: board_kept_step all_board_kept step_create step_claim step_cancel step_retry step_delete)

lemma exec_board_step:
  assumes "db_ok (s_db s)" "finishes_running r (s_db s)"
  shows "board_step (board (s_db s)) (board (s_db (exec r s)))"
proof (cases "is_calm r")
  case True
  with assms show ?thesis by (intro board_step.calm exec_calm_step)
next
  case False
  with assms show ?thesis by (cases r) (simp_all add: step_finish step_restart)
qed

text \<open>A status that is neither queued nor running is final: the job can only be forgotten.\<close>

definition final :: "string \<Rightarrow> bool" where
  "final st \<longleftrightarrow> st \<noteq> ''queued'' \<and> st \<noteq> ''running''"

inductive_cases calm_stepE: "calm_step b b'"
inductive_cases board_stepE: "board_step b b'"

lemma board_final:
  "board_step b b' \<Longrightarrow> b i = Some st \<Longrightarrow> final st \<Longrightarrow> b' i = Some st \<or> b' i = None"
  by (erule board_stepE; (erule calm_stepE)?) (auto simp: final_def)

lemma calm_running: "calm_step b b' \<Longrightarrow> b i = Some ''running'' \<Longrightarrow> b' i = Some ''running''"
  by (erule calm_stepE) auto

text \<open>A finished job is outside every call but its own finish.\<close>

fun leaves_job :: "int \<Rightarrow> request \<Rightarrow> bool" where
  "leaves_job i (FinishJob k st msg saved) = (k \<noteq> i)"
| "leaves_job i FailInterrupted = False"
| "leaves_job i _ = True"

lemma exec_running:
  assumes ok: "db_ok (s_db s)" and l: "leaves_job i r" and b: "board (s_db s) i = Some ''running''"
  shows "board (s_db (exec r s)) i = Some ''running''"
proof (cases "is_calm r")
  case True
  from calm_running [OF exec_calm_step [OF ok this] b] show ?thesis .
next
  case False
  with l obtain k st msg saved where r: "r = FinishJob k st msg saved" "k \<noteq> i" by (cases r) auto
  obtain x s' where m: "finish_job k st msg saved s = (x, s')" by fastforce
  let ?g = "\<lambda>r. r\<lparr>jb_status := st, jb_log := msg, jb_saved := saved, jb_finished := s_now s\<rparr>"
  have "s_db s' = s_db s \<or> s_db s' = (s_db s)\<lparr>db_jobs := update_where (\<lambda>r. jb_id r = k) ?g (db_jobs (s_db s))\<rparr>"
    using m unfolding finish_job_def by (elim sqlE) auto
  then have "board (s_db s') i = board (s_db s) i"
    using r(2) board_update_one [where g = ?g and v = st and d = "s_db s" and i = k and js = "db_jobs (s_db s)"] by auto
  with b r m show ?thesis by simp
qed

lemma execs_running:
  "db_ok (s_db s) \<Longrightarrow> list_all (leaves_job i) rs \<Longrightarrow> board (s_db s) i = Some ''running'' \<Longrightarrow>
     board (s_db (fold exec rs s)) i = Some ''running'' \<and> db_ok (s_db (fold exec rs s))"
  by (induction rs arbitrary: s) (simp_all add: exec_running exec_ok)

end
