(* ===== verification/FileProps.thy ===== *)
theory FileProps
  imports JobProps "HOL-Library.Multiset"
begin

text \<open>
  The media tables: escaped patterns are literal text, listings are slices of one order, batches
  equal single updates, pruning removes the stale rows and their dependants and no other.
\<close>

subsection \<open>Patterns\<close>

lemma like_percent: "like (CHR ''%'' # ps) s \<longleftrightarrow> (\<exists>n \<le> length s. like ps (drop n s))"
proof (induction s)
  case Nil
  then show ?case by (simp add: like.simps(2))
next
  case (Cons c s)
  have "(\<exists>n \<le> length (c # s). like ps (drop n (c # s))) \<longleftrightarrow>
    like ps (c # s) \<or> (\<exists>n \<le> length s. like ps (drop n s))"
    by (metis (no_types, opaque_lifting) Suc_le_mono bot_nat_0.extremum drop0 drop_Suc_Cons length_Cons not0_implies_Suc)
  with Cons show ?case by (simp add: like.simps(2))
qed

lemma like_any: "like ''%'' s"
  unfolding like_percent by (intro exI [of _ "length s"]) simp

lemma like_literal:
  "c \<noteq> CHR ''%'' \<Longrightarrow> c \<noteq> CHR ''_'' \<Longrightarrow> c \<noteq> CHR 0x5C \<Longrightarrow>
     like (c # ps) s \<longleftrightarrow> s \<noteq> [] \<and> ascii_fold c = ascii_fold (hd s) \<and> like ps (tl s)"
  by (simp add: like.simps(2))

lemma like_escaped:
  "like (CHR 0x5C # c # ps) s \<longleftrightarrow> s \<noteq> [] \<and> ascii_fold c = ascii_fold (hd s) \<and> like ps (tl s)"
  by (simp add: like.simps(2))

lemma like_escape_like:
  "like (escape_like q @ ps) s \<longleftrightarrow> length q \<le> length s \<and>
     map ascii_fold (take (length q) s) = map ascii_fold q \<and> like ps (drop (length q) s)"
proof (induction q arbitrary: s)
  case (Cons c q)
  have "like (escape_like (c # q) @ ps) s \<longleftrightarrow>
    s \<noteq> [] \<and> ascii_fold c = ascii_fold (hd s) \<and> like (escape_like q @ ps) (tl s)"
    by (simp add: like_literal like_escaped)
  with Cons show ?case by (cases s) auto
qed simp

lemma like_infix: "like (''%'' @ escape_like q @ ''%'') s \<longleftrightarrow> sublist (map ascii_fold q) (map ascii_fold s)"
proof -
  have "like (''%'' @ escape_like q @ ''%'') s \<longleftrightarrow>
    (\<exists>n \<le> length s. length q \<le> length s - n \<and> map ascii_fold (take (length q) (drop n s)) = map ascii_fold q)"
    using like_percent [of "escape_like q @ ''%''" s] by (simp add: like_escape_like like_any)
  also have "\<dots> \<longleftrightarrow> sublist (map ascii_fold q) (map ascii_fold s)"
  proof
    assume "\<exists>n \<le> length s. length q \<le> length s - n \<and> map ascii_fold (take (length q) (drop n s)) = map ascii_fold q"
    then obtain n where n: "map ascii_fold (take (length q) (drop n s)) = map ascii_fold q" by blast
    have "s = take n s @ take (length q) (drop n s) @ drop (length q) (drop n s)" by (simp only: append_take_drop_id)
    then have "map ascii_fold s = map ascii_fold (take n s) @ map ascii_fold q @ map ascii_fold (drop (length q) (drop n s))"
      using n by (metis map_append)
    then show "sublist (map ascii_fold q) (map ascii_fold s)" unfolding sublist_def by blast
  next
    assume "sublist (map ascii_fold q) (map ascii_fold s)"
    then obtain a b where ab: "map ascii_fold s = a @ map ascii_fold q @ b" by (auto simp: sublist_def)
    have "length s = length a + length q + length b"
      using arg_cong [OF ab, of length] by simp
    moreover have "map ascii_fold (take (length q) (drop (length a) s)) = map ascii_fold q"
      using ab by (simp add: take_map [symmetric] drop_map [symmetric])
    ultimately show "\<exists>n \<le> length s. length q \<le> length s - n \<and> map ascii_fold (take (length q) (drop n s)) = map ascii_fold q"
      by (intro exI [of _ "length a"]) simp
  qed
  finally show ?thesis .
qed

subsection \<open>Listing\<close>

lemma ordered_mset: "mset (ordered f ms) = mset ms"
  by (simp add: ordered_def Let_def)

definition row_order :: "file_filter \<Rightarrow> media_file \<Rightarrow> media_file \<Rightarrow> bool" where
  "row_order f a b \<longleftrightarrow>
     (if to_lower (ff_order f) = ''desc'' then sort_row (ff_sort f) b \<le> sort_row (ff_sort f) a
      else sort_row (ff_sort f) a \<le> sort_row (ff_sort f) b)"

lemma ordered_sorted: "sorted_wrt (row_order f) (ordered f ms)"
proof -
  have "sorted_wrt (\<lambda>a b. sort_row (ff_sort f) a \<le> sort_row (ff_sort f) b) (sort_key (sort_row (ff_sort f)) ms)"
    using sorted_sort_key [of "sort_row (ff_sort f)" ms] by (simp add: sorted_map)
  then show ?thesis
    by (cases "to_lower (ff_order f) = ''desc''") (simp_all add: ordered_def row_order_def [abs_def] Let_def sorted_wrt_rev)
qed

lemma file_limit_bounds: "1 \<le> file_limit n" "file_limit n \<le> 500"
  by (auto simp: file_limit_def)

lemma list_files_InrE:
  assumes "list_files f s = (Inr (ms, n), s')"
  obtains "s_db s' = s_db s" "n = count_where (matches_filter f) (db_files (s_db s))"
    "ms = map (\<lambda>m. m\<lparr>mf_probe := '''', mf_scanned := 0\<rparr>) (page (file_limit (ff_limit f)) (clamp_offset (ff_offset f))
        (ordered f (filter (matches_filter f) (db_files (s_db s)))))"
  using assms unfolding list_files_def by (auto elim!: andthen_InrE dest!: query_Inr)

subsection \<open>Files and their dependants\<close>

lemma file_row_eq: "db_ok d \<Longrightarrow> file_row i d = Some f \<longleftrightarrow> f \<in> set (db_files d) \<and> mf_id f = i"
  unfolding file_row_def by (rule find_row_eq) (rule db_okD)

definition touched :: "int list \<Rightarrow> int \<Rightarrow> db \<Rightarrow> db" where
  "touched ids at d = d\<lparr>db_files := update_where (\<lambda>r. mf_id r \<in> set ids)
     (\<lambda>r. r\<lparr>mf_scanned := max (mf_scanned r) at\<rparr>) (db_files d)\<rparr>"

lemma touched_append: "touched ys at (touched xs at d) = touched (xs @ ys) at d"
  by (auto simp: touched_def update_where_def)

lemma touched_Nil [simp]: "touched [] at d = d"
  by (simp add: touched_def update_where_def)

lemma touch_batch_Inr: "touch_batch ids at s = (Inr u, s') \<Longrightarrow> s_db s' = touched ids at (s_db s)"
  unfolding touch_batch_def touched_def by (auto dest!: sql_Inr)

lemma touch_batches_Inr: "touch_batches ids at s = (Inr u, s') \<Longrightarrow> s_db s' = touched ids at (s_db s)"
proof (induction ids at arbitrary: s rule: touch_batches.induct)
  case (1 ids at)
  show ?case
  proof (cases "ids = []")
    case True
    with 1 show ?thesis by (simp add: touch_batches.simps)
  next
    case False
    with 1(2) obtain v s1 where s1: "touch_batch (take batch_size ids) at s = (Inr v, s1)"
      "touch_batches (drop batch_size ids) at s1 = (Inr u, s')"
      by (subst (asm) touch_batches.simps) (auto elim: andthen_InrE)
    from 1(1) [OF False s1(2)] touch_batch_Inr [OF s1(1)] show ?thesis by (simp add: touched_append)
  qed
qed

lemma transaction_InrE:
  assumes "transaction m s = (Inr a, s')"
  obtains s1 s2 where "s_db s1 = s_db s" "s_now s1 = s_now s" "m s1 = (Inr a, s2)" "s_db s' = s_db s2"
proof -
  obtain x s1 where q: "query (\<lambda>_. ()) s = (x, s1)" by fastforce
  have "s_db s1 = s_db s" "s_now s1 = s_now s"
    using q by (auto simp: query_def sql_def sql_fault_def split: list.splits if_splits prod.splits)
  moreover obtain y s2 where m: "m s1 = (y, s2)" by fastforce
  obtain b s3 where f: "sql_fault s2 = (b, s3)" by fastforce
  have "s_db s3 = s_db s2" using f by (auto simp: sql_fault_def split: list.splits)
  moreover have "y = Inr a" "s' = s3" using assms q m f
    by (auto simp: transaction_def split: sum.splits bool.splits)
  ultimately show thesis using that [of s1 s2] m by simp
qed

lemma drop_files_rows:
  "db_files (drop_files P d) = filter (\<lambda>f. \<not> P f) (db_files d)"
  "db_sidecars (drop_files P d) = filter (\<lambda>r. \<not> (\<exists>f \<in> set (db_files d). P f \<and> mf_id f = sc_file r)) (db_sidecars d)"
  "length (db_jobs (drop_files P d)) = length (db_jobs d)"
  by (auto simp: delete_where_def drop_files_def drop_sidecars_def Let_def update_where_def image_iff intro!: filter_cong)

subsection \<open>A scan never loses what it saw\<close>

definition seen :: "path \<Rightarrow> int \<Rightarrow> db \<Rightarrow> bool" where
  "seen p t d \<longleftrightarrow> (\<exists>f \<in> set (db_files d). mf_path f = p \<and> t \<le> mf_scanned f)"

lemma upsert_seen:
  assumes "upsert_media_file f s = (Inr i, s1)" "mf_scanned f \<noteq> 0"
  shows "seen (mf_path f) (mf_scanned f) (s_db s1)"
proof -
  let ?row = "f\<lparr>mf_scanned := mf_scanned f, mf_sidecars := []\<rparr>"
  let ?g = "\<lambda>r. ?row\<lparr>mf_id := mf_id r, mf_scanned := max (mf_scanned r) (mf_scanned f)\<rparr>"
  let ?d = "s_db s"
  note r = sql_Inr [OF assms(1) [unfolded upsert_media_file_def Let_def], unfolded if_not_P [OF assms(2)]]
  show ?thesis
  proof (cases "file_by_path (mf_path f) ?d")
    case None
    with r have "s_db s1 = ?d\<lparr>db_files := db_files ?d @ [set_mf_id (next_id mf_id (db_files ?d)) ?row]\<rparr>"
      by (auto simp: insert_row_def split: if_splits)
    then show ?thesis by (auto simp: seen_def set_mf_id_def)
  next
    case (Some old)
    then have old: "old \<in> set (db_files ?d)" "mf_path old = mf_path f" by (auto simp: file_by_path_def find_Some_iff)
    have "s_db s1 = ?d\<lparr>db_files := update_where (\<lambda>r. mf_path r = mf_path f) ?g (db_files ?d)\<rparr>"
      using r unfolding Some by (auto split: if_splits)
    then have "db_files (s_db s1) = update_where (\<lambda>r. mf_path r = mf_path f) ?g (db_files ?d)" by simp
    with old show ?thesis unfolding seen_def by (intro bexI [of _ "?g old"]) auto
  qed
qed

definition sees :: "db \<Rightarrow> db \<Rightarrow> bool" where
  "sees d d' \<longleftrightarrow> (\<forall>p t. seen p t d \<longrightarrow> seen p t d')"

interpretation sn: db_frame sees
  by unfold_locales (auto simp: sees_def)

interpretation snf: frame "on_db sees"
  by (rule sn.is_frame)

lemma sees_update:
  assumes "\<And>r. P r \<Longrightarrow> mf_path (g r) = mf_path r \<and> mf_scanned r \<le> mf_scanned (g r)"
  shows "sees d (d\<lparr>db_files := update_where P g (db_files d)\<rparr>)"
  unfolding sees_def seen_def
proof (intro allI impI, elim bexE conjE)
  fix p t f
  assume f: "f \<in> set (db_files d)" "mf_path f = p" "t \<le> mf_scanned f"
  then show "\<exists>f \<in> set (db_files (d\<lparr>db_files := update_where P g (db_files d)\<rparr>)). mf_path f = p \<and> t \<le> mf_scanned f"
    using assms [of f] by (intro bexI [of _ "if P f then g f else f"]) auto
qed

lemma sees_files: "set (db_files d) \<subseteq> set (db_files d') \<Longrightarrow> sees d d'"
  unfolding sees_def seen_def by blast

lemma sql_sees: "(\<And>d a d'. f d = Some (a, d') \<Longrightarrow> sees d d') \<Longrightarrow> keeps (on_db sees) (sql f)"
  by (rule sn.sql_keeps)

lemma sees_touch: "keeps (on_db sees) (touch_file i n sm at)" "keeps (on_db sees) (touch_batch ids at)"
  unfolding touch_file_def touch_batch_def by (rule sql_sees, auto intro!: sees_update)+

lemma sees_touch_bulk: "keeps (on_db sees) (touch_files_bulk ids at)"
proof -
  have "keeps (on_db sees) (touch_batches ids at)" for ids at
  proof (induction ids at rule: touch_batches.induct)
    case (1 ids at)
    then show ?case
      by (subst touch_batches.simps) (auto intro!: snf.keeps_ret snf.keeps_andthen sees_touch)
  qed
  then show ?thesis
    unfolding touch_files_bulk_def by (auto intro!: snf.keeps_ret sn.transaction_keeps)
qed

lemma sees_upsert: "keeps (on_db sees) (upsert_media_file f)"
  by (rule keeps_at, rule exI, rule conjI, rule upsert_media_file_def [unfolded Let_def], rule sql_sees)
    (auto intro: sees_files intro!: sees_update simp: insert_row_def split: option.splits if_splits simp del: set_update_where)

lemma sees_sidecar: "keeps (on_db sees) (upsert_sidecar fid sc)"
  unfolding upsert_sidecar_def by (rule sql_sees) (auto intro: sees_files split: if_splits)

lemma sees_sidecars: "keeps (on_db sees) (upsert_sidecars fid scs)"
  by (induction scs) (auto intro!: snf.keeps_ret snf.keeps_andthen sees_sidecar)

lemma sees_replace: "keeps (on_db sees) (replace_sidecars fid scs)"
  unfolding replace_sidecars_def
  by (intro sn.transaction_keeps snf.keeps_andthen sql_sees sees_sidecars) (auto simp: drop_sidecars_def intro: sees_files)

text \<open>The requests that never remove a media file row.\<close>

fun removes_files :: "request \<Rightarrow> bool" where
  "removes_files (UpdateLibrary l) = True"
| "removes_files (DeleteLibrary i) = True"
| "removes_files (PruneFiles lib start) = True"
| "removes_files (PruneFilesOutside lib root) = True"
| "removes_files _ = False"

lemma sees_sql_other:
  "keeps (on_db sees) (add_library l)"
  "keeps (on_db sees) (mark_library_scanned i ts)"
  "keeps (on_db sees) (delete_sidecar_row i)"
  "keeps (on_db sees) claim_next_job"
  "keeps (on_db sees) (set_setting k v)"
  unfolding add_library_def mark_library_scanned_def delete_sidecar_row_def claim_next_job_def set_setting_def
  by (rule sql_sees, auto intro!: sees_files simp: insert_row_def drop_sidecars_def split: if_splits option.splits)+

lemma sees_jobs:
  "keeps (on_db sees) (create_job ty fid p payload)"
  "keeps (on_db sees) (finish_job i st msg saved)"
  "keeps (on_db sees) fail_interrupted"
    by (rule keeps_at, rule exI, rule conjI, rule create_job_def finish_job_def fail_interrupted_def, rule sql_sees,
      auto intro!: sees_files simp: insert_row_def Let_def split: if_splits option.splits)+

lemma sees_jobs2: "keeps (on_db sees) (cancel_job i)" "keeps (on_db sees) (delete_job i)" "keeps (on_db sees) (retry_job i)"
proof -
  show "keeps (on_db sees) (cancel_job i)"
    by (rule keeps_at, rule exI, rule conjI, rule cancel_job_def, intro snf.keeps_andthen snf.keeps_ensure sql_sees)
      (auto simp: Let_def intro!: sees_files)
  show "keeps (on_db sees) (delete_job i)" unfolding delete_job_def
    by (intro snf.keeps_andthen snf.keeps_ensure sql_sees) (auto simp: Let_def intro!: sees_files)
  show "keeps (on_db sees) (retry_job i)"
    by (rule keeps_at, rule exI, rule conjI, rule retry_job_def, intro snf.keeps_andthen sql_sees)
      (auto split: option.splits prod.splits simp: get_job_def intro!: snf.keeps_andthen sn.query_keeps snf.keeps_fail sees_files)
qed

lemma sees_trans: "sees d e \<Longrightarrow> sees e f \<Longrightarrow> sees d f"
  by (auto simp: sees_def)

lemma sees_exec: "\<not> removes_files r \<Longrightarrow> on_db sees s (exec r s)"
  by (cases r) (simp_all add: sees_touch sees_touch_bulk sees_upsert sees_sidecar sees_replace sees_sql_other
      sees_jobs sees_jobs2 keeps_snd)

lemma sees_execs: "list_all (\<lambda>r. \<not> removes_files r) rs \<Longrightarrow> sees (s_db s) (s_db (fold exec rs s))"
proof (induction rs arbitrary: s)
  case (Cons r rs)
  then have "sees (s_db s) (s_db (exec r s))" using sees_exec [of r s] by (simp add: on_db_def)
  with Cons show ?case using sees_trans by auto
qed (simp add: sn.db_refl)

subsection \<open>Sidecars of a file\<close>

text \<open>What the caller wrote, apart from keys: the sidecars of a file as a set.\<close>

definition sidecars_of :: "int \<Rightarrow> db \<Rightarrow> sidecar set" where
  "sidecars_of fid d = (\<lambda>r. r\<lparr>sc_id := 0\<rparr>) ` {r \<in> set (db_sidecars d). sc_file r = fid}"

definition owned :: "int \<Rightarrow> sidecar \<Rightarrow> sidecar" where
  "owned fid sc = sc\<lparr>sc_id := 0, sc_file := fid\<rparr>"

lemma owned_path [simp]: "sc_path (owned fid sc) = sc_path sc"
  by (simp add: owned_def)

lemma upsert_sidecar_of:
  assumes "upsert_sidecar fid sc s = (Inr u, s')" "\<And>x. x \<in> sidecars_of fid (s_db s) \<Longrightarrow> sc_path x \<noteq> sc_path sc"
  shows "sidecars_of fid (s_db s') = insert (owned fid sc) (sidecars_of fid (s_db s))"
proof -
  let ?d = "s_db s"
  have other: "sc_path r \<noteq> sc_path sc" if "r \<in> set (db_sidecars ?d)" "sc_file r = fid" for r
    using assms(2) [of "r\<lparr>sc_id := 0\<rparr>"] that by (force simp: sidecars_of_def)
  note r = sql_Inr [OF assms(1) [unfolded upsert_sidecar_def]]
  show ?thesis
  proof (cases "sc_path sc \<in> sc_path ` set (db_sidecars ?d)")
    case True
    let ?g = "\<lambda>r. sc\<lparr>sc_id := sc_id r, sc_file := fid\<rparr>"
    have "s_db s' = ?d\<lparr>db_sidecars := update_where (\<lambda>r. sc_path r = sc_path sc) ?g (db_sidecars ?d)\<rparr>"
      using r True by (auto split: if_splits)
    then have s': "set (db_sidecars (s_db s')) = (\<lambda>r. if sc_path r = sc_path sc then ?g r else r) ` set (db_sidecars ?d)" by simp
    from True obtain q where q: "q \<in> set (db_sidecars ?d)" "sc_path q = sc_path sc" by auto
    then have "?g q \<in> {r \<in> set (db_sidecars (s_db s')). sc_file r = fid}" unfolding s' by force
    then have "owned fid sc \<in> sidecars_of fid (s_db s')" unfolding sidecars_of_def owned_def
      by (rule rev_image_eqI) simp
    moreover have "sidecars_of fid ?d \<subseteq> sidecars_of fid (s_db s')"
      unfolding sidecars_of_def s' using other by (auto intro!: imageI)
    moreover have "(if sc_path r = sc_path sc then ?g r else r)\<lparr>sc_id := 0\<rparr> \<in> insert (owned fid sc) (sidecars_of fid ?d)"
      if "r \<in> set (db_sidecars ?d)" "sc_file (if sc_path r = sc_path sc then ?g r else r) = fid" for r
      using that by (cases "sc_path r = sc_path sc") (auto simp: owned_def sidecars_of_def)
    then have "sidecars_of fid (s_db s') \<subseteq> insert (owned fid sc) (sidecars_of fid ?d)"
      unfolding sidecars_of_def [of fid "s_db s'"] s' by blast
    ultimately show ?thesis by auto
  next
    case False
    have "s_db s' = ?d\<lparr>db_sidecars := snd (insert_row sc_id set_sc_id (sc\<lparr>sc_file := fid\<rparr>) (db_sidecars ?d))\<rparr>"
      using r False by (auto split: if_splits)
    then obtain n where "db_sidecars (s_db s') = db_sidecars ?d @ [sc\<lparr>sc_file := fid, sc_id := n\<rparr>]"
      by (simp add: insert_row_def set_sc_id_def)
    then have "{r \<in> set (db_sidecars (s_db s')). sc_file r = fid} =
      insert (sc\<lparr>sc_file := fid, sc_id := n\<rparr>) {r \<in> set (db_sidecars ?d). sc_file r = fid}" by auto
    then show ?thesis by (cases sc) (simp add: sidecars_of_def owned_def)
  qed
qed

lemma upsert_sidecars_of:
  "upsert_sidecars fid scs s = (Inr u, s') \<Longrightarrow> distinct (map sc_path scs) \<Longrightarrow>
     (\<And>x. x \<in> sidecars_of fid (s_db s) \<Longrightarrow> sc_path x \<notin> sc_path ` set scs) \<Longrightarrow>
     sidecars_of fid (s_db s') = sidecars_of fid (s_db s) \<union> owned fid ` set scs"
proof (induction scs arbitrary: s)
  case (Cons sc scs)
  from Cons.prems(1) obtain v s1 where s1: "upsert_sidecar fid sc s = (Inr v, s1)" "upsert_sidecars fid scs s1 = (Inr u, s')"
    by (auto elim: andthen_InrE)
  have u: "sidecars_of fid (s_db s1) = insert (owned fid sc) (sidecars_of fid (s_db s))"
    using Cons.prems(3) by (intro upsert_sidecar_of [OF s1(1)]) auto
  have "sidecars_of fid (s_db s') = sidecars_of fid (s_db s1) \<union> owned fid ` set scs"
    using Cons.prems(2,3) u by (intro Cons.IH [OF s1(2)]) auto
  with u show ?case by auto
qed simp

end
