(* ===== verification/StoreProps.thy ===== *)
theory StoreProps
  imports FileProps
begin

text \<open>
  The properties of the store: integrity in every reachable state, the job queue as a refinement
  of the board of statuses, what the media tables promise to a scan and to a search. A concrete
  database applies those with hypotheses.
\<close>

subsection \<open>A database to apply them to\<close>

definition demo_lib :: library where
  "demo_lib = \<lparr>lb_id = 0, lb_name = ''Films'', lb_path = ''/m'', lb_kind = ''movies'', lb_policy = ''skip'',
     lb_interval = 60, lb_watch = True, lb_last_scan = 0\<rparr>"

definition demo_file :: media_file where
  "demo_file = \<lparr>mf_id = 0, mf_library = 1, mf_path = ''/m/a.mkv'', mf_size = 100, mf_mtime = 5, mf_nlink = 2,
     mf_kind = ''movie'', mf_series = '''', mf_season = 0, mf_episode = '''', mf_title = ''A'', mf_video = ''h264'',
     mf_audio = ''eng'', mf_subs = ''eng'', mf_sidecar_summary = '''', mf_probe = ''{}'', mf_scanned = 50, mf_sidecars = []\<rparr>"

definition demo_sidecar :: sidecar where
  "demo_sidecar = \<lparr>sc_id = 0, sc_file = 0, sc_path = ''/m/a.en.srt'', sc_name = ''a.en.srt'', sc_lang = ''eng'',
     sc_hi = False, sc_forced = False, sc_ext = ''srt'', sc_size = 9\<rparr>"

definition demo_start :: store where
  "demo_start = \<lparr>s_db = empty_db, s_faults = [], s_now = 100\<rparr>"

definition demo_scan :: "request list" where
  "demo_scan = [AddLibrary demo_lib, CreateJob ''scan_library'' 0 ''/m'' (JObj [(''library_id'', JNum 1)]),
     CreateJob ''scan_all'' 0 '''' JNull, ClaimNextJob, UpsertMediaFile demo_file]"

definition demo_store :: store where
  "demo_store = fold exec demo_scan demo_start"

lemma reached_fold: "reached s \<Longrightarrow> reached (fold exec rs s)"
  by (induction rs arbitrary: s) (auto intro: reached.call)

lemma demo_reached: "reached demo_store"
  unfolding demo_store_def by (intro reached_fold reached.start) (simp add: demo_start_def)

lemma demo_ok: "db_ok (s_db demo_store)"
  by (rule reached_ok) (rule demo_reached)

subsection \<open>Integrity\<close>

text \<open>
  C15: in every state the methods can bring the database to, whatever statements fail on the way,
  keys are positive and strictly ascending, paths unique, every file belongs to a library, every
  sidecar to a file, every job that names a file to one that exists.
\<close>

theorem store_integrity: "reached s \<Longrightarrow> db_ok (s_db s)"
  by (rule reached_ok)

lemma store_integrity_witness: "db_ok (s_db (fold exec demo_scan demo_start))"
  by (rule store_integrity, intro reached_fold reached.start) (simp add: demo_start_def)

subsection \<open>The job queue\<close>

text \<open>
  C6: every call of the store is a move of the abstract board of jobs (or leaves it alone): a job
  enters queued, only a queued one is cancelled or starts, and only the least; a running one is
  never deleted; provided the caller finishes only jobs that run.
\<close>

theorem store_refines_board:
  assumes "reached s" "finishes_running r (s_db s)"
  shows "board_step (board (s_db s)) (board (s_db (exec r s)))"
  by (rule exec_board_step [OF reached_ok [OF assms(1)] assms(2)])

lemma store_refines_board_witness:
  "board (s_db demo_store) 1 = Some ''running'' \<and>
   board_step (board (s_db demo_store)) (board (s_db (exec (FinishJob 1 ''done'' ''ok'' 0) demo_store)))"
proof -
  have "board (s_db demo_store) 1 = Some ''running''" by code_simp
  then show ?thesis using store_refines_board [OF demo_reached, of "FinishJob 1 ''done'' ''ok'' 0"] by simp
qed

text \<open>
  \<^verbatim>\<open>ClaimNextJob\<close> hands out the oldest queued job and marks that job alone as running; it
  returns nothing exactly when no job is queued, and then changes nothing.
\<close>

theorem claim_next_job_oldest:
  assumes "db_ok (s_db s)" "claim_next_job s = (Inr r, s')"
  shows "case r of
      None \<Rightarrow> (\<forall>j \<in> set (db_jobs (s_db s)). jb_status j \<noteq> ''queued'') \<and> s_db s' = s_db s
    | Some j \<Rightarrow> (\<exists>q. job_row (jb_id j) (s_db s) = Some q \<and> jb_status q = ''queued'' \<and>
        (\<forall>k \<in> set (db_jobs (s_db s)). jb_status k = ''queued'' \<longrightarrow> jb_id j \<le> jb_id k) \<and>
        jb_status j = ''running'' \<and> jb_file j = jb_file q \<and> jb_payload j = jb_payload q \<and>
        (\<forall>i. job_row i (s_db s') = (if i = jb_id j then Some (q\<lparr>jb_status := ''running''\<rparr>) else job_row i (s_db s))))"
proof -
  let ?d = "s_db s"
  from sql_Inr [OF assms(2) [unfolded claim_next_job_def]]
  consider (none) "first_queued (db_jobs ?d) = None" "r = None" "s_db s' = ?d"
    | (some) q where "first_queued (db_jobs ?d) = Some q"
        "r = Some (q\<lparr>jb_status := ''running'', jb_log := '''', jb_saved := 0, jb_finished := 0\<rparr>)"
        "s_db s' = ?d\<lparr>db_jobs := update_where (\<lambda>r. jb_id r = jb_id q) (\<lambda>r. r\<lparr>jb_status := ''running''\<rparr>) (db_jobs ?d)\<rparr>"
    by (auto split: option.splits)
  then show ?thesis
  proof cases
    case none
    then show ?thesis by (auto simp: first_queued_def find_None_iff)
  next
    case (some q)
    have q: "job_row (jb_id q) ?d = Some q" by (rule first_queuedD [OF assms(1) some(1)])
    have id: "jb_id r = i" if "job_row i ?d = Some r" for i r using that job_row_eq [OF assms(1)] by simp
    have "job_row i (s_db s') = (if i = jb_id q then Some (q\<lparr>jb_status := ''running''\<rparr>) else job_row i ?d)" for i
      unfolding some(3) using q by (subst job_row_update [OF assms(1)]) (auto split: option.splits simp: map_option_case dest: id)
    with some(2) first_queuedD [OF assms(1) some(1)] show ?thesis by simp
  qed
qed

lemma claim_next_job_oldest_witness:
  "\<exists>j s'. claim_next_job demo_store = (Inr (Some j), s') \<and> jb_id j = 2 \<and>
     job_row 2 (s_db s') = Some ((the (job_row 2 (s_db demo_store)))\<lparr>jb_status := ''running''\<rparr>)"
proof -
  have "map_option jb_id (case fst (claim_next_job demo_store) of Inr r \<Rightarrow> r | Inl _ \<Rightarrow> None) = Some 2" by code_simp
  then obtain j s' where c: "claim_next_job demo_store = (Inr (Some j), s')" and j: "jb_id j = 2"
    by (cases "claim_next_job demo_store") (auto split: sum.splits)
  from claim_next_job_oldest [OF demo_ok c] c j show ?thesis by auto
qed

text \<open>
  A job that has been claimed is not handed out again while it has not been finished: between
  two claims, whatever else is called short of finishing it or restarting, the second returns
  another job.
\<close>

theorem claimed_once:
  assumes "db_ok (s_db s)" "claim_next_job s = (Inr (Some j), s1)"
    "list_all (leaves_job (jb_id j)) rs" "claim_next_job (fold exec rs s1) = (Inr (Some k), s2)"
  shows "jb_id k \<noteq> jb_id j"
proof -
  note c1 = claim_next_job_oldest [OF assms(1,2), simplified]
  have ok1: "db_ok (s_db s1)" using exec_ok [OF assms(1), of ClaimNextJob] by (simp add: assms(2))
  then have "board (s_db s1) (jb_id j) = Some ''running''" using c1 by (auto simp: board_row)
  from execs_running [OF ok1 assms(3) this]
  have b: "board (s_db (fold exec rs s1)) (jb_id j) = Some ''running''" and ok: "db_ok (s_db (fold exec rs s1))" by auto
  from claim_next_job_oldest [OF ok assms(4), simplified]
  have "board (s_db (fold exec rs s1)) (jb_id k) = Some ''queued''" by (auto simp: board_row [OF ok])
  with b show ?thesis by auto
qed

definition demo_queue :: store where
  "demo_queue = fold exec (take 3 demo_scan) demo_start"

lemma demo_queue_ok: "db_ok (s_db demo_queue)"
  unfolding demo_queue_def by (intro reached_ok reached_fold reached.start) (simp add: demo_start_def)

lemma claimed_once_witness:
  "\<exists>j k s1 s2. claim_next_job demo_queue = (Inr (Some j), s1) \<and>
     claim_next_job (fold exec [RetryJob 1, DeleteJob 1, CancelJob 1] s1) = (Inr (Some k), s2) \<and> jb_id k \<noteq> jb_id j"
proof -
  let ?r = "claim_next_job demo_queue"
  let ?q = "claim_next_job (fold exec [RetryJob 1, DeleteJob 1, CancelJob 1] (snd ?r))"
  have "(case fst ?r of Inr (Some j) \<Rightarrow> jb_id j = 1 | _ \<Rightarrow> False)" by code_simp
  then obtain j s1 where j1: "?r = (Inr (Some j), s1)" "jb_id j = 1"
    by (cases ?r) (auto split: sum.splits option.splits)
  have "(case fst ?q of Inr (Some k) \<Rightarrow> True | _ \<Rightarrow> False)" by code_simp
  then obtain k s2 where "?q = (Inr (Some k), s2)" by (cases ?q) (auto split: sum.splits option.splits)
  with j1 have j: "?r = (Inr (Some j), s1)" "jb_id j = 1"
    "claim_next_job (fold exec [RetryJob 1, DeleteJob 1, CancelJob 1] s1) = (Inr (Some k), s2)" by simp_all
  moreover from j claimed_once [OF demo_queue_ok j(1) _ j(3)] have "jb_id k \<noteq> jb_id j" by simp
  ultimately show ?thesis by blast
qed

text \<open>
  \<^verbatim>\<open>RetryJob\<close> succeeds only on a failed, skipped or cancelled job; it leaves that job as it was
  and adds a queued copy under a new key, with the file and the staleness snapshot of the original,
  one more attempt and an empty log; when it fails, nothing has changed or only the copy was added.
\<close>

theorem retry_job_copies:
  assumes "db_ok (s_db s)" "retry_job i s = (Inr r, s')"
  shows "\<exists>j n. job_row i (s_db s) = Some j \<and> retryable (jb_status j) \<and> job_row n (s_db s) = None \<and>
     r = Some (set_jb_id n (retry_row j (s_now s))) \<and>
     (\<forall>k. job_row k (s_db s') = (if k = n then r else job_row k (s_db s)))"
  using assms(2)
proof (cases rule: retry_cases)
  case (2 j)
  let ?n = "next_id jb_id (db_jobs (s_db s))"
  from 2(1) have j: "job_row i (s_db s) = Some j" "retryable (jb_status j)"
    using job_row_eq [OF assms(1)] by (auto simp: find_Some_iff)
  have rows: "job_row k (s_db s') = (if k = ?n then Some (set_jb_id ?n (retry_row j (s_now s))) else job_row k (s_db s))" for k
    unfolding 2(2) by (simp add: job_row_insert [OF assms(1)])
  with 2(3) have "r = Some (set_jb_id ?n (retry_row j (s_now s)))" by simp
  with j rows job_row_fresh [OF assms(1)] show ?thesis by (intro exI [of _ j] exI [of _ ?n]) simp
qed simp

definition demo_cancelled :: store where
  "demo_cancelled = exec (CancelJob 2) demo_store"

lemma demo_cancelled_ok: "db_ok (s_db demo_cancelled)"
  unfolding demo_cancelled_def by (rule exec_ok) (rule demo_ok)

lemma retry_job_copies_witness:
  "\<exists>r s'. retry_job 2 demo_cancelled = (Inr r, s') \<and> job_row 2 (s_db s') = job_row 2 (s_db demo_cancelled) \<and>
     map_option jb_attempts r = Some 1"
proof -
  have v: "(case retry_job 2 demo_cancelled of (Inr r, s') \<Rightarrow> map_option jb_attempts r = Some 1 | _ \<Rightarrow> False)"
    "job_row 2 (s_db demo_cancelled) \<noteq> None" by code_simp+
  then obtain r s' where r: "retry_job 2 demo_cancelled = (Inr r, s')" "map_option jb_attempts r = Some 1"
    by (auto split: prod.splits sum.splits)
  from retry_job_copies [OF demo_cancelled_ok r(1)] v(2) r show ?thesis by auto
qed

subsection \<open>Files\<close>

text \<open>
  \<^verbatim>\<open>PruneFiles\<close> removes exactly the files of the library last seen before the start of the scan,
  keeps the order of the others, drops the sidecars of the removed files and no other, keeps every
  job, and reports how many files it removed.
\<close>

theorem prune_files_exact:
  assumes "prune_files lib start s = (Inr n, s')"
  shows "db_files (s_db s') = filter (\<lambda>f. \<not> (mf_library f = lib \<and> mf_scanned f < start)) (db_files (s_db s)) \<and>
    db_sidecars (s_db s') = filter (\<lambda>r. \<not> (\<exists>f \<in> set (db_files (s_db s)).
       (mf_library f = lib \<and> mf_scanned f < start) \<and> mf_id f = sc_file r)) (db_sidecars (s_db s)) \<and>
    length (db_jobs (s_db s')) = length (db_jobs (s_db s)) \<and>
    n + length (db_files (s_db s')) = length (db_files (s_db s))"
proof -
  let ?P = "\<lambda>f. mf_library f = lib \<and> mf_scanned f < start"
  from sql_Inr [OF assms [unfolded prune_files_def]]
  have n: "n = count_where ?P (db_files (s_db s))" and s': "s_db s' = drop_files ?P (s_db s)"
    by (simp_all add: Let_def)
  show ?thesis unfolding s' n drop_files_rows count_where_def
    by (intro conjI refl sum_length_filter_compl)
qed

lemma prune_files_exact_witness:
  "\<exists>s'. prune_files 1 60 demo_store = (Inr 1, s') \<and> 1 + length (db_files (s_db s')) = length (db_files (s_db demo_store))"
proof -
  have "(case prune_files 1 60 demo_store of (Inr n, _) \<Rightarrow> n = 1 | _ \<Rightarrow> False)" by code_simp
  then obtain s' where p: "prune_files 1 60 demo_store = (Inr 1, s')" by (auto split: prod.splits sum.splits)
  from prune_files_exact [OF p] p show ?thesis by blast
qed

text \<open>
  A file that a scan has written with the start of the scan survives the pruning at its end,
  whatever other calls happen in between short of deleting libraries or pruning.
\<close>

theorem scan_keeps_what_it_saw:
  assumes "upsert_media_file f s = (Inr i, s1)" "mf_scanned f = start" "start \<noteq> 0"
    "list_all (\<lambda>r. \<not> removes_files r) rs" "prune_files lib start (fold exec rs s1) = (x, s2)"
  shows "seen (mf_path f) start (s_db s2)"
proof -
  have "seen (mf_path f) start (s_db s1)"
    using upsert_seen [OF assms(1)] assms(2,3) by simp
  moreover have "sees (s_db s1) (s_db (fold exec rs s1))" by (rule sees_execs [OF assms(4)])
  ultimately have "seen (mf_path f) start (s_db (fold exec rs s1))" by (simp add: sees_def)
  moreover have "s_db s2 = s_db (fold exec rs s1) \<or>
    db_files (s_db s2) = filter (\<lambda>f. \<not> (mf_library f = lib \<and> mf_scanned f < start)) (db_files (s_db (fold exec rs s1)))"
    using assms(5) unfolding prune_files_def by (elim sqlE) (auto simp: Let_def delete_where_def)
  ultimately show ?thesis by (auto simp: seen_def)
qed

lemma scan_keeps_what_it_saw_witness:
  "\<exists>i s1 x s2. upsert_media_file demo_file demo_store = (Inr i, s1) \<and>
     prune_files 1 50 (fold exec [SetSetting ''a'' ''b'', CancelJob 2] s1) = (x, s2) \<and> seen ''/m/a.mkv'' 50 (s_db s2)"
proof -
  have "is_ok (fst (upsert_media_file demo_file demo_store))" by code_simp
  then obtain i s1 where u: "upsert_media_file demo_file demo_store = (Inr i, s1)"
    by (cases "upsert_media_file demo_file demo_store") (auto simp: is_ok_iff)
  moreover obtain x s2 where p: "prune_files 1 50 (fold exec [SetSetting ''a'' ''b'', CancelJob 2] s1) = (x, s2)" by fastforce
  moreover from scan_keeps_what_it_saw [OF u _ _ _ p] have "seen ''/m/a.mkv'' 50 (s_db s2)" by (simp add: demo_file_def)
  ultimately show ?thesis by blast
qed

text \<open>
  \<^verbatim>\<open>TouchFilesBulk\<close>, in batches of 500, is one update of all the given files (a scan time never
  goes back), or, when any of its statements fails, nothing at all.
\<close>

theorem touch_files_bulk_atomic:
  "case touch_files_bulk ids at s of
      (Inr _, s') \<Rightarrow> s_db s' = touched ids at (s_db s)
    | (Inl _, s') \<Rightarrow> s_db s' = s_db s"
  by (auto simp: touch_files_bulk_def dest: transaction_rollback touch_batches_Inr elim!: transaction_InrE
      split: prod.splits sum.splits)

text \<open>
  After \<^verbatim>\<open>ReplaceSidecars\<close> the file has exactly the sidecars that were written, whatever it had
  before and whoever owned their paths; reading the file back lists them by name.
\<close>

theorem replace_sidecars_read_back:
  assumes "replace_sidecars fid scs s = (Inr u, s1)" "distinct (map sc_path scs)" "get_file fid s1 = (Inr (Some f), s2)"
  shows "(\<lambda>r. r\<lparr>sc_id := 0\<rparr>) ` set (mf_sidecars f) = owned fid ` set scs \<and> sorted (map sc_name (mf_sidecars f))"
proof -
  from assms(1) [unfolded replace_sidecars_def] obtain t t' where
    t: "andthen (sql (\<lambda>d. Some ((), drop_sidecars (\<lambda>r. sc_file r = fid) d))) (\<lambda>_. upsert_sidecars fid scs) t = (Inr u, t')"
    "s_db s1 = s_db t'" by (rule transaction_InrE)
  then obtain v t1 where t1: "s_db t1 = drop_sidecars (\<lambda>r. sc_file r = fid) (s_db t)" "upsert_sidecars fid scs t1 = (Inr v, t')"
    by (auto elim!: andthen_InrE dest!: sql_Inr)
  have none: "sidecars_of fid (s_db t1) = {}" by (simp add: t1(1) sidecars_of_def drop_sidecars_def)
  from upsert_sidecars_of [OF t1(2) assms(2)] none t(2)
  have "sidecars_of fid (s_db s1) = owned fid ` set scs" by simp
  moreover from assms(3) have "mf_sidecars f = sort_key sc_name (filter (\<lambda>sc. sc_file sc = fid) (db_sidecars (s_db s1)))"
    unfolding get_file_def by (auto elim!: andthen_InrE dest!: query_Inr split: option.splits)
  ultimately show ?thesis by (simp add: sidecars_of_def)
qed

lemma replace_sidecars_read_back_witness:
  "\<exists>s1 f s2. replace_sidecars 1 [demo_sidecar] demo_store = (Inr (), s1) \<and> get_file 1 s1 = (Inr (Some f), s2) \<and>
     (\<lambda>r. r\<lparr>sc_id := 0\<rparr>) ` set (mf_sidecars f) = {owned 1 demo_sidecar}"
proof -
  let ?r = "replace_sidecars 1 [demo_sidecar] demo_store"
  have v: "is_ok (fst ?r)" "(case fst (get_file 1 (snd ?r)) of Inr (Some f) \<Rightarrow> True | _ \<Rightarrow> False)" by code_simp+
  then obtain s1 where s1: "?r = (Inr (), s1)" by (cases ?r) (auto simp: is_ok_iff)
  with v obtain f s2 where f: "get_file 1 s1 = (Inr (Some f), s2)"
    by (cases "get_file 1 s1") (auto split: sum.splits option.splits)
  from replace_sidecars_read_back [OF s1 _ f] s1 f show ?thesis by auto
qed

subsection \<open>Search\<close>

text \<open>
  A search matches a file exactly when the text occurs, ASCII letters compared without case,
  in its path, its series or its title: the special characters of \<^verbatim>\<open>LIKE\<close> have no effect.
\<close>

theorem search_is_infix:
  "matches_query q m \<longleftrightarrow>
     (\<exists>t \<in> {mf_path m, mf_series m, mf_title m}. sublist (map ascii_fold q) (map ascii_fold t))"
  using like_infix [of q] by (simp add: matches_query_def Let_def)

text \<open>
  A page of \<^verbatim>\<open>ListFiles\<close> is a slice, never longer than 500 rows, of one ordering of the matching
  files, sorted by the requested column in the requested direction; the total counts all matches.
\<close>

theorem list_files_page:
  assumes "list_files f s = (Inr (ms, n), s')"
  shows "\<exists>all. mset all = mset (filter (matches_filter f) (db_files (s_db s))) \<and> sorted_wrt (row_order f) all \<and>
     n = length all \<and> length ms \<le> 500 \<and>
     ms = map (\<lambda>m. m\<lparr>mf_probe := '''', mf_scanned := 0\<rparr>)
            (take (nat (file_limit (ff_limit f))) (drop (nat (clamp_offset (ff_offset f))) all))"
proof -
  let ?all = "ordered f (filter (matches_filter f) (db_files (s_db s)))"
  from assms have n: "n = count_where (matches_filter f) (db_files (s_db s))"
    and ms: "ms = map (\<lambda>m. m\<lparr>mf_probe := '''', mf_scanned := 0\<rparr>) (page (file_limit (ff_limit f)) (clamp_offset (ff_offset f)) ?all)"
    by (auto elim: list_files_InrE)
  have "n = length ?all" using n ordered_mset [of f "filter (matches_filter f) (db_files (s_db s))"]
    by (metis count_where_def size_mset)
  moreover have "length ms \<le> 500" unfolding ms page_def using file_limit_bounds(2) [of "ff_limit f"] by simp
  ultimately show ?thesis
    by (intro exI [of _ ?all]) (simp add: ordered_mset ordered_sorted ms page_def)
qed

definition demo_filter :: file_filter where
  "demo_filter = \<lparr>ff_library = 1, ff_query = ''A.M'', ff_kind = '''', ff_limit = 900, ff_offset = -3, ff_sort = ''size'',
     ff_order = ''DESC'', ff_hardlinks = ''yes'', ff_subs = ''embedded''\<rparr>"

lemma list_files_page_witness:
  "\<exists>ms n s'. list_files demo_filter demo_store = (Inr (ms, n), s') \<and> length ms \<le> 500 \<and> 0 < n"
proof -
  have "(case list_files demo_filter demo_store of (Inr (ms, n), _) \<Rightarrow> 0 < n | _ \<Rightarrow> False)" by code_simp
  then obtain ms n s' where l: "list_files demo_filter demo_store = (Inr (ms, n), s')" "0 < n"
    by (auto split: prod.splits sum.splits)
  with list_files_page [OF l(1)] show ?thesis by blast
qed

subsection \<open>Hard links\<close>

text \<open>
  The store answers that a hard-linked file may be rewritten only when the file is known and
  the library with the longest path around it has the policy \<^verbatim>\<open>proceed\<close>: an unknown file, a file
  in no library or a failed statement all answer no.
\<close>

theorem hardlink_policy_most_specific:
  assumes "hardlink_policy_proceeds fid s = (True, s')"
  shows "\<exists>f l. file_row fid (s_db s) = Some f \<and> l \<in> set (db_libs (s_db s)) \<and> covers f l \<and> lb_policy l = ''proceed'' \<and>
     (\<forall>l' \<in> set (db_libs (s_db s)). covers f l' \<longrightarrow> length (lb_path l') \<le> length (lb_path l))"
proof -
  let ?d = "s_db s"
  let ?ls = "\<lambda>f. sort_key (\<lambda>l. - int (length (lb_path l))) (filter (covers f) (db_libs ?d))"
  from assms obtain p where q: "query (\<lambda>d. case file_row fid d of
          None \<Rightarrow> None
        | Some f \<Rightarrow> (case sort_key (\<lambda>l. - int (length (lb_path l))) (filter (covers f) (db_libs d)) of
             [] \<Rightarrow> None | l # _ \<Rightarrow> Some (lb_policy l))) s = (Inr (Some p), s')" "p = ''proceed''"
    by (auto simp: hardlink_policy_proceeds_def split: prod.splits sum.splits option.splits)
  from query_Inr [OF q(1)] obtain f l ls where f: "file_row fid ?d = Some f" "?ls f = l # ls" "lb_policy l = p"
    by (auto split: option.splits list.splits)
  have "sorted (map (\<lambda>l. - int (length (lb_path l))) (?ls f))" by simp
  then have "\<forall>l' \<in> set (?ls f). length (lb_path l') \<le> length (lb_path l)" unfolding f(2) by auto
  moreover have set: "set (?ls f) = {l \<in> set (db_libs ?d). covers f l}" by simp
  ultimately have max: "\<forall>l' \<in> set (db_libs ?d). covers f l' \<longrightarrow> length (lb_path l') \<le> length (lb_path l)" by simp
  have "l \<in> set (?ls f)" using f(2) by simp
  then have "l \<in> set (db_libs ?d)" "covers f l" by simp_all
  with f(1,3) max q(2) show ?thesis by blast
qed

lemma hardlink_policy_most_specific_witness:
  "\<exists>s'. hardlink_policy_proceeds 1 (exec (UpdateLibrary (demo_lib\<lparr>lb_id := 1, lb_policy := ''proceed''\<rparr>)) demo_store) = (True, s') \<and>
     (\<exists>f. file_row 1 (s_db (exec (UpdateLibrary (demo_lib\<lparr>lb_id := 1, lb_policy := ''proceed''\<rparr>)) demo_store)) = Some f)"
proof -
  let ?s = "exec (UpdateLibrary (demo_lib\<lparr>lb_id := 1, lb_policy := ''proceed''\<rparr>)) demo_store"
  have "fst (hardlink_policy_proceeds 1 ?s)" by code_simp
  then obtain s' where h: "hardlink_policy_proceeds 1 ?s = (True, s')"
    by (cases "hardlink_policy_proceeds 1 ?s") auto
  with hardlink_policy_most_specific [OF h] show ?thesis by auto
qed

end
