(* ===== verification/Locks.thy ===== *)
theory Locks
  imports Prelude
begin

text \<open>
  \<^verbatim>\<open>engine.KeyedMutex\<close>: one mutex per key, created by the first caller that wants it and dropped by
  the last that leaves. The table has a mutex of its own, held for the two short sections that count
  the references. Any number of goroutines interleave; each line between two lock operations of the
  code is one step. \<^verbatim>\<open>sync.Mutex\<close> is what its documentation says: \<^verbatim>\<open>Lock\<close> waits until it is free.
\<close>

type_synonym tid = nat

record ref_mutex =
  rm_holder :: "tid option"
  rm_refs :: int

text \<open>Where a goroutine is in \<^verbatim>\<open>Lock\<close> and in the function \<^verbatim>\<open>Lock\<close> returns.\<close>

datatype lock_pc =
    Outside
  | AtMu string
  | InMu string
  | Waiting string nat
  | Holding string nat
  | Released string nat
  | InMuAgain string nat

record keyed_mutex =
  km_mu :: "tid option"
  km_m :: "string \<Rightarrow> nat option"
  km_heap :: "nat \<Rightarrow> ref_mutex"
  km_next :: nat
  km_pc :: "tid \<Rightarrow> lock_pc"

definition at_pc :: "tid \<Rightarrow> lock_pc \<Rightarrow> keyed_mutex \<Rightarrow> keyed_mutex" where
  "at_pc t pc s = s\<lparr>km_pc := (km_pc s)(t := pc)\<rparr>"

definition set_rm :: "nat \<Rightarrow> ref_mutex \<Rightarrow> keyed_mutex \<Rightarrow> keyed_mutex" where
  "set_rm a rm s = s\<lparr>km_heap := (km_heap s)(a := rm)\<rparr>"

text \<open>The section of \<^verbatim>\<open>Lock\<close>: find or make the key's mutex, count one more reference.\<close>

definition find_or_make :: "string \<Rightarrow> keyed_mutex \<Rightarrow> nat \<times> keyed_mutex" where
  "find_or_make k s =
     (case km_m s k of
        Some a \<Rightarrow> (a, s)
      | None \<Rightarrow> (km_next s, (set_rm (km_next s) \<lparr>rm_holder = None, rm_refs = 0\<rparr> s)
                   \<lparr>km_m := (km_m s)(k \<mapsto> km_next s), km_next := Suc (km_next s)\<rparr>))"

definition add_ref :: "tid \<Rightarrow> string \<Rightarrow> keyed_mutex \<Rightarrow> keyed_mutex" where
  "add_ref t k s =
     (case find_or_make k s of (a, s1) \<Rightarrow>
        let rm = km_heap s1 a in
        at_pc t (Waiting k a) (set_rm a (rm\<lparr>rm_refs := rm_refs rm + 1\<rparr>) s1)\<lparr>km_mu := None\<rparr>)"

text \<open>The section of the returned function: one reference less; the last one removes the entry.\<close>

definition drop_ref :: "tid \<Rightarrow> string \<Rightarrow> nat \<Rightarrow> keyed_mutex \<Rightarrow> keyed_mutex" where
  "drop_ref t k a s =
     (let refs = rm_refs (km_heap s a) - 1;
          s1 = set_rm a ((km_heap s a)\<lparr>rm_refs := refs\<rparr>) s;
          s2 = (if refs = 0 then s1\<lparr>km_m := (km_m s1)(k := None)\<rparr> else s1)
      in (at_pc t Outside s2)\<lparr>km_mu := None\<rparr>)"

definition set_holder :: "nat \<Rightarrow> tid option \<Rightarrow> keyed_mutex \<Rightarrow> keyed_mutex" where
  "set_holder a h s = set_rm a ((km_heap s a)\<lparr>rm_holder := h\<rparr>) s"

inductive lock_step :: "keyed_mutex \<Rightarrow> keyed_mutex \<Rightarrow> bool" where
  call: "km_pc s t = Outside \<Longrightarrow> lock_step s (at_pc t (AtMu k) s)"
| enter: "km_pc s t = AtMu k \<Longrightarrow> km_mu s = None \<Longrightarrow> lock_step s ((at_pc t (InMu k) s)\<lparr>km_mu := Some t\<rparr>)"
| count: "km_pc s t = InMu k \<Longrightarrow> lock_step s (add_ref t k s)"
| acquire: "km_pc s t = Waiting k a \<Longrightarrow> rm_holder (km_heap s a) = None \<Longrightarrow>
    lock_step s (at_pc t (Holding k a) (set_holder a (Some t) s))"
| release: "km_pc s t = Holding k a \<Longrightarrow> lock_step s (at_pc t (Released k a) (set_holder a None s))"
| enter_again: "km_pc s t = Released k a \<Longrightarrow> km_mu s = None \<Longrightarrow>
    lock_step s ((at_pc t (InMuAgain k a) s)\<lparr>km_mu := Some t\<rparr>)"
| uncount: "km_pc s t = InMuAgain k a \<Longrightarrow> lock_step s (drop_ref t k a s)"

definition unlocked :: keyed_mutex where
  "unlocked = \<lparr>km_mu = None, km_m = Map.empty, km_heap = (\<lambda>_. \<lparr>rm_holder = None, rm_refs = 0\<rparr>), km_next = 0,
     km_pc = (\<lambda>_. Outside)\<rparr>"

inductive lock_reached :: "keyed_mutex \<Rightarrow> bool" where
  start: "lock_reached unlocked"
| step: "lock_reached s \<Longrightarrow> lock_step s s' \<Longrightarrow> lock_reached s'"

subsection \<open>The invariant\<close>

text \<open>The mutex a goroutine has counted a reference to.\<close>

fun refers :: "lock_pc \<Rightarrow> (string \<times> nat) option" where
  "refers (Waiting k a) = Some (k, a)"
| "refers (Holding k a) = Some (k, a)"
| "refers (Released k a) = Some (k, a)"
| "refers (InMuAgain k a) = Some (k, a)"
| "refers _ = None"

fun in_section :: "lock_pc \<Rightarrow> bool" where
  "in_section (InMu k) = True"
| "in_section (InMuAgain k a) = True"
| "in_section _ = False"

definition users :: "keyed_mutex \<Rightarrow> nat \<Rightarrow> tid set" where
  "users s a = {t. \<exists>k. refers (km_pc s t) = Some (k, a)}"

definition lock_inv :: "keyed_mutex \<Rightarrow> bool" where
  "lock_inv s \<longleftrightarrow>
     finite {t. km_pc s t \<noteq> Outside} \<and>
     (\<forall>t k a. refers (km_pc s t) = Some (k, a) \<longrightarrow> km_m s k = Some a) \<and>
     (\<forall>k a. km_m s k = Some a \<longrightarrow>
        rm_refs (km_heap s a) = int (card (users s a)) \<and> users s a \<noteq> {} \<and> a < km_next s) \<and>
     (\<forall>k k' a. km_m s k = Some a \<longrightarrow> km_m s k' = Some a \<longrightarrow> k = k') \<and>
     (\<forall>t a. rm_holder (km_heap s a) = Some t \<longleftrightarrow> (\<exists>k. km_pc s t = Holding k a)) \<and>
     (\<forall>t. km_mu s = Some t \<longleftrightarrow> in_section (km_pc s t))"

lemma lock_invD:
  assumes "lock_inv s"
  shows "finite {t. km_pc s t \<noteq> Outside}"
    "\<And>t k a. refers (km_pc s t) = Some (k, a) \<Longrightarrow> km_m s k = Some a"
    "\<And>k a. km_m s k = Some a \<Longrightarrow> rm_refs (km_heap s a) = int (card (users s a)) \<and> users s a \<noteq> {} \<and> a < km_next s"
    "\<And>k k' a. km_m s k = Some a \<Longrightarrow> km_m s k' = Some a \<Longrightarrow> k = k'"
    "\<And>t a. rm_holder (km_heap s a) = Some t \<longleftrightarrow> (\<exists>k. km_pc s t = Holding k a)"
    "\<And>t. km_mu s = Some t \<longleftrightarrow> in_section (km_pc s t)"
  using assms by (simp_all add: lock_inv_def)

lemma finite_users: "lock_inv s \<Longrightarrow> finite (users s a)"
  by (rule finite_subset [OF _ lock_invD(1)]) (auto simp: users_def)

lemma users_mapped: "lock_inv s \<Longrightarrow> t \<in> users s a \<Longrightarrow> \<exists>k. km_m s k = Some a"
  by (auto simp: users_def dest: lock_invD(2))

lemma refers_holding: "lock_inv s \<Longrightarrow> km_pc s t = Holding k a \<Longrightarrow> km_m s k = Some a"
  using lock_invD(2) [of s t k a] by simp

lemma at_pc_simps [simp]:
  "km_pc (at_pc t pc s) = (km_pc s)(t := pc)" "km_m (at_pc t pc s) = km_m s" "km_heap (at_pc t pc s) = km_heap s"
  "km_next (at_pc t pc s) = km_next s" "km_mu (at_pc t pc s) = km_mu s"
  by (simp_all add: at_pc_def)

lemma set_rm_simps [simp]:
  "km_pc (set_rm a rm s) = km_pc s" "km_m (set_rm a rm s) = km_m s" "km_heap (set_rm a rm s) = (km_heap s)(a := rm)"
  "km_next (set_rm a rm s) = km_next s" "km_mu (set_rm a rm s) = km_mu s"
  by (simp_all add: set_rm_def)

text \<open>Steps that neither count nor uncount.\<close>

lemma inv_quiet:
  assumes inv: "lock_inv s" and m: "km_m s' = km_m s" "km_next s' = km_next s"
    and pc: "km_pc s' = (km_pc s)(t := pc)" "refers pc = refers (km_pc s t)"
    and refs: "\<And>a. rm_refs (km_heap s' a) = rm_refs (km_heap s a)"
    and holder: "\<And>u a. rm_holder (km_heap s' a) = Some u \<longleftrightarrow> (\<exists>k. km_pc s' u = Holding k a)"
    and mu: "\<And>u. km_mu s' = Some u \<longleftrightarrow> in_section (km_pc s' u)"
  shows "lock_inv s'"
proof -
  have r: "refers (km_pc s' u) = refers (km_pc s u)" for u using pc by simp
  then have u: "users s' a = users s a" for a by (simp add: users_def)
  have "{u. km_pc s' u \<noteq> Outside} \<subseteq> insert t {u. km_pc s u \<noteq> Outside}" using pc by auto
  then have "finite {u. km_pc s' u \<noteq> Outside}" using lock_invD(1) [OF inv] by (auto intro: finite_subset)
  with inv show ?thesis unfolding lock_inv_def using m r u refs holder mu by simp
qed

text \<open>The state after \<^verbatim>\<open>addRef\<close>, whose map entry is \<open>a\<close>, made by this call or found.\<close>

lemma add_ref_parts:
  assumes f: "find_or_make k s = (a, s1)" and inv: "lock_inv s"
  shows "km_pc (add_ref t k s) = (km_pc s)(t := Waiting k a)" "km_m (add_ref t k s) = (km_m s)(k \<mapsto> a)"
    "km_mu (add_ref t k s) = None" "a < km_next (add_ref t k s)" "km_next s \<le> km_next (add_ref t k s)"
    "km_m s k = Some a \<or> km_m s k = None \<and> a = km_next s \<and> users s a = {}"
proof -
  show "km_pc (add_ref t k s) = (km_pc s)(t := Waiting k a)" "km_m (add_ref t k s) = (km_m s)(k \<mapsto> a)"
    "km_mu (add_ref t k s) = None" "a < km_next (add_ref t k s)" "km_next s \<le> km_next (add_ref t k s)"
    using f lock_invD(3) [OF inv, of k]
    by (auto simp: add_ref_def find_or_make_def Let_def fun_upd_idem split: option.splits)
  show "km_m s k = Some a \<or> km_m s k = None \<and> a = km_next s \<and> users s a = {}"
  proof (cases "km_m s k")
    case None
    have "\<not> km_next s < km_next s" by simp
    then have "users s (km_next s) = {}" using users_mapped [OF inv] lock_invD(3) [OF inv] by blast
    with None f show ?thesis by (auto simp: find_or_make_def)
  qed (use f in \<open>auto simp: find_or_make_def\<close>)
qed

lemma add_ref_heap:
  assumes f: "find_or_make k s = (a, s1)" and inv: "lock_inv s" and t: "km_pc s t = InMu k"
  shows "rm_refs (km_heap (add_ref t k s) b) = (if b = a then int (card (users s a)) + 1 else rm_refs (km_heap s b))"
    "rm_holder (km_heap (add_ref t k s) b) = Some v \<longleftrightarrow> (\<exists>k'. km_pc (add_ref t k s) v = Holding k' b)"
proof -
  note p = add_ref_parts [OF f inv]
  show "rm_refs (km_heap (add_ref t k s) b) = (if b = a then int (card (users s a)) + 1 else rm_refs (km_heap s b))"
    using f lock_invD(3) [OF inv, of k a] p(6) by (auto simp: add_ref_def find_or_make_def Let_def split: option.splits)
  have h: "rm_holder (km_heap (add_ref t k s) b) = (if b = a \<and> km_m s k = None then None else rm_holder (km_heap s b))"
    using f by (auto simp: add_ref_def find_or_make_def Let_def split: option.splits)
  have no: "km_pc s v \<noteq> Holding k' a" if "km_m s k = None" for k'
    using p(6) that refers_holding [OF inv, of v k' a] lock_invD(3) [OF inv, of k' a] by auto
  have "(\<exists>k'. km_pc (add_ref t k s) v = Holding k' b) \<longleftrightarrow> (\<exists>k'. km_pc s v = Holding k' b)"
    using t by (simp add: p(1))
  with h no lock_invD(5) [OF inv, of b v]
  show "rm_holder (km_heap (add_ref t k s) b) = Some v \<longleftrightarrow> (\<exists>k'. km_pc (add_ref t k s) v = Holding k' b)"
    by (cases "b = a \<and> km_m s k = None") simp_all
qed

lemma inv_add_ref:
  assumes inv: "lock_inv s" and t: "km_pc s t = InMu k"
  shows "lock_inv (add_ref t k s)"
proof -
  obtain a s1 where f: "find_or_make k s = (a, s1)" by fastforce
  let ?s = "add_ref t k s"
  note pc = add_ref_parts(1) [OF f inv] and m = add_ref_parts(2) [OF f inv] and mu = add_ref_parts(3) [OF f inv]
    and nxt = add_ref_parts(4,5) [OF f inv, where t = t] and old = add_ref_parts(6) [OF f inv]
    and refs = add_ref_heap(1) [OF f inv t] and holder = add_ref_heap(2) [OF f inv t]
  have u: "users ?s b = (if b = a then insert t (users s a) else users s b)" for b
    using t by (auto simp: users_def pc)
  have t': "t \<notin> users s a" using t by (simp add: users_def)
  have sec: "\<not> in_section (km_pc ?s v)" for v
    using t lock_invD(6) [OF inv, of v] lock_invD(6) [OF inv, of t] by (auto simp: pc)
  have fin: "finite {v. km_pc ?s v \<noteq> Outside}"
    by (rule finite_subset [OF _ finite.insertI [OF lock_invD(1) [OF inv], of t]]) (auto simp: pc)
  show ?thesis
    unfolding lock_inv_def
  proof (intro conjI allI impI)
    fix v k' b
    assume "refers (km_pc ?s v) = Some (k', b)"
    then show "km_m ?s k' = Some b"
      using lock_invD(2) [OF inv, of v k' b] old by (auto simp: pc m split: if_splits)
  next
    fix k' b
    assume k': "km_m ?s k' = Some b"
    have b: "b = a \<longrightarrow> card (insert t (users s a)) = Suc (card (users s a))"
      using t' finite_users [OF inv] by simp
    have other: "b \<noteq> a \<Longrightarrow> km_m s k' = Some b" using k' by (auto simp: m split: if_splits)
    then have old': "b \<noteq> a \<Longrightarrow> rm_refs (km_heap s b) = int (card (users s b)) \<and> users s b \<noteq> {} \<and> b < km_next s"
      using lock_invD(3) [OF inv] by blast
    show "rm_refs (km_heap ?s b) = int (card (users ?s b))" using b old' by (cases "b = a") (simp_all add: refs u)
    show "users ?s b \<noteq> {}" using old' by (cases "b = a") (simp_all add: u)
    show "b < km_next ?s" using old' nxt by (cases "b = a") simp_all
  next
    fix k1 k2 b
    assume "km_m ?s k1 = Some b" "km_m ?s k2 = Some b"
    then show "k1 = k2"
      using lock_invD(4) [OF inv, of k1 b k2] lock_invD(3) [OF inv, of k1 b] lock_invD(3) [OF inv, of k2 b] old
        lock_invD(4) [OF inv, of k b k1] lock_invD(4) [OF inv, of k b k2]
      by (auto simp: m split: if_splits)
  qed (use holder mu sec fin in auto)
qed

lemma drop_ref_heap:
  assumes inv: "lock_inv s" and t: "km_pc s t = InMuAgain k a"
  shows "km_m s k = Some a"
    "rm_refs (km_heap (drop_ref t k a s) b) = (if b = a then int (card (users s a - {t})) else rm_refs (km_heap s b))"
    "km_m (drop_ref t k a s) = (if users s a - {t} = {} then (km_m s)(k := None) else km_m s)"
proof -
  show ka: "km_m s k = Some a" using lock_invD(2) [OF inv, of t k a] t by simp
  have "t \<in> users s a" using t by (simp add: users_def)
  then have card: "int (card (users s a)) - 1 = int (card (users s a - {t}))"
    using card_Suc_Diff1 [OF finite_users [OF inv]] by (metis add_diff_cancel_left' of_nat_Suc)
  show "rm_refs (km_heap (drop_ref t k a s) b) = (if b = a then int (card (users s a - {t})) else rm_refs (km_heap s b))"
    using lock_invD(3) [OF inv ka] card by (simp add: drop_ref_def Let_def)
  have "int (card (users s a)) - 1 = 0 \<longleftrightarrow> users s a - {t} = {}"
    unfolding card using finite_users [OF inv, of a] by simp
  then show "km_m (drop_ref t k a s) = (if users s a - {t} = {} then (km_m s)(k := None) else km_m s)"
    using lock_invD(3) [OF inv ka] by (simp add: drop_ref_def Let_def)
qed

lemma inv_drop_ref:
  assumes inv: "lock_inv s" and t: "km_pc s t = InMuAgain k a"
  shows "lock_inv (drop_ref t k a s)"
proof -
  let ?s = "drop_ref t k a s"
  note ka = drop_ref_heap(1) [OF inv t] and refs = drop_ref_heap(2) [OF inv t] and m = drop_ref_heap(3) [OF inv t]
  have pc: "km_pc ?s = (km_pc s)(t := Outside)" by (simp add: drop_ref_def Let_def)
  have u: "users ?s b = (if b = a then users s a - {t} else users s b)" for b
    using t by (auto simp: users_def pc)
  have mu: "km_mu ?s = None" "km_next ?s = km_next s" by (simp_all add: drop_ref_def Let_def)
  have sec: "\<not> in_section (km_pc ?s v)" for v
    using t lock_invD(6) [OF inv, of v] lock_invD(6) [OF inv, of t] by (auto simp: pc)
  have holder: "rm_holder (km_heap ?s b) = Some v \<longleftrightarrow> (\<exists>k. km_pc ?s v = Holding k b)" for b v
    using t lock_invD(5) [OF inv, of b v] by (auto simp: pc drop_ref_def Let_def)
  have fin: "finite {v. km_pc ?s v \<noteq> Outside}"
    by (rule finite_subset [OF _ lock_invD(1) [OF inv]]) (auto simp: pc)
  show ?thesis
    unfolding lock_inv_def
  proof (intro conjI allI impI)
    fix v k' b
    assume r: "refers (km_pc ?s v) = Some (k', b)"
    then have v: "v \<noteq> t" "refers (km_pc s v) = Some (k', b)" by (auto simp: pc split: if_splits)
    from lock_invD(2) [OF inv v(2)] have kb: "km_m s k' = Some b" .
    have "k' = k \<Longrightarrow> v \<in> users s a - {t}" using v kb ka by (auto simp: users_def)
    then show "km_m ?s k' = Some b" using kb by (auto simp: m)
  next
    fix k' b
    assume "km_m ?s k' = Some b"
    then have kb: "km_m s k' = Some b" "b = a \<longrightarrow> users s a - {t} \<noteq> {}"
      using lock_invD(4) [OF inv ka, of k'] by (auto simp: m split: if_splits)
    show "rm_refs (km_heap ?s b) = int (card (users ?s b))" "users ?s b \<noteq> {}" "b < km_next ?s"
      using kb lock_invD(3) [OF inv kb(1)] by (auto simp: refs u mu)
  next
    fix k1 k2 b
    assume "km_m ?s k1 = Some b" "km_m ?s k2 = Some b"
    then show "k1 = k2" using lock_invD(4) [OF inv, of k1 b k2] by (auto simp: m split: if_splits)
  qed (use holder mu sec fin in auto)
qed

lemma inv_unlocked: "lock_inv unlocked"
  by (simp add: lock_inv_def unlocked_def)

lemma inv_lock_step:
  assumes "lock_step s s'" "lock_inv s"
  shows "lock_inv s'"
  using assms(1)
proof cases
  case (call t k)
  show ?thesis unfolding call(1)
    by (rule inv_quiet [OF assms(2), of _ t "AtMu k"])
      (use call(2) lock_invD(5,6) [OF assms(2)] in auto)
next
  case (enter t k)
  show ?thesis unfolding enter(1)
    by (rule inv_quiet [OF assms(2), of _ t "InMu k"])
      (use enter(2,3) lock_invD(5,6) [OF assms(2)] in \<open>auto simp: at_pc_def\<close>)
next
  case (count t k)
  with inv_add_ref [OF assms(2)] show ?thesis by simp
next
  case (acquire t k a)
  have "km_pc s v \<noteq> Holding k' a" for v k' using lock_invD(5) [OF assms(2), of a v] acquire(3) by auto
  then show ?thesis unfolding acquire(1)
    by (intro inv_quiet [OF assms(2), of _ t "Holding k a"])
      (use acquire(2,3) lock_invD(5,6) [OF assms(2)] in \<open>auto simp: set_holder_def\<close>)
next
  case (release t k a)
  have "rm_holder (km_heap s a) = Some t" using lock_invD(5) [OF assms(2)] release(2) by auto
  then have "km_pc s v \<noteq> Holding k' a" if "v \<noteq> t" for v k'
    using lock_invD(5) [OF assms(2), of a v] that by auto
  then show ?thesis unfolding release(1)
    by (intro inv_quiet [OF assms(2), of _ t "Released k a"])
      (use release(2) lock_invD(5,6) [OF assms(2)] in \<open>auto simp: set_holder_def\<close>)
next
  case (enter_again t k a)
  show ?thesis unfolding enter_again(1)
    by (rule inv_quiet [OF assms(2), of _ t "InMuAgain k a"])
      (use enter_again(2,3) lock_invD(5,6) [OF assms(2)] in \<open>auto simp: at_pc_def\<close>)
next
  case (uncount t k a)
  with inv_drop_ref [OF assms(2)] show ?thesis by simp
qed

lemma lock_reached_inv: "lock_reached s \<Longrightarrow> lock_inv s"
  by (induction rule: lock_reached.induct) (auto intro: inv_unlocked inv_lock_step)

subsection \<open>Mutual exclusion, progress, no leak\<close>

text \<open>One goroutine at a time runs between \<^verbatim>\<open>Lock(key)\<close> and the call of what it returned.\<close>

fun holds :: "lock_pc \<Rightarrow> string \<Rightarrow> bool" where
  "holds (Holding k a) k' = (k = k')"
| "holds _ k' = False"

lemma holds_iff: "holds pc k \<longleftrightarrow> (\<exists>a. pc = Holding k a)"
  by (cases pc) auto

text \<open>
  C24: two goroutines never hold the lock of the same key, however their steps interleave and however
  often entries are dropped and made again.
\<close>

theorem keyed_mutex_excludes:
  assumes "lock_reached s" "holds (km_pc s t) k" "holds (km_pc s u) k"
  shows "t = u"
proof -
  note inv = lock_reached_inv [OF assms(1)]
  from assms(2,3) obtain a b where h: "km_pc s t = Holding k a" "km_pc s u = Holding k b" by (auto simp: holds_iff)
  from refers_holding [OF inv h(1)] refers_holding [OF inv h(2)] have "a = b" by simp
  with lock_invD(5) [OF inv, of a t] lock_invD(5) [OF inv, of a u] h show ?thesis by auto
qed

text \<open>Some goroutine that is inside can move: the one in the critical section, or when there is none, any but those
  that wait for a holder, which can itself move.\<close>

definition can_move :: "keyed_mutex \<Rightarrow> bool" where
  "can_move s \<longleftrightarrow> (\<exists>t s'. km_pc s t \<noteq> Outside \<and> lock_step s s' \<and> km_pc s' t \<noteq> km_pc s t)"

lemma can_moveI: "km_pc s t \<noteq> Outside \<Longrightarrow> lock_step s s' \<Longrightarrow> km_pc s' t \<noteq> km_pc s t \<Longrightarrow> can_move s"
  unfolding can_move_def by blast

lemma moves_in_section:
  assumes inv: "lock_inv s" and u: "km_mu s = Some u"
  shows "can_move s"
proof -
  have "in_section (km_pc s u)" using u lock_invD(6) [OF inv] by simp
  then show ?thesis
  proof (cases "km_pc s u")
    case (InMu k)
    have "km_pc (add_ref u k s) u \<noteq> InMu k" by (simp add: add_ref_def Let_def split: prod.splits)
    with InMu lock_step.count [of s u k] show ?thesis by (intro can_moveI [of s u]) simp_all
  next
    case (InMuAgain k a)
    have "km_pc (drop_ref u k a s) u \<noteq> InMuAgain k a" by (simp add: drop_ref_def Let_def)
    with InMuAgain lock_step.uncount [of s u k a] show ?thesis by (intro can_moveI [of s u]) simp_all
  qed auto
qed

lemma moves_outside_section:
  assumes inv: "lock_inv s" and None: "km_mu s = None" and t: "km_pc s t \<noteq> Outside"
  shows "can_move s"
proof (cases "km_pc s t")
  case (AtMu k)
  with None lock_step.enter [of s t k] show ?thesis by (auto intro: can_moveI [of s t])
next
  case (InMu k)
  with None lock_invD(6) [OF inv, of t] show ?thesis by simp
next
  case (Waiting k a)
  show ?thesis
  proof (cases "rm_holder (km_heap s a)")
    case None
    with Waiting lock_step.acquire [of s t k a] show ?thesis by (auto intro: can_moveI [of s t])
  next
    case (Some u)
    then obtain k' where "km_pc s u = Holding k' a" using lock_invD(5) [OF inv] by auto
    with lock_step.release [of s u k' a] show ?thesis by (auto intro: can_moveI [of s u])
  qed
next
  case (Holding k a)
  with lock_step.release [of s t k a] show ?thesis by (auto intro: can_moveI [of s t])
next
  case (Released k a)
  with None lock_step.enter_again [of s t k a] show ?thesis by (auto intro: can_moveI [of s t])
next
  case (InMuAgain k a)
  with None lock_invD(6) [OF inv, of t] show ?thesis by simp
qed (use t in simp)

text \<open>
  C25: the locks never get stuck: while some goroutine is between calling \<^verbatim>\<open>Lock\<close> and having released
  it, some such goroutine can take its next step; when there is none, no entry is left in the table.
\<close>

theorem keyed_mutex_progress:
  assumes "lock_reached s"
  shows "if \<forall>t. km_pc s t = Outside then km_m s = Map.empty
    else \<exists>t s'. km_pc s t \<noteq> Outside \<and> lock_step s s' \<and> km_pc s' t \<noteq> km_pc s t"
proof (cases "\<forall>t. km_pc s t = Outside")
  case True
  then have "users s a = {}" for a by (simp add: users_def)
  then have "km_m s k = None" for k using lock_invD(3) [OF lock_reached_inv [OF assms], of k] by (cases "km_m s k") auto
  with True show ?thesis by auto
next
  case False
  then obtain t where t: "km_pc s t \<noteq> Outside" by auto
  note inv = lock_reached_inv [OF assms]
  have "can_move s" using moves_in_section [OF inv] moves_outside_section [OF inv _ t] by (cases "km_mu s") auto
  with False show ?thesis by (simp only: can_move_def if_False)
qed

text \<open>Two goroutines at one key: the first holds it, the second has counted its reference and waits.\<close>

lemma two_waiting:
  "lock_reached (at_pc 0 (Holding ''/m'' 0) (set_holder 0 (Some 0)
     (add_ref 1 ''/m'' ((at_pc 1 (InMu ''/m'') (at_pc 1 (AtMu ''/m'')
       (add_ref 0 ''/m'' ((at_pc 0 (InMu ''/m'') (at_pc 0 (AtMu ''/m'') unlocked))\<lparr>km_mu := Some 0\<rparr>))))\<lparr>km_mu := Some 1\<rparr>))))"
  by (rule lock_reached.step [OF _ lock_step.acquire],
      rule lock_reached.step [OF _ lock_step.count],
      rule lock_reached.step [OF _ lock_step.enter],
      rule lock_reached.step [OF _ lock_step.call],
      rule lock_reached.step [OF _ lock_step.count],
      rule lock_reached.step [OF _ lock_step.enter],
      rule lock_reached.step [OF lock_reached.start lock_step.call])
    (simp_all add: unlocked_def add_ref_def find_or_make_def Let_def set_rm_def at_pc_def)

lemma keyed_mutex_excludes_witness:
  "\<exists>s. lock_reached s \<and> holds (km_pc s 0) ''/m'' \<and> km_pc s 1 = Waiting ''/m'' 0 \<and>
     (\<forall>t. holds (km_pc s t) ''/m'' \<longrightarrow> t = 0)"
proof -
  note r = two_waiting
  show ?thesis
    by (rule exI, rule conjI, rule r, intro conjI allI impI)
      (auto simp: unlocked_def add_ref_def find_or_make_def Let_def set_rm_def at_pc_def set_holder_def
        intro: keyed_mutex_excludes [OF r])
qed

lemma keyed_mutex_progress_witness:
  "\<exists>s. lock_reached s \<and> (\<exists>t. km_pc s t \<noteq> Outside) \<and>
     (\<exists>t s'. km_pc s t \<noteq> Outside \<and> lock_step s s' \<and> km_pc s' t \<noteq> km_pc s t)"
proof -
  have r: "lock_reached (at_pc 0 (AtMu ''/m'') unlocked)"
    by (rule lock_reached.step [OF lock_reached.start lock_step.call]) (simp add: unlocked_def)
  have "km_pc (at_pc 0 (AtMu ''/m'') unlocked) 0 \<noteq> Outside" by simp
  then have n: "\<not> (\<forall>t. km_pc (at_pc 0 (AtMu ''/m'') unlocked) t = Outside)" by blast
  from keyed_mutex_progress [OF r, unfolded if_not_P [OF n]] n r show ?thesis by blast
qed

end
