(* ===== verification/Stamp.thy ===== *)
theory Stamp
  imports GoStr
begin

text \<open>
  The time stamp in front of a recycled file's name, layout \<^verbatim>\<open>20060102-150405\<close> in UTC: what package
  \<^verbatim>\<open>time\<close> does with it. Seconds since 1970 on one side, fifteen characters on the other; the
  proleptic Gregorian calendar in between.
\<close>

definition leap :: "nat \<Rightarrow> bool" where
  "leap y \<longleftrightarrow> 4 dvd y \<and> (\<not> 100 dvd y \<or> 400 dvd y)"

fun year_days :: "nat \<Rightarrow> nat" where
  "year_days y = (if leap y then 366 else 365)"

definition month_days :: "nat \<Rightarrow> nat list" where
  "month_days y = [31, if leap y then 29 else 28, 31, 30, 31, 30, 31, 31, 30, 31, 30, 31]"

text \<open>Counting down from a day number: the position of the part it falls into, and the rest.\<close>

fun split_days :: "nat list \<Rightarrow> nat \<Rightarrow> nat \<times> nat" where
  "split_days [] d = (0, d)"
| "split_days (n # ns) d = (if d < n then (0, d) else (case split_days ns (d - n) of (i, r) \<Rightarrow> (Suc i, r)))"

definition years :: "nat list" where
  "years = map year_days [1970..<10000]"

definition pad :: "nat \<Rightarrow> nat \<Rightarrow> string" where
  "pad w n = (let s = nat_digits n in replicate (w - length s) (CHR ''0'') @ s)"

text \<open>\<^verbatim>\<open>Format\<close>, for times from 1970 to the end of the year 9999.\<close>

definition stamp_format :: "nat \<Rightarrow> string" where
  "stamp_format t =
     (let d = t div 86400; s = t mod 86400 in
      case split_days years d of (yi, yd) \<Rightarrow>
      case split_days (month_days (1970 + yi)) yd of (mi, md) \<Rightarrow>
        pad 4 (1970 + yi) @ pad 2 (mi + 1) @ pad 2 (md + 1) @ ''-'' @
        pad 2 (s div 3600) @ pad 2 (s div 60 mod 60) @ pad 2 (s mod 60))"

text \<open>
  \<^verbatim>\<open>Parse\<close>: digits in the places of the layout, a month that exists, a day the month has, hours,
  minutes and seconds in range. Years before 1970 give negative times.
\<close>

definition num2 :: "string \<Rightarrow> nat option" where
  "num2 s = read_digits 0 s"

definition day_number :: "nat \<Rightarrow> nat \<Rightarrow> nat \<Rightarrow> int" where
  "day_number y m d =
     (if 1970 \<le> y then int (sum_list (map year_days [1970..<y])) else - int (sum_list (map year_days [y..<1970])))
     + int (sum_list (take (m - 1) (month_days y))) + int d - 1"

definition stamp_parse :: "string \<Rightarrow> int option" where
  "stamp_parse s =
     (if length s \<noteq> 15 \<or> s ! 8 \<noteq> CHR ''-'' then None
      else case (num2 (take 4 s), num2 (take 2 (drop 4 s)), num2 (take 2 (drop 6 s)),
                 num2 (take 2 (drop 9 s)), num2 (take 2 (drop 11 s)), num2 (take 2 (drop 13 s))) of
        (Some y, Some m, Some d, Some hh, Some mm, Some ss) \<Rightarrow>
          if 1 \<le> m \<and> m \<le> 12 \<and> 1 \<le> d \<and> d \<le> month_days y ! (m - 1) \<and> hh < 24 \<and> mm < 60 \<and> ss < 60
          then Some (day_number y m d * 86400 + int hh * 3600 + int mm * 60 + int ss)
          else None
      | _ \<Rightarrow> None)"

subsection \<open>Formatting and parsing agree\<close>

lemma split_days_spec:
  "d < sum_list ns \<Longrightarrow> split_days ns d = (i, r) \<Longrightarrow> i < length ns \<and> r < ns ! i \<and> d = sum_list (take i ns) + r"
proof (induction ns d arbitrary: i r rule: split_days.induct)
  case (2 n ns d)
  show ?case
  proof (cases "d < n")
    case False
    then obtain j where j: "split_days ns (d - n) = (j, r)" "i = Suc j"
      using 2(3) by (auto split: prod.splits)
    have "d - n < sum_list ns" using 2(2) False by simp
    from 2(1) [OF False this j(1)] j(2) False show ?thesis by auto
  qed (use 2(3) in auto)
qed simp

lemma nat_digits_length:
  "n < 10 \<Longrightarrow> length (nat_digits n) = 1" "n < 100 \<Longrightarrow> length (nat_digits n) \<le> 2" "n < 10000 \<Longrightarrow> length (nat_digits n) \<le> 4"
proof -
  have step: "length (nat_digits n) \<le> Suc k" if "n < 10 \<or> length (nat_digits (n div 10)) \<le> k" for n k
    using that by (subst nat_digits.simps) auto
  show "length (nat_digits n) = 1" if "n < 10" using that by (subst nat_digits.simps) simp
  show two: "length (nat_digits n) \<le> 2" if "n < 100" for n
    using step [of n 1] step [of "n div 10" 0] that by simp
  show "length (nat_digits n) \<le> 4" if "n < 10000"
    using step [of n 3] step [of "n div 10" 2] two [of "n div 10 div 10"] that by simp
qed

lemma read_zeros: "read_digits 0 (replicate k (CHR ''0'') @ s) = read_digits 0 s"
proof (induction k)
  case (Suc k)
  have "digit_val (CHR ''0'') = Some 0" by code_simp
  with Suc show ?case by simp
qed simp

lemma num2_pad: "num2 (pad w n) = Some n"
  by (simp add: num2_def pad_def Let_def read_zeros read_nat_digits)

lemma length_pad: "n < 100 \<Longrightarrow> length (pad 2 n) = 2" "n < 10000 \<Longrightarrow> length (pad 4 n) = 4"
  using nat_digits_length(2,3) [of n] by (simp_all add: pad_def Let_def)

definition stamp_end :: nat where
  "stamp_end = sum_list years * 86400"

lemma take_years: "i \<le> 8030 \<Longrightarrow> take i years = map year_days [1970..<1970 + i]"
  unfolding years_def take_map by (subst take_upt) (linarith, rule refl)

lemma length_years: "length years = 8030"
  unfolding years_def length_map length_upt by arith

lemma nth_years: "i < 8030 \<Longrightarrow> years ! i = year_days (1970 + i)"
  unfolding years_def by (subst nth_map) (simp_all only: length_upt nth_upt)

lemma month_days_le: "m < 12 \<Longrightarrow> month_days y ! m \<le> 31"
proof -
  assume "m < 12"
  then have "month_days y ! m \<in> set (month_days y)" by (intro nth_mem) (simp add: month_days_def)
  moreover have "\<forall>d \<in> set (month_days y). d \<le> 31" by (simp add: month_days_def)
  ultimately show ?thesis by blast
qed

lemma sum_month_days: "sum_list (month_days y) = year_days y"
  by (simp add: month_days_def)

lemma stamp_parts:
  assumes "length a = 4" "length b = 2" "length c = 2" "length h = 2" "length m = 2" "length s = 2"
  shows "let f = a @ b @ c @ x # h @ m @ s in length f = 15 \<and> f ! 8 = x \<and> take 4 f = a \<and> take 2 (drop 4 f) = b \<and>
    take 2 (drop 6 f) = c \<and> take 2 (drop 9 f) = h \<and> take 2 (drop 11 f) = m \<and> take 2 (drop 13 f) = s"
  using assms by (simp add: Let_def nth_append)

lemma stamp_parse_fields:
  assumes "length f = 15" "f ! 8 = CHR ''-''" "num2 (take 4 f) = Some y" "num2 (take 2 (drop 4 f)) = Some mo"
    "num2 (take 2 (drop 6 f)) = Some d" "num2 (take 2 (drop 9 f)) = Some hh" "num2 (take 2 (drop 11 f)) = Some mm"
    "num2 (take 2 (drop 13 f)) = Some ss"
    "1 \<le> mo" "mo \<le> 12" "1 \<le> d" "d \<le> month_days y ! (mo - 1)" "hh < 24" "mm < 60" "ss < 60"
  shows "stamp_parse f = Some (day_number y mo d * 86400 + int hh * 3600 + int mm * 60 + int ss)"
  unfolding stamp_parse_def assms(3-8) using assms(1,2,9-) by simp

lemma stamp_parse_parts:
  assumes "length a = 4" "length b = 2" "length c = 2" "length h = 2" "length m = 2" "length s = 2"
    "num2 a = Some ya" "num2 b = Some mo" "num2 c = Some da" "num2 h = Some hh" "num2 m = Some mm" "num2 s = Some ss"
    "1 \<le> mo" "mo \<le> 12" "1 \<le> da" "da \<le> month_days ya ! (mo - 1)" "hh < 24" "mm < 60" "ss < 60"
  shows "stamp_parse (a @ b @ c @ CHR ''-'' # h @ m @ s) =
    Some (day_number ya mo da * 86400 + int hh * 3600 + int mm * 60 + int ss)"
proof (rule stamp_parse_fields [OF _ _ _ _ _ _ _ _ assms(13-19)])
qed (use stamp_parts [OF assms(1-6), of "CHR ''-''"] assms(7-12) in \<open>simp_all only: Let_def\<close>)

lemma clock_parts: "(s :: nat) = s div 3600 * 3600 + s div 60 mod 60 * 60 + s mod 60"
proof -
  have "s div 3600 = s div 60 div 60" by (simp add: div_mult2_eq [symmetric])
  moreover have "s = s div 60 * 60 + s mod 60" "s div 60 = s div 60 div 60 * 60 + s div 60 mod 60"
    by (rule div_mult_mod_eq [symmetric])+
  ultimately show ?thesis by linarith
qed

lemma stamp_round_trip:
  assumes "t < stamp_end"
  shows "length (stamp_format t) = 15 \<and> stamp_parse (stamp_format t) = Some (int t)"
proof -
  define d s where "d = t div 86400" and "s = t mod 86400"
  obtain yi yd where y: "split_days years d = (yi, yd)" by fastforce
  have d: "d < sum_list years" using assms by (simp add: stamp_end_def d_def div_less_iff_less_mult)
  from split_days_spec [OF d y] have y': "yi < 8030" "yd < year_days (1970 + yi)" "d = sum_list (take yi years) + yd"
    by (auto simp: length_years nth_years simp del: year_days.simps)
  obtain mi md where m: "split_days (month_days (1970 + yi)) yd = (mi, md)" by fastforce
  have "yd < sum_list (month_days (1970 + yi))" using y'(2) by (simp add: sum_month_days)
  from split_days_spec [OF this m] have m': "mi < 12" "md < month_days (1970 + yi) ! mi"
    "yd = sum_list (take mi (month_days (1970 + yi))) + md" by (auto simp: month_days_def)
  have md: "md < 31" using m'(2) month_days_le [OF m'(1), of "1970 + yi"] by linarith
  have "s < 86400" by (simp add: s_def)
  then have s: "s div 3600 < 24" "s div 60 mod 60 < 60" "s mod 60 < 60"
    by (simp_all add: div_less_iff_less_mult)
  have f: "stamp_format t = pad 4 (1970 + yi) @ pad 2 (mi + 1) @ pad 2 (md + 1) @ CHR ''-'' #
        pad 2 (s div 3600) @ pad 2 (s div 60 mod 60) @ pad 2 (s mod 60)"
    using y m by (simp add: stamp_format_def Let_def d_def s_def)
  have len: "length (pad 4 (1970 + yi)) = 4" "length (pad 2 (mi + 1)) = 2" "length (pad 2 (md + 1)) = 2"
    "length (pad 2 (s div 3600)) = 2" "length (pad 2 (s div 60 mod 60)) = 2" "length (pad 2 (s mod 60)) = 2"
    using y'(1) m'(1) md s by (simp_all add: length_pad)
  have p: "stamp_parse (stamp_format t) = Some (day_number (1970 + yi) (mi + 1) (md + 1) * 86400 +
      int (s div 3600) * 3600 + int (s div 60 mod 60) * 60 + int (s mod 60))"
    unfolding f using m'(1,2) s by (intro stamp_parse_parts len num2_pad) simp_all
  have "int (sum_list (map year_days [1970..<1970 + yi])) = int (sum_list (take yi years))"
    using y'(1) by (simp only: take_years less_imp_le)
  then have "day_number (1970 + yi) (mi + 1) (md + 1) = int d"
    using y'(3) m'(3) by (simp add: day_number_def)
  moreover have "int t = int d * 86400 + int s"
    unfolding d_def s_def by (metis div_mult_mod_eq of_nat_add of_nat_mult of_nat_numeral)
  moreover have "int s = int (s div 3600) * 3600 + int (s div 60 mod 60) * 60 + int (s mod 60)"
    using arg_cong [OF clock_parts [of s], of int] by (simp only: of_nat_add of_nat_mult of_nat_numeral)
  moreover have "length (stamp_format t) = 15" unfolding f using len by simp
  ultimately have "length (stamp_format t) = 15 \<and> day_number (1970 + yi) (mi + 1) (md + 1) * 86400 +
      int (s div 3600) * 3600 + int (s div 60 mod 60) * 60 + int (s mod 60) = int t" by linarith
  then show ?thesis by (simp only: p)
qed

end
