(* ===== verification/Recycle.thy ===== *)
theory Recycle
  imports RunProps Stamp
begin

text \<open>
  Deleting external subtitles: \<^verbatim>\<open>DeleteSidecar\<close>, the recycle directory, its unique names and its
  purge. The search for a free name is a loop that need not end, so it is a partial function and
  its end is a theorem; the lock around it serialises the callers and needs no model here.
\<close>

subsection \<open>System calls\<close>

text \<open>\<^verbatim>\<open>os.MkdirAll\<close>: every missing element of the path becomes a directory.\<close>

fun mkdirs :: "path list \<Rightarrow> world \<Rightarrow> bool \<times> world" where
  "mkdirs [] w = (True, w)"
| "mkdirs (p # ps) w =
     (case follow max_links (w_fs w) p of
        Some (_, nd) \<Rightarrow> if in_kind nd = Dir then mkdirs ps w else (False, w)
      | None \<Rightarrow>
          if fs_names (w_fs w) p = None
          then mkdirs ps (w\<lparr>w_fs := add_file p ((new_inode w)\<lparr>in_kind := Dir, in_mode := 0x1ED\<rparr>) (w_fs w)\<rparr>)
          else (False, w))"

definition parents :: "path \<Rightarrow> path list" where
  "parents p = (let es = path_elems p in map (\<lambda>n. elems_path (is_abs p) (take n es)) [1..<Suc (length es)])"

definition os_mkdir_all :: "path \<Rightarrow> world \<Rightarrow> bool \<times> world" where
  "os_mkdir_all p w = (case fault w of (b, w') \<Rightarrow> if b then (False, w') else mkdirs (parents (canon w' p)) w')"

text \<open>\<^verbatim>\<open>os.Create\<close> empties a file that exists.\<close>

definition os_create :: "path \<Rightarrow> world \<Rightarrow> bool \<times> world" where
  "os_create p w =
     (case os_stat p w of
        (Some (i, nd), w') \<Rightarrow>
          if in_kind nd = Dir then (False, w')
          else (True, w'\<lparr>w_fs := set_inode i (\<lambda>nd. nd\<lparr>in_data := '''', in_size := 0\<rparr>) (w_fs w')\<rparr>)
      | (None, w') \<Rightarrow>
          if fs_names (w_fs w') (canon w' p) = None
          then (case fault w' of (b, w'') \<Rightarrow>
             if b then (False, w'') else (True, w''\<lparr>w_fs := add_file (canon w'' p) (new_inode w'') (w_fs w'')\<rparr>))
          else (False, w'))"

text \<open>\<^verbatim>\<open>io.Copy\<close> from an open file, here the inode, into the one just created.\<close>

definition os_copy :: "nat \<Rightarrow> path \<Rightarrow> world \<Rightarrow> bool \<times> world" where
  "os_copy i p w =
     (let nd = fs_inodes (w_fs w) i in os_update p (\<lambda>out. out\<lparr>in_data := in_data nd, in_size := in_size nd\<rparr>) w)"

subsection \<open>Names in the recycle directory\<close>

definition subtitle_exts :: "string list" where
  "subtitle_exts = [''.srt'', ''.ass'', ''.ssa'', ''.sub'', ''.idx'', ''.vtt'', ''.smi'', ''.sup'']"

definition is_subtitle_path :: "path \<Rightarrow> bool" where
  "is_subtitle_path p \<longleftrightarrow> to_lower (file_ext p) \<in> set subtitle_exts"

text \<open>The extension of a subtitle has four characters, so the length left for the stem is positive.\<close>

definition cut_stem :: "string \<Rightarrow> string" where
  "cut_stem name = (let ext = file_ext name in truncate_bytes (trim_suffix name ext) (200 - length ext))"

text \<open>The candidates in the order they are tried.\<close>

definition candidate :: "path \<Rightarrow> string \<Rightarrow> string \<Rightarrow> nat \<Rightarrow> path" where
  "candidate dir stem ext i =
     path_join dir (if i = 0 then stem @ ext else stem @ ''_'' @ nat_digits i @ ext)"

partial_function (option) unique_from :: "path \<Rightarrow> string \<Rightarrow> string \<Rightarrow> nat \<Rightarrow> world \<Rightarrow> (path \<times> world) option" where
  "unique_from dir stem ext i w =
     (case os_stat (candidate dir stem ext i) w of
        (None, w') \<Rightarrow> Some (candidate dir stem ext i, w')
      | (Some _, w') \<Rightarrow> unique_from dir stem ext (Suc i) w')"

definition unique_dst :: "path \<Rightarrow> string \<Rightarrow> world \<Rightarrow> (path \<times> world) option" where
  "unique_dst dir name w = unique_from dir (cut_stem name) (file_ext name) 0 w"

subsection \<open>Moving and deleting\<close>

datatype sidecar_err = SidecarOS string | NotASubtitle path

type_synonym 'a sidecar_op = "(world, sidecar_err, 'a) op"

text \<open>Steps whose failure removes the partial copy.\<close>

definition or_remove :: "path \<Rightarrow> 'a sidecar_op \<Rightarrow> 'a sidecar_op" where
  "or_remove tmp m w = (case m w of (Inl e, w') \<Rightarrow> (Inl e, snd (os_remove tmp w')) | (Inr a, w') \<Rightarrow> (Inr a, w'))"

definition copy_over :: "nat \<Rightarrow> path \<Rightarrow> path \<Rightarrow> unit sidecar_op" where
  "copy_over i tmp dst =
     or_remove tmp
       (andthen (ok_or (os_copy i tmp) (SidecarOS ''copy'')) (\<lambda>_.
        andthen (ok_or os_file_call (SidecarOS ''sync'')) (\<lambda>_.
        andthen (ok_or os_file_call (SidecarOS ''close'')) (\<lambda>_.
        ok_or (os_rename tmp dst) (SidecarOS ''rename'')))))"

definition move_file :: "path \<Rightarrow> path \<Rightarrow> unit sidecar_op" where
  "move_file src dst w =
     (case os_rename src dst w of
        (True, w') \<Rightarrow> (Inr (), w')
      | (False, w') \<Rightarrow>
          andthen (some_or (os_stat src) (SidecarOS ''open'')) (\<lambda>info.
          andthen (ok_or (os_create (dst @ ''.part'')) (SidecarOS ''create'')) (\<lambda>_.
          andthen (copy_over (fst info) (dst @ ''.part'') dst) (\<lambda>_.
          ok_or (os_remove src) (SidecarOS ''remove'')))) w')"

text \<open>The stamp and the name the file had.\<close>

definition recycled_name :: "path \<Rightarrow> int \<Rightarrow> string" where
  "recycled_name p now = stamp_format (nat now) @ ''_'' @ base_name p"

definition recycle :: "path \<Rightarrow> path \<Rightarrow> world \<Rightarrow> ((sidecar_err + string) \<times> world) option" where
  "recycle dir p w =
     (case unique_dst dir (recycled_name p (w_now w)) w of
        None \<Rightarrow> None
      | Some (dst, w') \<Rightarrow>
          Some (andthen (move_file p dst) (\<lambda>_. ret (''recycle '' @ p @ '' -> '' @ dst)) w'))"

definition sidecar_result :: "int \<Rightarrow> bool \<Rightarrow> string \<Rightarrow> engine_result" where
  "sidecar_result sz dry cmd = \<lparr>er_tool = ''fs'', er_command = cmd, er_saved = sz, er_dry_run = dry\<rparr>"

text \<open>An empty recycle directory means plain removal.\<close>

definition delete_sidecar :: "path \<Rightarrow> path \<Rightarrow> bool \<Rightarrow> world \<Rightarrow> ((sidecar_err + engine_result) \<times> world) option" where
  "delete_sidecar dir p dry w =
     (case os_stat p w of
        (None, w1) \<Rightarrow> Some (Inl (SidecarOS ''stat''), w1)
      | (Some (i, nd), w1) \<Rightarrow>
          if in_kind nd = Dir \<or> \<not> is_subtitle_path p then Some (Inl (NotASubtitle p), w1)
          else if dry then Some (Inr (sidecar_result (in_size nd) dry (''delete '' @ p)), w1)
          else if dir \<noteq> '''' then
            (case os_mkdir_all dir w1 of
               (False, w2) \<Rightarrow> Some (Inl (SidecarOS ''mkdir''), w2)
             | (True, w2) \<Rightarrow>
                 (case recycle dir p w2 of
                    None \<Rightarrow> None
                  | Some (Inl e, w3) \<Rightarrow> Some (Inl e, w3)
                  | Some (Inr cmd, w3) \<Rightarrow> Some (Inr (sidecar_result (in_size nd) dry cmd), w3)))
          else
            (case os_remove p w1 of
               (False, w2) \<Rightarrow> Some (Inl (SidecarOS ''remove''), w2)
             | (True, w2) \<Rightarrow> Some (Inr (sidecar_result (in_size nd) dry (''delete '' @ p)), w2)))"

subsection \<open>Purging\<close>

text \<open>The answer of \<^verbatim>\<open>os.ReadDir\<close>: each entry with what its \<^verbatim>\<open>Info\<close> returned.\<close>

datatype dir_listing = NoSuchDir | Unreadable | Entries "(string \<times> inode option) list"

definition entry_age :: "string \<Rightarrow> inode \<Rightarrow> int" where
  "entry_age name nd =
     (if 15 < length name
      then (case stamp_parse (take 15 name) of Some t \<Rightarrow> t | None \<Rightarrow> in_mtime nd)
      else in_mtime nd)"

fun purge_entries :: "path \<Rightarrow> int \<Rightarrow> (string \<times> inode option) list \<Rightarrow> world \<Rightarrow> nat \<times> world" where
  "purge_entries dir cutoff [] w = (0, w)"
| "purge_entries dir cutoff ((name, info) # es) w =
     (case info of
        None \<Rightarrow> purge_entries dir cutoff es w
      | Some nd \<Rightarrow>
          if in_kind nd = Dir \<or> cutoff \<le> entry_age name nd then purge_entries dir cutoff es w
          else (case os_remove (path_join dir name) w of (removed, w1) \<Rightarrow>
             case purge_entries dir cutoff es w1 of (n, w2) \<Rightarrow> (if removed then Suc n else n, w2)))"

definition purge_recycle :: "path \<Rightarrow> int \<Rightarrow> dir_listing \<Rightarrow> world \<Rightarrow> (string + nat) \<times> world" where
  "purge_recycle dir older listing w =
     (if dir = '''' then (Inr 0, w)
      else (case listing of
         NoSuchDir \<Rightarrow> (Inr 0, w)
       | Unreadable \<Rightarrow> (Inl ''read recycle directory'', w)
       | Entries es \<Rightarrow> (case purge_entries dir (w_now w - older) es w of (n, w') \<Rightarrow> (Inr n, w'))))"

end
