(* ===== verification/RecycleProps.thy ===== *)
theory RecycleProps
  imports Recycle
begin

text \<open>
  A deleted subtitle is never lost when there is a recycle directory, the search for a free name
  ends, the age of a recycled file is the time it was recycled.
\<close>

subsection \<open>Names in a directory\<close>

lemma clean_child:
  assumes "is_abs d" "plain_elem n"
  obtains es where "clean d = sep # join [sep] es" "\<forall>e \<in> set es. plain_elem e"
    "clean (d @ sep # n) = sep # join [sep] (es @ [n])"
proof -
  let ?es = "clean_elems True (split_on sep d)"
  have n: "sep \<notin> set n" using assms(2) by (simp add: plain_elem_def)
  have app: "split_on sep (d @ sep # n) = split_on sep d @ [n]"
  proof (induction d)
    case Nil
    show ?case using n by (simp add: split_on_no_sep)
  next
    case (Cons c d)
    then show ?case by (cases "split_on sep d") (auto simp: Let_def)
  qed
  have "clean_elems True (split_on sep (d @ sep # n)) = ?es @ [n]"
    using assms(2) unfolding app by (simp add: clean_elems_def push_elem_def plain_elem_def)
  moreover have "is_abs (d @ sep # n)" using assms(1) by (auto simp: is_abs_def)
  ultimately show thesis
    using assms(1) that [of ?es] clean_elems_plain [of d] by (simp add: clean_def Let_def)
qed

lemma canon_child:
  assumes "is_abs d" "plain_elem n"
  shows "canon w (path_join d n) = clean (d @ sep # n)"
proof -
  have "d \<noteq> ''''" using assms(1) by (auto simp: is_abs_def)
  then have p: "path_join d n = clean (d @ sep # n)" by (simp add: path_join_def)
  have a: "is_abs (d @ sep # n)" using assms(1) by (auto simp: is_abs_def)
  show ?thesis unfolding p canon_def abs_path_def by (simp add: is_abs_clean [OF a] clean_idem_abs [OF a])
qed

lemma canon_child_inj:
  assumes "is_abs d" "plain_elem m" "plain_elem n" "canon w (path_join d m) = canon w (path_join d n)"
  shows "m = n"
proof -
  obtain es where a: "clean d = sep # join [sep] es" "\<forall>e \<in> set es. plain_elem e"
    "clean (d @ sep # m) = sep # join [sep] (es @ [m])" by (rule clean_child [OF assms(1,2)])
  obtain fs where b: "clean d = sep # join [sep] fs" "\<forall>e \<in> set fs. plain_elem e"
    "clean (d @ sep # n) = sep # join [sep] (fs @ [n])" by (rule clean_child [OF assms(1,3)])
  have "sep # join [sep] es = sep # join [sep] fs" using a(1) b(1) by (rule subst)
  then have "es = fs" by (rule rooted_inj [OF a(2) b(2), THEN iffD1])
  moreover have "sep # join [sep] (es @ [m]) = sep # join [sep] (fs @ [n])"
    using assms(4) by (simp add: canon_child assms(1-3) a(3) b(3))
  then have "es @ [m] = fs @ [n]" using a(2) b(2) assms(2,3) by (subst (asm) rooted_inj) auto
  ultimately show ?thesis by simp
qed

lemma digits_no_sep: "sep \<notin> set (nat_digits n)"
proof
  assume "sep \<in> set (nat_digits n)"
  then obtain d where d: "d < 10" "sep = digit_char d" using nat_digits_set by blast
  have "digit_val sep = Some d" unfolding d(2) by (rule digit_val_digit_char) (rule d)
  moreover have "digit_val sep = None" by code_simp
  ultimately show False by simp
qed

lemma numbered_plain:
  assumes "sep \<notin> set stem" "sep \<notin> set ext"
  shows "plain_elem (stem @ ''_'' @ nat_digits i @ ext)"
proof -
  let ?n = "stem @ ''_'' @ nat_digits i @ ext"
  have ne: "?n \<noteq> s" if "CHR ''_'' \<notin> set s" for s
    using that by (auto dest!: arg_cong [of _ _ set])
  have "?n \<noteq> ''''" "?n \<noteq> ''.''" "?n \<noteq> ''..''" by (rule ne, simp)+
  then show ?thesis using assms digits_no_sep [of i] by (simp add: plain_elem_def sep_def)
qed

lemma candidate_inj:
  assumes "is_abs dir" "sep \<notin> set stem" "sep \<notin> set ext" "0 < i" "0 < j"
    "canon w (candidate dir stem ext i) = canon w (candidate dir stem ext j)"
  shows "i = j"
proof -
  let ?n = "\<lambda>i. stem @ ''_'' @ nat_digits i @ ext"
  have c: "0 < k \<Longrightarrow> candidate dir stem ext k = path_join dir (?n k)" for k by (simp add: candidate_def)
  have "?n i = ?n j"
    by (rule canon_child_inj [OF assms(1) numbered_plain [OF assms(2,3)] numbered_plain [OF assms(2,3)]])
      (rule assms(6) [unfolded c [OF assms(4)] c [OF assms(5)]])
  then show ?thesis by simp
qed

subsection \<open>The search ends\<close>

lemma stat_names: "os_stat p w = (Some x, w') \<Longrightarrow> fs_names (w_fs w) (canon w p) \<noteq> None"
  by (drule os_stat_Some) (auto simp: max_links_def numeral_eq_Suc lookup_def split: option.splits)

text \<open>Only reading, and no call fails when none is going to.\<close>

definition calm :: "world \<Rightarrow> world \<Rightarrow> bool" where
  "calm w w' \<longleftrightarrow> same_files w w' \<and> (w_faults w = [] \<longrightarrow> w_faults w' = [])"

lemma calm_trans: "calm a b \<Longrightarrow> calm b c \<Longrightarrow> calm a c"
  by (auto simp: calm_def intro: same_files_trans)

lemma os_stat_calm: "os_stat p w = (r, w') \<Longrightarrow> calm w w'"
  by (auto simp: calm_def os_stat_def fault_def dest: os_stat_same split: prod.splits list.splits)

lemma stat_without_faults: "os_stat p w = (r, w') \<Longrightarrow> w_faults w = [] \<Longrightarrow> r = follow max_links (w_fs w) (canon w p)"
  by (auto simp: os_stat_def fault_def)

lemma unique_from_steps:
  assumes "\<And>w'. calm w w' \<Longrightarrow> fst (os_stat (candidate dir stem ext k) w') = None" "i \<le> k" "calm w v"
  shows "\<exists>j v'. i \<le> j \<and> j \<le> k \<and> unique_from dir stem ext i v = Some (candidate dir stem ext j, v') \<and> calm w v' \<and>
    (\<exists>u. calm w u \<and> os_stat (candidate dir stem ext j) u = (None, v'))"
  using assms(2,3)
proof (induction "k - i" arbitrary: i v)
  case 0
  then have "i = k" by simp
  obtain r v' where r: "os_stat (candidate dir stem ext k) v = (r, v')" by fastforce
  have "r = None" using assms(1) [OF 0(3)] r by simp
  moreover have "calm w v'" using calm_trans [OF 0(3) os_stat_calm [OF r]] .
  ultimately show ?case using r 0(3) \<open>i = k\<close> by (subst unique_from.simps) auto
next
  case (Suc d)
  obtain r v' where r: "os_stat (candidate dir stem ext i) v = (r, v')" by fastforce
  have s: "calm w v'" using calm_trans [OF Suc(4) os_stat_calm [OF r]] .
  show ?case
  proof (cases r)
    case None
    then show ?thesis using r s Suc(3,4) by (subst unique_from.simps) auto
  next
    case (Some x)
    have "d = k - Suc i" "Suc i \<le> k" using Suc(2) by auto
    from Suc(1) [OF this s] obtain j v'' where "Suc i \<le> j" "j \<le> k"
      "unique_from dir stem ext (Suc i) v' = Some (candidate dir stem ext j, v'')" "calm w v''"
      "\<exists>u. calm w u \<and> os_stat (candidate dir stem ext j) u = (None, v'')" by blast
    then show ?thesis using r Some by (intro exI [of _ j] exI [of _ v'']) (simp add: unique_from.simps)
  qed
qed

lemma free_candidate:
  assumes "is_abs dir" "sep \<notin> set stem" "sep \<notin> set ext" "finite (dom (fs_names (w_fs w)))"
  shows "\<exists>k. fs_names (w_fs w) (canon w (candidate dir stem ext k)) = None"
proof (rule ccontr)
  assume "\<not> ?thesis"
  then have "range (\<lambda>k. canon w (candidate dir stem ext (Suc k))) \<subseteq> dom (fs_names (w_fs w))" by auto
  then have "finite (range (\<lambda>k. canon w (candidate dir stem ext (Suc k))))" by (rule finite_subset) (rule assms(4))
  moreover have "inj (\<lambda>k. canon w (candidate dir stem ext (Suc k)))"
  proof (rule injI)
    fix i j
    assume "canon w (candidate dir stem ext (Suc i)) = canon w (candidate dir stem ext (Suc j))"
    from candidate_inj [OF assms(1-3) _ _ this] show "i = j" by simp
  qed
  ultimately show False using finite_imageD infinite_UNIV_nat by blast
qed

lemma sep_ext: "sep \<notin> set (file_ext p)"
proof -
  have "set (file_ext p) \<subseteq> insert (CHR ''.'') (set (last (split_on sep p)))"
    by (auto simp: file_ext_def Let_def dest: set_takeWhileD)
  moreover have "sep \<notin> set (last (split_on sep p))"
    by (rule split_on_no_sep_in [of _ _ p]) simp
  ultimately show ?thesis by (auto simp: sep_def)
qed

lemma valid_subset: "set (to_valid_utf8 s) \<subseteq> set s"
proof (induction s rule: to_valid_utf8.induct)
  case (1 s)
  show ?case
  proof (cases "rune_len s")
    case None
    with 1 have "s \<noteq> [] \<Longrightarrow> set (to_valid_utf8 (tl s)) \<subseteq> set (tl s)" by simp
    with None show ?thesis
      by (cases "s = []") (auto simp: to_valid_utf8.simps [of s] to_valid_utf8.simps [of "[]"] dest: list.set_sel(2))
  next
    case (Some n)
    with 1 have "s \<noteq> [] \<Longrightarrow> set (to_valid_utf8 (drop n s)) \<subseteq> set (drop n s)" by simp
    with Some set_take_subset [of n s] set_drop_subset [of n s] show ?thesis
      by (auto simp: to_valid_utf8.simps [of s])
  qed
qed

lemma sep_stem: "sep \<notin> set name \<Longrightarrow> sep \<notin> set (cut_stem name)"
proof -
  have t: "set (trim_suffix name e) \<subseteq> set name" for e by (simp add: trim_suffix_def set_take_subset)
  have "set (truncate_bytes u n) \<subseteq> set u" for u n
    unfolding truncate_bytes_def using order_trans [OF valid_subset set_take_subset, of n u] by simp
  then have "set (cut_stem name) \<subseteq> set name" unfolding cut_stem_def Let_def by (rule order_trans) (rule t)
  then show "sep \<notin> set name \<Longrightarrow> sep \<notin> set (cut_stem name)" by blast
qed

lemma unique_found:
  assumes "is_abs dir" "sep \<notin> set name" "finite (dom (fs_names (w_fs w)))"
  obtains j v u where "unique_dst dir name w = Some (candidate dir (cut_stem name) (file_ext name) j, v)"
    "calm w v" "calm w u" "os_stat (candidate dir (cut_stem name) (file_ext name) j) u = (None, v)"
proof -
  let ?c = "candidate dir (cut_stem name) (file_ext name)"
  obtain k where k: "fs_names (w_fs w) (canon w (?c k)) = None"
    using free_candidate [OF assms(1) sep_stem [OF assms(2)] sep_ext assms(3)] by blast
  have "fst (os_stat (?c k) w') = None" if "calm w w'" for w'
  proof -
    obtain r w'' where r: "os_stat (?c k) w' = (r, w'')" by fastforce
    have "r \<noteq> Some x" for x
      using stat_names [of "?c k" w' x w''] r k that by (auto simp: canon_def calm_def dest!: same_filesD)
    with r show ?thesis by (cases r) auto
  qed
  from unique_from_steps [where w = w, OF this, where i = 0 and v = w] that show thesis
    by (auto simp: unique_dst_def calm_def)
qed

text \<open>
  C27: the search for a free name in the recycle directory ends, whatever calls fail, and the name it
  returns is one a \<^verbatim>\<open>Stat\<close> has just failed to find; without failing calls no file is reached by it.
\<close>

theorem unique_dst_ends:
  assumes "is_abs dir" "sep \<notin> set name" "finite (dom (fs_names (w_fs w)))"
  shows "\<exists>dst w'. unique_dst dir name w = Some (dst, w') \<and> same_files w w' \<and>
    (\<exists>u. same_files w u \<and> os_stat dst u = (None, w')) \<and>
    (w_faults w = [] \<longrightarrow> follow max_links (w_fs w) (canon w dst) = None)"
proof -
  obtain j v u where v: "unique_dst dir name w = Some (candidate dir (cut_stem name) (file_ext name) j, v)"
    "calm w v" and u: "calm w u" "os_stat (candidate dir (cut_stem name) (file_ext name) j) u = (None, v)"
    by (rule unique_found [OF assms])
  moreover have "follow max_links (w_fs w) (canon w (candidate dir (cut_stem name) (file_ext name) j)) = None"
    if "w_faults w = []"
    using stat_without_faults [OF u(2)] u(1) that by (auto simp: calm_def canon_def dest!: same_filesD)
  ultimately show ?thesis unfolding calm_def by blast
qed

subsection \<open>No content is lost\<close>

text \<open>The content of one inode, and the name that leads to it.\<close>

definition holds_data :: "path \<Rightarrow> string \<Rightarrow> world \<Rightarrow> bool" where
  "holds_data q c w \<longleftrightarrow> (\<exists>i. fs_names (w_fs w) q = Some i \<and> in_data (fs_inodes (w_fs w) i) = c)"

lemma holds_same: "same_files w w' \<Longrightarrow> holds_data q c w' = holds_data q c w"
  by (auto simp: holds_data_def)

lemma create_cases:
  assumes "os_create p w = (b, w')" "fs_ok (w_fs w)" "fs_names (w_fs w) (canon w p) = None"
  shows "same_files w w' \<and> \<not> b \<or>
    b \<and> own (canon w p) (w_fs w') \<and> only (canon w p) (w_fs w) (w_fs w') \<and> w_cwd w' = w_cwd w"
proof -
  obtain r w1 where s: "os_stat p w = (r, w1)" by fastforce
  have r: "r = None" using stat_names [of p w] s assms(3) by (cases r) auto
  note same = os_stat_same [OF s]
  then have n: "fs_names (w_fs w1) (canon w1 p) = None" using assms(3) by (auto simp: canon_def dest!: same_filesD)
  obtain fl w2 where f: "fault w1 = (fl, w2)" by fastforce
  note same2 = same_files_trans [OF same fault_same [OF f]]
  have "own (canon w p) (add_file (canon w p) (new_inode w2) (w_fs w))"
    "only (canon w p) (w_fs w) (add_file (canon w p) (new_inode w2) (w_fs w))"
    using add_file_own [OF assms(2,3), of "new_inode w2"] by (simp_all add: new_inode_def)
  with assms(1) s r n f same2 show ?thesis
    by (auto simp: os_create_def canon_def dest!: same_filesD split: if_splits)
qed

lemma copy_writes: "keeps (writes_only t) (os_copy i t)"
  by (rule keepsI) (auto simp: os_copy_def Let_def dest: keepsD [OF keeps_update, rotated])

text \<open>
  The copy beside the destination: an error leaves the temporary name changed at most; a success has
  moved a file with the content of the source over the destination.
\<close>

text \<open>A copy that was written, synced, closed and renamed.\<close>

lemma copy_renamed:
  assumes cp: "os_copy i tmp w = (True, w1)" and s: "os_file_call w1 = (True, w2)" "os_file_call w2 = (True, w3)"
    and rn: "os_rename tmp dst w3 = (True, v)"
    and own: "own (canon w tmp) (w_fs w)" and ne: "canon w tmp \<noteq> canon w dst"
    and i: "fs_names (w_fs w) S = Some i" and S: "S \<noteq> canon w tmp"
  shows "w_cwd v = w_cwd w \<and> holds_data (canon w dst) (in_data (fs_inodes (w_fs w) i)) v \<and>
    (S \<noteq> canon w dst \<longrightarrow> holds_data S (in_data (fs_inodes (w_fs w) i)) v)"
proof -
  let ?T = "canon w tmp" and ?D = "canon w dst"
  have w13: "same_files w1 w3" using keepsD [OF keeps_file_call s(1)] keepsD [OF keeps_file_call s(2)] by (rule same_files_trans)
  obtain x w0 where st: "os_stat tmp w = (Some x, w0)" using cp
    by (auto simp: os_copy_def os_update_def Let_def split: prod.splits option.splits)
  obtain j nd where x: "x = (j, nd)" by (cases x)
  have j: "fs_names (w_fs w) ?T = Some j" using follow_own [OF own] os_stat_Some [OF st] x by simp
  have w1: "w_fs w1 = set_inode j (\<lambda>out. out\<lparr>in_data := in_data (fs_inodes (w_fs w) i), in_size := in_size (fs_inodes (w_fs w) i)\<rparr>) (w_fs w)"
    and cwd: "w_cwd w1 = w_cwd w"
    using cp st x os_stat_same [OF st] by (auto simp: os_copy_def os_update_def Let_def dest!: same_filesD)
  have "writes_only tmp w w1" by (rule keepsD [OF copy_writes cp])
  then have own1: "own ?T (w_fs w3)" using own w13 by (auto simp: writes_only_def dest!: same_filesD)
  have c3: "canon w3 = canon w" using cwd w13 by (auto simp: canon_def fun_eq_iff dest!: same_filesD)
  obtain f where f: "rename_fs ?T ?D (w_fs w3) = Some f" "w_fs v = f" "w_cwd v = w_cwd w3"
    using rename_True [OF rn] c3 by metis
  obtain j' where j': "fs_names (w_fs w3) ?T = Some j'" "fs_names f = (fs_names (w_fs w3))(?T := None, ?D := Some j')"
    "fs_inodes f j' = fs_inodes (w_fs w3) j'" "\<And>k. same_content (fs_inodes (w_fs w3) k) (fs_inodes f k)"
    using rename_own [OF own1 ne f(1)] by metis
  have fs3: "w_fs w3 = w_fs w1" using w13 by auto
  have "j' = j" using j'(1) j by (simp add: fs3 w1 set_inode_def)
  have ij: "i \<noteq> j" using own i j S by (auto simp: own_def)
  have "in_data (fs_inodes f k) = in_data (fs_inodes (w_fs w3) k)" for k
    using j'(4) [of k] by (auto simp: same_content_def dest: arg_cong [of _ _ in_data])
  then have "in_data (fs_inodes f j) = in_data (fs_inodes (w_fs w) i)" "in_data (fs_inodes f i) = in_data (fs_inodes (w_fs w) i)"
    using ij by (simp_all add: fs3 w1 set_inode_def)
  moreover have "fs_names f ?D = Some j" "S \<noteq> ?D \<Longrightarrow> fs_names f S = Some i"
    using j'(2) i S \<open>j' = j\<close> by (simp_all add: fs3 w1 set_inode_def)
  ultimately show ?thesis using f(2,3) cwd w13 by (auto simp: holds_data_def dest!: same_filesD)
qed

lemma copy_over_cases:
  assumes c: "copy_over i tmp dst w = (r, w')" and own: "own (canon w tmp) (w_fs w)" and ne: "canon w tmp \<noteq> canon w dst"
    and i: "fs_names (w_fs w) S = Some i" and S: "S \<noteq> canon w tmp"
  shows "w_cwd w' = w_cwd w \<and>
    (case r of Inl _ \<Rightarrow> only (canon w tmp) (w_fs w) (w_fs w')
     | Inr _ \<Rightarrow> holds_data (canon w dst) (in_data (fs_inodes (w_fs w) i)) w' \<and>
         (S \<noteq> canon w dst \<longrightarrow> holds_data S (in_data (fs_inodes (w_fs w) i)) w'))"
proof -
  let ?T = "canon w tmp" and ?D = "canon w dst"
  let ?m = "andthen (ok_or (os_copy i tmp) (SidecarOS ''copy'')) (\<lambda>_.
        andthen (ok_or os_file_call (SidecarOS ''sync'')) (\<lambda>_.
        andthen (ok_or os_file_call (SidecarOS ''close'')) (\<lambda>_.
        ok_or (os_rename tmp dst) (SidecarOS ''rename''))))"
  obtain r' v where m: "?m w = (r', v)" by fastforce
  show ?thesis
  proof (cases r')
    case (Inl e)
    have last: "keeps_err (writes_only tmp) (ok_or (os_rename tmp dst) (SidecarOS ''rename''))"
      by (auto simp: keeps_err_def ok_or_def split: prod.splits if_splits dest!: rename_False same_writes_only)
    have "keeps_err (writes_only tmp) ?m"
      by (intro wo.err_andthen wo.keeps_ok_or copy_writes keeps_same_writes [OF keeps_file_call] last)
    then have "writes_only tmp w v" by (rule keeps_errD) (rule m [unfolded Inl])
    moreover have "writes_only tmp v (snd (os_remove tmp v))" using keeps_remove by (simp add: keeps_def)
    ultimately have "writes_only tmp w (snd (os_remove tmp v))" by (rule wo.frame_trans)
    with c m Inl own show ?thesis by (auto simp: copy_over_def or_remove_def writes_only_def)
  next
    case (Inr u)
    from m [unfolded Inr] obtain w1 w2 w3 where cp: "os_copy i tmp w = (True, w1)"
      and s: "os_file_call w1 = (True, w2)" "os_file_call w2 = (True, w3)" and rn: "os_rename tmp dst w3 = (True, v)"
      by (elim andthen_InrE) auto
    have w': "r = Inr u" "w' = v" using c m Inr by (simp_all add: copy_over_def or_remove_def)
    from copy_renamed [OF cp s rn own ne i S] show ?thesis by (simp add: w')
  qed
qed

lemma remove_same_data:
  assumes "os_remove p w = (b, w')" "holds_data q c w" "q \<noteq> canon w p"
  shows "holds_data q c w'" "w_cwd w' = w_cwd w"
proof -
  obtain fl w1 where f: "fault w = (fl, w1)" by fastforce
  have "w' = w1 \<or> w' = w1\<lparr>w_fs := unlink (canon w p) (w_fs w1)\<rparr>"
    using assms(1) f fault_same [OF f] by (auto simp: os_remove_def canon_def dest!: same_filesD split: if_splits)
  moreover have "holds_data q c (w1\<lparr>w_fs := unlink (canon w p) (w_fs w1)\<rparr>)"
    using assms(2,3) fault_same [OF f] by (auto simp: holds_data_def unlink_def dest!: same_filesD split: option.splits)
  ultimately show "holds_data q c w'" "w_cwd w' = w_cwd w"
    using assms(2) fault_same [OF f] by (auto simp: holds_data_def dest!: same_filesD)
qed

lemma remove_False: "os_remove p w = (False, w') \<Longrightarrow> same_files w w'"
  by (auto simp: os_remove_def split: prod.splits if_splits)

text \<open>Renaming a regular file that no other name of the destination shares.\<close>

lemma rename_data:
  assumes "os_rename a b w = (True, w')" "holds_data (canon w a) c w"
  shows "holds_data (canon w b) c w'"
proof -
  obtain f where f: "rename_fs (canon w a) (canon w b) (w_fs w) = Some f" "w_fs w' = f" "w_cwd w' = w_cwd w"
    using rename_True [OF assms(1)] by metis
  from assms(2) obtain i where i: "fs_names (w_fs w) (canon w a) = Some i" "in_data (fs_inodes (w_fs w) i) = c"
    by (auto simp: holds_data_def)
  show ?thesis
    using f(1) i unfolding holds_data_def f(2)
    by (auto simp: rename_fs_def lookup_def unlink_def Let_def split: option.splits if_splits)
qed

text \<open>Once the partial file is there: whatever happens next, the content is under one of the two names.\<close>

lemma copied_then_removed:
  assumes m: "andthen (copy_over i tmp dst) (\<lambda>_. ok_or (os_remove src) (SidecarOS ''remove'')) w = (r, w')"
    and own: "own (canon w tmp) (w_fs w)" and i: "fs_names (w_fs w) (canon w src) = Some i"
    and ne: "canon w tmp \<noteq> canon w dst" "canon w src \<noteq> canon w dst" "canon w src \<noteq> canon w tmp"
  shows "w_cwd w' = w_cwd w \<and>
    holds_data (case r of Inl _ \<Rightarrow> canon w src | Inr _ \<Rightarrow> canon w dst) (in_data (fs_inodes (w_fs w) i)) w'"
proof -
  let ?S = "canon w src" and ?D = "canon w dst" and ?c = "in_data (fs_inodes (w_fs w) i)"
  obtain y v where cp: "copy_over i tmp dst w = (y, v)" by fastforce
  note copy = copy_over_cases [OF cp own ne(1) i ne(3)]
  show ?thesis
  proof (cases y)
    case (Inl e)
    with m cp have w': "w' = v" "r = Inl e" by (simp_all add: andthen_def)
    have "lookup (w_fs v) ?S = lookup (w_fs w) ?S" using copy Inl ne(3) by (simp add: only_def)
    with i have "holds_data ?S ?c v" by (auto simp: holds_data_def lookup_def map_option_case split: option.splits)
    with w' copy show ?thesis by simp
  next
    case (Inr u)
    with copy ne(2) have data: "holds_data ?D ?c v" "holds_data ?S ?c v" and cwd: "w_cwd v = w_cwd w" by auto
    obtain rb z where rm: "os_remove src v = (rb, z)" by fastforce
    have "canon v src = ?S" using cwd by (simp add: canon_def)
    then have after: "holds_data ?D ?c z" "w_cwd z = w_cwd v"
      using remove_same_data [OF rm data(1)] ne(2) by auto
    have "holds_data ?S ?c z" if "\<not> rb"
    proof -
      have "same_files v z" using that rm by (auto intro: remove_False)
      then show ?thesis using data(2) holds_same by blast
    qed
    with m cp Inr rm after cwd show ?thesis by (cases rb) (auto simp: andthen_def ok_or_def)
  qed
qed

text \<open>The way round a rename that is impossible.\<close>

lemma moved_by_copy:
  assumes m: "andthen (some_or (os_stat src) (SidecarOS ''open'')) (\<lambda>info.
          andthen (ok_or (os_create tmp) (SidecarOS ''create'')) (\<lambda>_.
          andthen (copy_over (fst info) tmp dst) (\<lambda>_.
          ok_or (os_remove src) (SidecarOS ''remove'')))) w = (r, w')" and ok: "fs_ok (w_fs w)"
    and i: "fs_names (w_fs w) (canon w src) = Some i" "in_kind (fs_inodes (w_fs w) i) = RegularFile"
    and tmp: "fs_names (w_fs w) (canon w tmp) = None"
    and ne: "canon w src \<noteq> canon w dst" "canon w tmp \<noteq> canon w dst"
  shows "same_files w w' \<and> (\<exists>e. r = Inl e) \<or> w_cwd w' = w_cwd w \<and>
    holds_data (case r of Inl _ \<Rightarrow> canon w src | Inr _ \<Rightarrow> canon w dst) (in_data (fs_inodes (w_fs w) i)) w'"
proof -
  let ?S = "canon w src" and ?T = "canon w tmp"
  have ST: "?S \<noteq> ?T" using i(1) tmp by auto
  obtain x v1 where st: "os_stat src w = (x, v1)" by fastforce
  note s1 = os_stat_same [OF st]
  show ?thesis
  proof (cases x)
    case None
    with m st s1 show ?thesis by (auto simp: andthen_def some_or_def)
  next
    case (Some info)
    have info: "fst info = i"
      using os_stat_Some [OF st [unfolded Some]] follow_regular [of "w_fs w" ?S i] i by auto
    obtain cb v2 where cr: "os_create tmp v1 = (cb, v2)" by fastforce
    have c1: "canon v1 = canon w" using s1 by (auto simp: canon_def fun_eq_iff dest!: same_filesD)
    have "fs_ok (w_fs v1)" "fs_names (w_fs v1) (canon v1 tmp) = None" using ok tmp s1 c1 by (auto dest!: same_filesD)
    from create_cases [OF cr this] have cc: "same_files v1 v2 \<and> \<not> cb \<or>
      cb \<and> own ?T (w_fs v2) \<and> only ?T (w_fs v1) (w_fs v2) \<and> w_cwd v2 = w_cwd v1" unfolding c1 by simp
    show ?thesis
    proof (cases cb)
      case False
      with m st Some cr cc same_files_trans [OF s1, of v2] show ?thesis by (auto simp: andthen_def some_or_def ok_or_def)
    next
      case True
      with cc have own2: "own ?T (w_fs v2)" "only ?T (w_fs w) (w_fs v2)" and cwd2: "w_cwd v2 = w_cwd w"
        using s1 by (auto dest!: same_filesD)
      have c2: "canon v2 = canon w" using cwd2 by (simp add: canon_def fun_eq_iff)
      have "lookup (w_fs v2) ?S = lookup (w_fs w) ?S" using own2(2) ST by (simp add: only_def)
      then have i2: "fs_names (w_fs v2) ?S = Some i" "fs_inodes (w_fs v2) i = fs_inodes (w_fs w) i"
        using i(1) by (auto simp: lookup_def map_option_case split: option.splits)
      have "andthen (copy_over i tmp dst) (\<lambda>_. ok_or (os_remove src) (SidecarOS ''remove'')) v2 = (r, w')"
        using m st Some cr True info by (simp add: andthen_def some_or_def ok_or_def)
      from copied_then_removed [OF this, unfolded c2, OF own2(1) i2(1) ne(2,1) ST] show ?thesis
        by (simp add: i2(2) cwd2)
    qed
  qed
qed

lemma move_file_cases:
  assumes m: "move_file src dst w = (r, w')" and ok: "fs_ok (w_fs w)"
    and i: "fs_names (w_fs w) (canon w src) = Some i" "in_kind (fs_inodes (w_fs w) i) = RegularFile"
    and part: "fs_names (w_fs w) (canon w (dst @ ''.part'')) = None"
    and ne: "canon w src \<noteq> canon w dst" "canon w (dst @ ''.part'') \<noteq> canon w dst"
  shows "w_cwd w' = w_cwd w \<and>
    holds_data (case r of Inl _ \<Rightarrow> canon w src | Inr _ \<Rightarrow> canon w dst) (in_data (fs_inodes (w_fs w) i)) w'"
proof -
  let ?S = "canon w src" and ?D = "canon w dst"
  let ?c = "in_data (fs_inodes (w_fs w) i)"
  have src: "holds_data ?S ?c w" using i by (auto simp: holds_data_def)
  obtain b v where rn: "os_rename src dst w = (b, v)" by fastforce
  show ?thesis
  proof (cases b)
    case True
    with rn have rt: "os_rename src dst w = (True, v)" by simp
    then have "r = Inr ()" "w' = v" using m by (simp_all add: move_file_def)
    moreover have "w_cwd v = w_cwd w" using rename_True [OF rt] by metis
    ultimately show ?thesis using rename_data [OF rt src] by simp
  next
    case False
    then have s: "same_files w v" using rn by (auto intro: rename_False)
    then have c: "canon v = canon w" "w_fs v = w_fs w" "w_cwd v = w_cwd w"
      by (auto simp: canon_def fun_eq_iff dest!: same_filesD)
    from m rn False have "andthen (some_or (os_stat src) (SidecarOS ''open'')) (\<lambda>info.
          andthen (ok_or (os_create (dst @ ''.part'')) (SidecarOS ''create'')) (\<lambda>_.
          andthen (copy_over (fst info) (dst @ ''.part'') dst) (\<lambda>_.
          ok_or (os_remove src) (SidecarOS ''remove'')))) v = (r, w')"
      by (simp add: move_file_def)
    from moved_by_copy [OF this, unfolded c, OF ok i part ne] show ?thesis
    proof
      assume "same_files v w' \<and> (\<exists>e. r = Inl e)"
      then obtain e where "same_files w w'" "r = Inl e" using same_files_trans [OF s] by blast
      with src holds_same [of w w' ?S ?c] show ?thesis by (simp add: same_files_def)
    qed
  qed
qed

text \<open>A name that is not an entry old enough.\<close>

definition spared :: "path \<Rightarrow> int \<Rightarrow> (string \<times> inode option) list \<Rightarrow> world \<Rightarrow> path \<Rightarrow> bool" where
  "spared dir cutoff es w q \<longleftrightarrow> (\<forall>name nd. (name, Some nd) \<in> set es \<longrightarrow> in_kind nd \<noteq> Dir \<longrightarrow>
     entry_age name nd < cutoff \<longrightarrow> q \<noteq> canon w (path_join dir name))"

lemma spared_Cons: "spared dir cutoff (e # es) w q \<Longrightarrow> spared dir cutoff es w q"
  by (simp add: spared_def)

lemma purge_step:
  "purge_entries dir cutoff es w = (n, w') \<Longrightarrow> spared dir cutoff es w q \<Longrightarrow>
    holds_data q c w \<Longrightarrow> holds_data q c w' \<and> n \<le> length es"
proof (induction dir cutoff es w arbitrary: n w' rule: purge_entries.induct)
  case (2 dir cutoff name info es w)
  note sp = spared_Cons [OF 2(5)]
  show ?case
  proof (cases info)
    case None
    with 2(1) [OF None _ sp 2(6), of n w'] 2(4) show ?thesis by auto
  next
    case (Some nd)
    show ?thesis
    proof (cases "in_kind nd = Dir \<or> cutoff \<le> entry_age name nd")
      case True
      with 2(2) [OF Some True _ sp 2(6), of n w'] 2(4) Some show ?thesis by auto
    next
      case False
      obtain b w1 where rm: "os_remove (path_join dir name) w = (b, w1)" by fastforce
      obtain m w2 where rest: "purge_entries dir cutoff es w1 = (m, w2)" by fastforce
      have out: "n = (if b then Suc m else m)" "w' = w2" using 2(4) Some False rm rest by auto
      have "q \<noteq> canon w (path_join dir name)" using 2(5) Some False by (simp add: spared_def)
      from remove_same_data [OF rm 2(6) this] have w1: "holds_data q c w1" "w_cwd w1 = w_cwd w" .
      have "spared dir cutoff es w1 q" using sp w1(2) by (simp add: spared_def canon_def)
      from 2(3) [OF Some False rm [symmetric] rest this w1(1)] out show ?thesis by simp
    qed
  qed
qed simp

lemma stamp_age:
  assumes "nat t < stamp_end" "0 \<le> t"
  shows "entry_age (recycled_name p t) nd = t"
  using stamp_round_trip [OF assms(1)] assms(2) by (simp add: entry_age_def recycled_name_def)

subsection \<open>The names given to recycled files\<close>

lemma ext_no_sep: "sep \<notin> set name \<Longrightarrow> file_ext name = '''' \<or> (\<exists>u e. name = u @ file_ext name \<and> file_ext name = CHR ''.'' # e)"
proof -
  assume s: "sep \<notin> set name"
  let ?P = "\<lambda>c. c \<noteq> CHR ''.''"
  have l: "last (split_on sep name) = name" using s by (simp add: split_on_no_sep)
  show ?thesis
  proof (cases "takeWhile ?P (rev name) = rev name")
    case True
    then show ?thesis by (simp add: file_ext_def l)
  next
    case False
    have tk: "rev name = takeWhile ?P (rev name) @ dropWhile ?P (rev name)" by (rule takeWhile_dropWhile_id [symmetric])
    with False have "dropWhile ?P (rev name) \<noteq> []" by (metis append_Nil2)
    then obtain c v where v: "dropWhile ?P (rev name) = c # v" by (cases "dropWhile ?P (rev name)") auto
    have c: "c = CHR ''.''" using hd_dropWhile [of ?P "rev name"] v by auto
    have "name = rev (takeWhile ?P (rev name) @ c # v)" using tk unfolding v by (rule rev_swap [THEN iffD1])
    then have "name = rev v @ CHR ''.'' # rev (takeWhile ?P (rev name))" unfolding c by simp
    moreover have "file_ext name = CHR ''.'' # rev (takeWhile ?P (rev name))"
      using False by (simp add: file_ext_def l Let_def)
    ultimately show ?thesis by metis
  qed
qed

lemma valid_ascii: "byte_in 0 127 c \<Longrightarrow> to_valid_utf8 (c # s) = c # to_valid_utf8 s"
  by (subst to_valid_utf8.simps) (simp add: Let_def)

lemma cut_plain:
  assumes "sep \<notin> set (c # rest)" "c \<noteq> CHR ''.''" "byte_in 0 127 c"
  shows "plain_elem (cut_stem (c # rest) @ file_ext (c # rest))"
proof -
  let ?n = "c # rest" and ?e = "file_ext (c # rest)"
  obtain u where u: "trim_suffix ?n ?e = c # u"
  proof (cases "?e = ''''")
    case False
    then obtain v e where v: "?n = v @ ?e" "?e = CHR ''.'' # e" using ext_no_sep [OF assms(1)] by auto
    then obtain w where "v = c # w" using assms(2) by (cases v) auto
    moreover have "trim_suffix ?n ?e = v" using v(1) by (metis append_eq_conv_conj length_append add_diff_cancel_right' suffixI trim_suffix_def)
    ultimately show ?thesis by (auto intro: that)
  qed (auto simp: trim_suffix_def intro: that)
  have sepe: "sep \<notin> set ?e" by (rule sep_ext)
  have seps: "sep \<notin> set (cut_stem ?n)" by (rule sep_stem) (rule assms)
  show ?thesis
  proof (cases "200 - length ?e")
    case 0
    then have "198 < length (cut_stem ?n @ ?e)" by simp
    moreover have "length '''' \<le> 198" "length ''.'' \<le> 198" "length ''..'' \<le> 198" by simp_all
    ultimately have "cut_stem ?n @ ?e \<noteq> ''''" "cut_stem ?n @ ?e \<noteq> ''.''" "cut_stem ?n @ ?e \<noteq> ''..''"
      by (metis not_le)+
    with sepe seps show ?thesis by (simp add: plain_elem_def)
  next
    case (Suc k)
    have "\<exists>t. cut_stem ?n = c # t"
      using assms(3) by (simp add: cut_stem_def Let_def u Suc truncate_bytes_def valid_ascii)
    then obtain t where "cut_stem ?n = c # t" by blast
    with sepe seps assms(2) show ?thesis by (auto simp: plain_elem_def)
  qed
qed

lemma digit_facts: "d < 10 \<Longrightarrow> byte_in 0 127 (digit_char d) \<and> digit_char d \<noteq> CHR ''.'' \<and> digit_char d \<noteq> sep \<and> digit_char d \<noteq> CHR ''-''"
proof -
  assume d: "d < 10"
  then have "(of_char (digit_char d) :: nat) = 48 + d" by (simp add: digit_char_def)
  then show ?thesis using d
    by (auto simp: byte_in_def sep_def dest: arg_cong [of _ _ "of_char :: char \<Rightarrow> nat"])
qed

lemma pad_digits: "c \<in> set (pad w n) \<Longrightarrow> \<exists>d < 10. c = digit_char d"
proof -
  have z: "CHR ''0'' = digit_char 0" by code_simp
  show "c \<in> set (pad w n) \<Longrightarrow> ?thesis"
    unfolding pad_def Let_def z by (auto dest: nat_digits_set intro: exI [of _ 0])
qed

lemma stamp_chars:
  obtains c s where "stamp_format t = c # s" "\<exists>d < 10. c = digit_char d" "sep \<notin> set s"
proof -
  obtain y yd where y: "split_days years (t div 86400) = (y, yd)" by fastforce
  obtain m md where m: "split_days (month_days (1970 + y)) yd = (m, md)" by fastforce
  have f: "stamp_format t = pad 4 (1970 + y) @ pad 2 (m + 1) @ pad 2 (md + 1) @ ''-'' @
        pad 2 (t mod 86400 div 3600) @ pad 2 (t mod 86400 div 60 mod 60) @ pad 2 (t mod 86400 mod 60)"
    using y m by (simp add: stamp_format_def Let_def)
  have p: "sep \<notin> set (pad w n)" for w n using pad_digits [of sep w n] digit_facts by metis
  have "pad 4 (1970 + y) \<noteq> []" by (simp add: pad_def Let_def)
  then obtain c s where cs: "pad 4 (1970 + y) = c # s" by (cases "pad 4 (1970 + y)") auto
  let ?s = "s @ pad 2 (m + 1) @ pad 2 (md + 1) @ ''-'' @
        pad 2 (t mod 86400 div 3600) @ pad 2 (t mod 86400 div 60 mod 60) @ pad 2 (t mod 86400 mod 60)"
  have "stamp_format t = c # ?s" unfolding f cs by simp
  moreover have "\<exists>d < 10. c = digit_char d" using pad_digits [of c 4 "1970 + y"] by (simp add: cs)
  moreover have "sep \<notin> set s" using p [of 4 "1970 + y"] by (simp add: cs)
  then have "sep \<notin> set ?s" using p by (simp add: sep_def)
  ultimately show thesis by (rule that)
qed

lemma subtitle_base:
  assumes "is_subtitle_path p"
  shows "sep \<notin> set (base_name p)"
proof -
  let ?q = "rev (dropWhile (\<lambda>c. c = sep) (rev p))"
  have "?q \<noteq> ''''"
  proof
    assume "?q = ''''"
    then have all: "\<forall>c \<in> set p. c = sep" by (auto simp: dropWhile_eq_Nil_conv)
    then have "\<forall>e \<in> set (split_on sep p). e = ''''" by (induction p) (auto simp: Let_def split: list.splits)
    then have "last (split_on sep p) = ''''" by simp
    then have "file_ext p = ''''" by (simp add: file_ext_def)
    with assms show False by (simp add: is_subtitle_path_def subtitle_exts_def)
  qed
  moreover have "sep \<notin> set (last (split_on sep ?q))" by (rule split_on_no_sep_in [of _ _ ?q]) simp
  ultimately show ?thesis by (auto simp: base_name_def sep_def Let_def)
qed

lemma recycled_candidate:
  assumes "is_subtitle_path p"
  shows "\<exists>n. plain_elem n \<and> candidate dir (cut_stem (recycled_name p t)) (file_ext (recycled_name p t)) i = path_join dir n"
proof -
  let ?n = "recycled_name p t"
  obtain c s where c: "stamp_format (nat t) = c # s" "\<exists>d < 10. c = digit_char d" "sep \<notin> set s" by (rule stamp_chars)
  then have n: "?n = c # s @ ''_'' @ base_name p" by (simp add: recycled_name_def)
  have "c \<noteq> sep" using c(2) digit_facts by metis
  then have sn: "sep \<notin> set ?n" using c(3) subtitle_base [OF assms] by (simp add: n sep_def)
  have c': "c \<noteq> CHR ''.''" "byte_in 0 127 c" using c(2) digit_facts by auto
  show ?thesis
  proof (cases "i = 0")
    case True
    have "plain_elem (cut_stem ?n @ file_ext ?n)" unfolding n by (rule cut_plain [OF _ c']) (use sn in \<open>simp add: n\<close>)
    with True show ?thesis by (auto simp: candidate_def)
  next
    case False
    have "plain_elem (cut_stem ?n @ ''_'' @ nat_digits i @ file_ext ?n)"
      by (rule numbered_plain [OF sep_stem [OF sn] sep_ext])
    with False show ?thesis by (auto simp: candidate_def)
  qed
qed

lemma mkdirs_frame:
  "mkdirs ps w = (b, w') \<Longrightarrow> fs_ok (w_fs w) \<Longrightarrow> finite (dom (fs_names (w_fs w))) \<Longrightarrow>
    fs_ok (w_fs w') \<and> finite (dom (fs_names (w_fs w'))) \<and> w_cwd w' = w_cwd w \<and>
    (\<forall>q i. fs_names (w_fs w) q = Some i \<longrightarrow> fs_names (w_fs w') q = Some i \<and> fs_inodes (w_fs w') i = fs_inodes (w_fs w) i) \<and>
    (\<forall>q. fs_names (w_fs w) q = None \<longrightarrow> q \<notin> set ps \<longrightarrow> fs_names (w_fs w') q = None)"
proof (induction ps arbitrary: w)
  case (Cons p ps)
  show ?case
  proof (cases "follow max_links (w_fs w) p")
    case (Some x)
    with Cons.prems show ?thesis using Cons.IH [of w] by (cases x) (auto split: if_splits)
  next
    case None
    show ?thesis
    proof (cases "fs_names (w_fs w) p")
      case (Some i)
      with None Cons.prems show ?thesis by simp
    next
      case n: None
      let ?nd = "(new_inode w)\<lparr>in_kind := Dir, in_mode := 0x1ED\<rparr>"
      let ?w = "w\<lparr>w_fs := add_file p ?nd (w_fs w)\<rparr>"
      have m: "mkdirs ps ?w = (b, w')" using Cons.prems(1) None n by simp
      have ok: "fs_ok (w_fs ?w)" using Cons.prems(2) by (fastforce simp: fs_ok_def add_file_def)
      have "dom (fs_names (w_fs ?w)) = insert p (dom (fs_names (w_fs w)))" by (auto simp: add_file_def)
      then have fin: "finite (dom (fs_names (w_fs ?w)))" using Cons.prems(3) by simp
      have keep: "fs_names (w_fs ?w) q = Some i \<and> fs_inodes (w_fs ?w) i = fs_inodes (w_fs w) i"
        if "fs_names (w_fs w) q = Some i" for q i
        using that n Cons.prems(2) by (auto simp: add_file_def fs_ok_def)
      have new: "fs_names (w_fs ?w) q = None" if "fs_names (w_fs w) q = None" "q \<noteq> p" for q
        using that by (simp add: add_file_def)
      note IH = Cons.IH [OF m ok fin]
      show ?thesis
      proof (intro conjI allI impI)
        fix q i
        assume q: "fs_names (w_fs w) q = Some i"
        note k = keep [OF q]
        show "fs_names (w_fs w') q = Some i" using IH k by blast
        show "fs_inodes (w_fs w') i = fs_inodes (w_fs w) i" using IH k by metis
      qed (use IH new in auto)
    qed
  qed
qed simp

lemma mkdir_all_frame:
  assumes "os_mkdir_all p w = (b, w')" "fs_ok (w_fs w)" "finite (dom (fs_names (w_fs w)))"
  shows "fs_ok (w_fs w') \<and> finite (dom (fs_names (w_fs w'))) \<and> w_cwd w' = w_cwd w \<and>
    (\<forall>q i. fs_names (w_fs w) q = Some i \<longrightarrow> fs_names (w_fs w') q = Some i \<and> fs_inodes (w_fs w') i = fs_inodes (w_fs w) i) \<and>
    (\<forall>q. fs_names (w_fs w) q = None \<longrightarrow> q \<notin> set (parents (canon w p)) \<longrightarrow> fs_names (w_fs w') q = None)"
proof -
  obtain fl w1 where f: "fault w = (fl, w1)" by fastforce
  note same = fault_same [OF f, THEN same_filesD]
  show ?thesis
  proof (cases fl)
    case True
    with assms f same show ?thesis by (auto simp: os_mkdir_all_def)
  next
    case False
    have "canon w1 p = canon w p" using same by (simp add: canon_def)
    with False assms f have "mkdirs (parents (canon w p)) w1 = (b, w')" by (simp add: os_mkdir_all_def)
    from mkdirs_frame [OF this] assms(2,3) same show ?thesis by simp
  qed
qed

lemma child_not_parent:
  assumes "is_abs d" "plain_elem n"
  shows "canon w (path_join d n) \<notin> set (parents (canon w d))"
proof
  obtain es where es: "clean d = sep # join [sep] es" "\<forall>e \<in> set es. plain_elem e"
    "clean (d @ sep # n) = sep # join [sep] (es @ [n])" by (rule clean_child [OF assms])
  have d: "canon w d = sep # join [sep] es" using assms(1) es(1) by (simp add: canon_def abs_path_def)
  assume "canon w (path_join d n) \<in> set (parents (canon w d))"
  then obtain k where "sep # join [sep] (es @ [n]) = elems_path True (take k es)"
    unfolding d canon_child [OF assms] es(3) by (auto simp: parents_def Let_def path_elems_rooted es(2))
  then have "sep # join [sep] (es @ [n]) = sep # join [sep] (take k es)" by (simp add: elems_path_def)
  then have "es @ [n] = take k es"
    by (rule rooted_inj [THEN iffD1, rotated 2]) (use es(2) assms(2) in \<open>auto dest: in_set_takeD\<close>)
  then show False by (metis length_append_singleton length_take min.cobounded1 Suc_n_not_le_n)
qed

lemma child_part:
  assumes "is_abs d" "plain_elem n"
  shows "path_join d n @ ''.part'' = path_join d (n @ ''.part'')" "plain_elem (n @ ''.part'')"
proof -
  show p: "plain_elem (n @ ''.part'')"
    using assms(2) by (auto simp: plain_elem_def sep_def append_eq_Cons_conv)
  obtain es where es: "clean d = sep # join [sep] es" "\<forall>e \<in> set es. plain_elem e"
    "clean (d @ sep # n) = sep # join [sep] (es @ [n])" by (rule clean_child [OF assms])
  obtain fs where fs: "clean d = sep # join [sep] fs" "\<forall>e \<in> set fs. plain_elem e"
    "clean (d @ sep # (n @ ''.part'')) = sep # join [sep] (fs @ [n @ ''.part''])" by (rule clean_child [OF assms(1) p])
  have "sep # join [sep] es = sep # join [sep] fs" using es(1) fs(1) by (rule subst)
  then have "es = fs" by (rule rooted_inj [OF es(2) fs(2), THEN iffD1])
  moreover have "join [sep] (es @ [n]) @ x = join [sep] (es @ [n @ x])" for x
    by (induction es) (auto simp: join_Cons)
  ultimately show "path_join d n @ ''.part'' = path_join d (n @ ''.part'')"
    using es(3) fs(3) assms(1) by (auto simp: path_join_def is_abs_def)
qed

text \<open>
  What the recycle directory needs: an absolute path, no half-written copies in it, and the file to
  delete lies elsewhere.
\<close>

definition recycle_ready :: "path \<Rightarrow> path \<Rightarrow> world \<Rightarrow> bool" where
  "recycle_ready dir p w \<longleftrightarrow> is_abs dir \<and>
     (\<forall>n. plain_elem n \<longrightarrow> canon w (path_join dir n) \<noteq> canon w p) \<and>
     (\<forall>n. plain_elem n \<longrightarrow> suffix ''.part'' n \<longrightarrow> fs_names (w_fs w) (canon w (path_join dir n)) = None)"

lemma recycle_keeps:
  assumes ready: "recycle_ready dir p w" and ok: "fs_ok (w_fs w)" and fin: "finite (dom (fs_names (w_fs w)))"
    and sub: "is_subtitle_path p"
    and i: "fs_names (w_fs w) (canon w p) = Some i" "in_kind (fs_inodes (w_fs w) i) = RegularFile"
  shows "\<exists>r w' q. recycle dir p w = Some (r, w') \<and> holds_data q (in_data (fs_inodes (w_fs w) i)) w' \<and>
    (\<not> is_ok r \<longrightarrow> q = canon w p)"
proof -
  let ?name = "recycled_name p (w_now w)"
  have abs: "is_abs dir" using ready by (simp add: recycle_ready_def)
  obtain c s where "stamp_format (nat (w_now w)) = c # s" "\<exists>d < 10. c = digit_char d" "sep \<notin> set s" by (rule stamp_chars)
  moreover from this have "c \<noteq> sep" using digit_facts by metis
  ultimately have "sep \<notin> set ?name" using subtitle_base [OF sub] by (simp add: recycled_name_def sep_def)
  then obtain j v u where j: "unique_dst dir ?name w = Some (candidate dir (cut_stem ?name) (file_ext ?name) j, v)" "calm w v"
    by (rule unique_found [OF abs _ fin])
  obtain n where n: "plain_elem n" "candidate dir (cut_stem ?name) (file_ext ?name) j = path_join dir n"
    using recycled_candidate [OF sub] by blast
  let ?dst = "path_join dir n"
  have v: "w_fs v = w_fs w" "canon v = canon w" using j(2) by (auto simp: calm_def canon_def fun_eq_iff dest!: same_filesD)
  have part: "?dst @ ''.part'' = path_join dir (n @ ''.part'')" "plain_elem (n @ ''.part'')" by (rule child_part [OF abs n(1)])+
  have p1: "fs_names (w_fs w) (canon w (?dst @ ''.part'')) = None"
    using ready part by (simp add: recycle_ready_def suffix_def)
  have p2: "canon w p \<noteq> canon w ?dst" using ready n(1) by (auto simp: recycle_ready_def)
  have p3: "canon w (?dst @ ''.part'') \<noteq> canon w ?dst"
    unfolding part(1) using canon_child_inj [OF abs part(2) n(1)] by fastforce
  obtain r w' where m: "move_file p ?dst v = (r, w')" by fastforce
  have "recycle dir p w = Some (andthen (move_file p ?dst) (\<lambda>_. ret (''recycle '' @ p @ '' -> '' @ ?dst)) v)"
    using j(1) n(2) by (simp add: recycle_def)
  moreover have "w_cwd w' = w_cwd v \<and> holds_data (case r of Inl _ \<Rightarrow> canon w p | Inr _ \<Rightarrow> canon w ?dst) (in_data (fs_inodes (w_fs w) i)) w'"
    using move_file_cases [OF m, unfolded v, OF ok i p1 p2 p3] by simp
  ultimately show ?thesis using m by (cases r) (auto simp: andthen_def ret_def)
qed

text \<open>The branch that recycles: whether or not the directory of the bin could be made.\<close>

lemma delete_sidecar_recycles:
  assumes ready: "recycle_ready dir p w" and ok: "fs_ok (w_fs w)" "finite (dom (fs_names (w_fs w)))"
    and i: "fs_names (w_fs w) (canon w p) = Some i" "in_kind (fs_inodes (w_fs w) i) = RegularFile"
    and st: "os_stat p w = (Some (k, nd), w1)" and go: "in_kind nd \<noteq> Dir" "is_subtitle_path p"
  shows "\<exists>r w' q. delete_sidecar dir p False w = Some (r, w') \<and> holds_data q (in_data (fs_inodes (w_fs w) i)) w' \<and>
    (\<not> is_ok r \<longrightarrow> q = canon w p)"
proof -
  have s1: "w_fs w1 = w_fs w" "canon w1 = canon w" using os_stat_same [OF st] by (auto simp: canon_def fun_eq_iff dest!: same_filesD)
  have dir: "dir \<noteq> ''''" using ready by (auto simp: recycle_ready_def is_abs_def)
  obtain b w2 where mk: "os_mkdir_all dir w1 = (b, w2)" by fastforce
  from mkdir_all_frame [OF mk] ok have mk': "fs_ok (w_fs w2)" "finite (dom (fs_names (w_fs w2)))" "canon w2 = canon w"
    "\<And>q j. fs_names (w_fs w) q = Some j \<Longrightarrow> fs_names (w_fs w2) q = Some j \<and> fs_inodes (w_fs w2) j = fs_inodes (w_fs w) j"
    "\<And>q. fs_names (w_fs w) q = None \<Longrightarrow> q \<notin> set (parents (canon w dir)) \<Longrightarrow> fs_names (w_fs w2) q = None"
    using s1 by (auto simp: canon_def fun_eq_iff)
  have i2: "fs_names (w_fs w2) (canon w p) = Some i" "fs_inodes (w_fs w2) i = fs_inodes (w_fs w) i" using mk'(4) [OF i(1)] by auto
  show ?thesis
  proof (cases b)
    case False
    from i2 have "holds_data (canon w p) (in_data (fs_inodes (w_fs w) i)) w2" by (simp add: holds_data_def)
    with st go mk False dir show ?thesis by (intro exI conjI) (auto simp: delete_sidecar_def)
  next
    case True
    have "recycle_ready dir p w2"
      using ready mk'(5) child_not_parent [of dir] unfolding recycle_ready_def mk'(3) by blast
    from recycle_keeps [OF this mk'(1,2), unfolded mk'(3), OF _ i2(1)] i2(2) i(2) go obtain r w' q where
      "recycle dir p w2 = Some (r, w')" "holds_data q (in_data (fs_inodes (w_fs w) i)) w'" "\<not> is_ok r \<longrightarrow> q = canon w p" by auto
    with st go mk True dir show ?thesis
      by (cases r) (fastforce simp: delete_sidecar_def)+
  qed
qed

text \<open>
  C7: with a recycle directory \<^verbatim>\<open>DeleteSidecar\<close> always returns and never loses the content of the
  subtitle: it refuses what is not a subtitle, an error leaves the content where it was, and a success
  leaves it under some name, also when the file had to be copied and calls failed on the way.
\<close>

theorem delete_sidecar_keeps_content:
  assumes "recycle_ready dir p w" "fs_ok (w_fs w)" "finite (dom (fs_names (w_fs w)))"
    "fs_names (w_fs w) (canon w p) = Some i" "in_kind (fs_inodes (w_fs w) i) = RegularFile"
  shows "\<exists>r w' q. delete_sidecar dir p dry w = Some (r, w') \<and> holds_data q (in_data (fs_inodes (w_fs w) i)) w' \<and>
    (\<not> is_ok r \<or> dry \<longrightarrow> q = canon w p) \<and> (is_ok r \<longrightarrow> is_subtitle_path p)"
proof -
  let ?S = "canon w p"
  obtain x w1 where st: "os_stat p w = (x, w1)" by fastforce
  have "w_fs w1 = w_fs w" using os_stat_same [OF st] by (auto dest!: same_filesD)
  then have src: "holds_data ?S (in_data (fs_inodes (w_fs w) i)) w1" using assms(4) by (simp add: holds_data_def)
  show ?thesis
  proof (cases "x = None \<or> in_kind (snd (the x)) = Dir \<or> \<not> is_subtitle_path p \<or> dry")
    case True
    with st src show ?thesis
      by (intro exI [of _ "fst (the (delete_sidecar dir p dry w))"] exI [of _ w1] exI [of _ ?S])
        (auto simp: delete_sidecar_def split: option.splits)
  next
    case False
    then obtain k nd where x: "x = Some (k, nd)" "in_kind nd \<noteq> Dir" "is_subtitle_path p" "\<not> dry" by auto
    from delete_sidecar_recycles [OF assms st [unfolded x(1)] x(2,3)] x(3,4) show ?thesis by auto
  qed
qed

subsection \<open>The purge\<close>

text \<open>
  C20: the age of a recycled file is read from the stamp in its name, so the purge spares it until it
  has been in the recycle directory for the given time, whatever its modification time says.
\<close>

theorem purge_spares_recent:
  assumes "purge_recycle dir older (Entries es) w = (r, w')" "is_abs dir" "\<forall>(name, info) \<in> set es. plain_elem name"
    "prefix (stamp_format (nat t)) n" "15 < length n" "plain_elem n" "0 \<le> t" "nat t < stamp_end" "w_now w - older \<le> t"
    "holds_data (canon w (path_join dir n)) c w"
  shows "holds_data (canon w (path_join dir n)) c w'"
proof -
  have "dir \<noteq> ''''" using assms(2) by (auto simp: is_abs_def)
  then obtain m where p: "purge_entries dir (w_now w - older) es w = (m, w')"
    using assms(1) by (auto simp: purge_recycle_def split: prod.splits)
  from assms(4) stamp_round_trip [OF assms(8)] have "take 15 n = stamp_format (nat t)" by (auto simp: prefix_def)
  then have age: "entry_age n nd = t" for nd
    using stamp_round_trip [OF assms(8)] assms(5,7) by (simp add: entry_age_def)
  have "spared dir (w_now w - older) es w (canon w (path_join dir n))"
    unfolding spared_def
  proof (intro allI impI notI)
    fix name nd
    assume e: "(name, Some nd) \<in> set es" "entry_age name nd < w_now w - older"
      "canon w (path_join dir n) = canon w (path_join dir name)"
    from e(1) assms(3) have "plain_elem name" by auto
    from canon_child_inj [OF assms(2,6) this e(3)] age e(2) assms(9) show False by simp
  qed
  from purge_step [OF p this assms(10)] show ?thesis by simp
qed

subsection \<open>A directory to apply them to\<close>

definition recycle_demo :: "bool list \<Rightarrow> world" where
  "recycle_demo faults = \<lparr>w_fs = \<lparr>fs_names = [''/m/a.srt'' \<mapsto> 0, ''/r/20240229-120000_b.srt'' \<mapsto> 1],
     fs_inodes = (\<lambda>i. \<lparr>in_kind = RegularFile, in_size = 3, in_mtime = 7, in_nlink = 1, in_mode = 420, in_uid = 0,
       in_gid = 0, in_data = (if i = 0 then ''abc'' else ''def'')\<rparr>), fs_next = 2\<rparr>,
     w_cwd = ''/'', w_free = (\<lambda>_. None), w_faults = faults, w_rands = [], w_now = 1709208000\<rparr>"

lemma recycle_demo_dom: "dom (fs_names (w_fs (recycle_demo fl))) = {''/m/a.srt'', ''/r/20240229-120000_b.srt''}"
  by (auto simp: recycle_demo_def)

lemma recycle_demo_fs: "fs_ok (w_fs (recycle_demo fl))" "finite (dom (fs_names (w_fs (recycle_demo fl))))"
  unfolding recycle_demo_dom by (auto simp: fs_ok_def recycle_demo_def)

lemma rooted_pair: "plain_elem a \<Longrightarrow> plain_elem b \<Longrightarrow> plain_elem n \<Longrightarrow> is_abs d \<Longrightarrow> clean d = sep # a \<Longrightarrow>
    canon w (path_join d n) = sep # b @ sep # m \<Longrightarrow> plain_elem m \<Longrightarrow> a = b \<and> n = m"
proof -
  assume a: "plain_elem a" "plain_elem b" "plain_elem n" "is_abs d" "clean d = sep # a" "plain_elem m"
    and c: "canon w (path_join d n) = sep # b @ sep # m"
  obtain es where es: "clean d = sep # join [sep] es" "\<forall>e \<in> set es. plain_elem e"
    "clean (d @ sep # n) = sep # join [sep] (es @ [n])" by (rule clean_child [OF a(4,3)])
  have "sep # join [sep] es = sep # join [sep] [a]" using es(1) a(5) by simp
  then have "es = [a]" by (rule rooted_inj [THEN iffD1, rotated 2]) (use es(2) a(1) in auto)
  moreover have "sep # join [sep] (es @ [n]) = sep # join [sep] [b, m]"
    using c es(3) by (simp add: canon_child [OF a(4,3)])
  then have "es @ [n] = [b, m]" by (rule rooted_inj [THEN iffD1, rotated 2]) (use es(2) a in auto)
  ultimately show "a = b \<and> n = m" by simp
qed

lemma demo_plain: "plain_elem ''r''" "plain_elem ''m''" "plain_elem ''a.srt''" "plain_elem ''20240229-120000_b.srt''"
  "is_abs ''/r''" "clean ''/r'' = sep # ''r''" by code_simp+

lemma recycle_demo_ready: "recycle_ready ''/r'' ''/m/a.srt'' (recycle_demo fl)"
proof -
  have S: "canon (recycle_demo fl) ''/m/a.srt'' = sep # ''m'' @ sep # ''a.srt''"
    by (simp add: canon_def abs_path_def) code_simp
  have "canon (recycle_demo fl) (path_join ''/r'' n) \<noteq> sep # ''m'' @ sep # ''a.srt''" if "plain_elem n" for n
    using rooted_pair [OF demo_plain(1,2) that demo_plain(5,6), of "recycle_demo fl" "''a.srt''"] demo_plain(3) by auto
  moreover have "fs_names (w_fs (recycle_demo fl)) (canon (recycle_demo fl) (path_join ''/r'' n)) = None"
    if n: "plain_elem n" "suffix ''.part'' n" for n
  proof (rule ccontr)
    assume "fs_names (w_fs (recycle_demo fl)) (canon (recycle_demo fl) (path_join ''/r'' n)) \<noteq> None"
    then have "canon (recycle_demo fl) (path_join ''/r'' n) \<in> {''/m/a.srt'', ''/r/20240229-120000_b.srt''}"
      using recycle_demo_dom [of fl] by blast
    moreover have "''/m/a.srt'' = sep # ''m'' @ sep # ''a.srt''"
      "''/r/20240229-120000_b.srt'' = sep # ''r'' @ sep # ''20240229-120000_b.srt''" by code_simp+
    ultimately have "n = ''a.srt'' \<or> n = ''20240229-120000_b.srt''"
      using rooted_pair [OF demo_plain(1) _ n(1) demo_plain(5,6)] demo_plain(1-4) by (metis insertE singletonD)
    with n(2) show False by (auto simp: suffix_def)
  qed
  ultimately show ?thesis unfolding recycle_ready_def S using demo_plain(5) by blast
qed

lemma unique_dst_ends_witness:
  "\<exists>dst w'. unique_dst ''/r'' ''20240229-120000_b.srt'' (recycle_demo []) = Some (dst, w') \<and>
     follow max_links (w_fs (recycle_demo [])) (canon (recycle_demo []) dst) = None"
proof -
  have "sep \<notin> set ''20240229-120000_b.srt''" by code_simp
  from unique_dst_ends [OF demo_plain(5) this recycle_demo_fs(2), of "[]"] show ?thesis
    by (auto simp: recycle_demo_def)
qed

lemma delete_sidecar_keeps_content_witness:
  "\<exists>r w' q. delete_sidecar ''/r'' ''/m/a.srt'' False (recycle_demo [False, False, False, True]) = Some (r, w') \<and>
     holds_data q ''abc'' w'"
proof -
  let ?w = "recycle_demo [False, False, False, True]"
  have "canon ?w ''/m/a.srt'' = ''/m/a.srt''" by (simp add: canon_def abs_path_def) code_simp
  then have "fs_names (w_fs ?w) (canon ?w ''/m/a.srt'') = Some 0" by (simp add: recycle_demo_def)
  moreover have "in_kind (fs_inodes (w_fs ?w) 0) = RegularFile" "in_data (fs_inodes (w_fs ?w) 0) = ''abc''"
    by (simp_all add: recycle_demo_def)
  ultimately show ?thesis
    using delete_sidecar_keeps_content [OF recycle_demo_ready recycle_demo_fs, of "[False, False, False, True]" 0 False] by metis
qed

lemma stamp_end_far: "t < 365 * 8030 * 86400 \<Longrightarrow> t < stamp_end"
proof -
  have "365 * length xs \<le> sum_list (map year_days xs)" for xs by (induction xs) auto
  from this [of "[1970..<10000]"] have "365 * 8030 \<le> sum_list years"
    unfolding years_def by (simp only: length_upt)
  then have "365 * 8030 * 86400 \<le> stamp_end" unfolding stamp_end_def by (rule mult_le_mono1)
  then show "t < 365 * 8030 * 86400 \<Longrightarrow> t < stamp_end" by linarith
qed

lemma recycled_plain:
  assumes "is_subtitle_path p"
  shows "plain_elem (recycled_name p t)"
proof -
  obtain c s where c: "stamp_format (nat t) = c # s" "\<exists>d < 10. c = digit_char d" "sep \<notin> set s" by (rule stamp_chars)
  then have "c \<noteq> sep" "c \<noteq> CHR ''.''" using digit_facts by metis+
  with c subtitle_base [OF assms] show ?thesis by (auto simp: recycled_name_def plain_elem_def sep_def)
qed

text \<open>A file recycled at noon, with an old modification time, in a purge of what is older than an hour.\<close>

definition purge_demo :: world where
  "purge_demo = (recycle_demo [])\<lparr>w_fs := (w_fs (recycle_demo []))\<lparr>fs_names :=
     [canon (recycle_demo []) (path_join ''/r'' (recycled_name ''/m/b.srt'' 1709208000)) \<mapsto> 1]\<rparr>\<rparr>"

lemma purge_spares_recent_witness:
  "\<exists>r w'. purge_recycle ''/r'' 3600 (Entries [(recycled_name ''/m/b.srt'' 1709208000, Some (fs_inodes (w_fs purge_demo) 1))]) purge_demo = (r, w') \<and>
     in_mtime (fs_inodes (w_fs purge_demo) 1) = 7 \<and>
     holds_data (canon purge_demo (path_join ''/r'' (recycled_name ''/m/b.srt'' 1709208000))) ''def'' w'"
proof -
  let ?n = "recycled_name ''/m/b.srt'' 1709208000"
  obtain r w' where p: "purge_recycle ''/r'' 3600 (Entries [(?n, Some (fs_inodes (w_fs purge_demo) 1))]) purge_demo = (r, w')" by fastforce
  have plain: "plain_elem ?n" by (rule recycled_plain) code_simp
  have far: "nat 1709208000 < stamp_end" by (rule stamp_end_far) simp
  have n: "prefix (stamp_format (nat 1709208000)) ?n" "15 < length ?n"
    using stamp_round_trip [OF far] by (simp_all add: recycled_name_def)
  have "w_cwd purge_demo = w_cwd (recycle_demo [])" by (simp add: purge_demo_def)
  then have "canon purge_demo = canon (recycle_demo [])" by (simp add: canon_def fun_eq_iff)
  then have "holds_data (canon purge_demo (path_join ''/r'' ?n)) ''def'' purge_demo"
    by (simp add: holds_data_def purge_demo_def) (simp add: recycle_demo_def)
  then have "holds_data (canon purge_demo (path_join ''/r'' ?n)) ''def'' w'"
    by (intro purge_spares_recent [OF p demo_plain(5) _ n plain _ far]) (use plain in \<open>simp_all add: purge_demo_def recycle_demo_def\<close>)
  moreover have "in_mtime (fs_inodes (w_fs purge_demo) 1) = 7" by (simp add: purge_demo_def recycle_demo_def)
  ultimately show ?thesis using p by blast
qed

end
