(* ===== verification/Machine.thy ===== *)
theory Machine
  imports RunProps StoreInv
begin

text \<open>
  The state that the long-running parts of the program share: the file system, the database, and the
  context of the running operation. A context that has been cancelled stays cancelled; each time the
  code asks, one element of \<open>m_ctx\<close> answers, and an exhausted list means it never is. The clock stands
  still during one operation.
\<close>

record machine =
  m_world :: world
  m_store :: store
  m_ctx :: "bool list"

definition ctx_done :: "machine \<Rightarrow> bool \<times> machine" where
  "ctx_done m =
     (case m_ctx m of
        [] \<Rightarrow> (False, m)
      | True # bs \<Rightarrow> (True, m)
      | False # bs \<Rightarrow> (False, m\<lparr>m_ctx := bs\<rparr>))"

definition on_world :: "(world \<Rightarrow> 'a \<times> world) \<Rightarrow> machine \<Rightarrow> 'a \<times> machine" where
  "on_world f m = (case f (m_world m) of (a, w) \<Rightarrow> (a, m\<lparr>m_world := w\<rparr>))"

definition on_store :: "(store_err \<Rightarrow> 'e) \<Rightarrow> 'a store_op \<Rightarrow> (machine, 'e, 'a) op" where
  "on_store err f m =
     (case f (m_store m) of
        (Inl e, s) \<Rightarrow> (Inl (err e), m\<lparr>m_store := s\<rparr>)
      | (Inr a, s) \<Rightarrow> (Inr a, m\<lparr>m_store := s\<rparr>))"

definition clock :: "machine \<Rightarrow> int" where
  "clock m = w_now (m_world m)"

text \<open>What an operation of the machine does to the database.\<close>

definition via_store :: "(store \<Rightarrow> store \<Rightarrow> bool) \<Rightarrow> machine \<Rightarrow> machine \<Rightarrow> bool" where
  "via_store R m m' \<longleftrightarrow> R (m_store m) (m_store m')"

lemma via_frame: "frame R \<Longrightarrow> frame (via_store R)"
  unfolding frame_def via_store_def by blast

lemma on_world_store: "frame R \<Longrightarrow> keeps (via_store R) (on_world f)"
  by (rule keepsI) (auto simp: on_world_def via_store_def frame_def split: prod.splits)

lemma ctx_done_store: "frame R \<Longrightarrow> keeps (via_store R) ctx_done"
  by (rule keepsI) (auto simp: ctx_done_def via_store_def frame_def split: list.splits bool.splits)

lemma on_store_keeps: "keeps R f \<Longrightarrow> keeps (via_store R) (on_store err f)"
  by (rule keepsI) (auto simp: on_store_def via_store_def dest: keepsD split: prod.splits sum.splits)

lemma on_store_Inr: "on_store err f m = (Inr a, m') \<longleftrightarrow> (\<exists>s. f (m_store m) = (Inr a, s) \<and> m' = m\<lparr>m_store := s\<rparr>)"
  by (auto simp: on_store_def split: prod.splits sum.splits)

lemma on_world_same [simp]: "on_world f m = (a, m') \<Longrightarrow> m_store m' = m_store m"
  by (auto simp: on_world_def split: prod.splits)

end
