(* ===== verification/Sidecar.thy ===== *)
theory Sidecar
  imports GoPath
begin

text \<open>
  \<^verbatim>\<open>internal/scan/sidecar.go\<close> and \<^verbatim>\<open>arrparse.go\<close>: reading the tokens of an external subtitle's name, and
  the display grouping of a video from its folders. The regular expressions are written as functions
  that try their alternatives in the order of Go's leftmost-first search.
\<close>

subsection \<open>Sidecar names\<close>

record sidecar_name =
  sn_name :: string
  sn_lang :: string
  sn_hi :: bool
  sn_forced :: bool
  sn_ext :: string

definition sub_exts :: "string list" where
  "sub_exts = [''srt'', ''ass'', ''ssa'', ''sub'', ''idx'', ''vtt'', ''smi'', ''sup'']"

definition is_letter :: "char \<Rightarrow> bool" where
  "is_letter c \<longleftrightarrow> (CHR ''a'' \<le> c \<and> c \<le> CHR ''z'') \<or> (CHR ''A'' \<le> c \<and> c \<le> CHR ''Z'')"

text \<open>Two or three letters, optionally a hyphen and two to four more.\<close>

definition lang_token :: "string \<Rightarrow> bool" where
  "lang_token s =
     (case split_on CHR ''-'' s of
        [a] \<Rightarrow> list_all is_letter a \<and> 2 \<le> length a \<and> length a \<le> 3
      | [a, b] \<Rightarrow> list_all is_letter a \<and> 2 \<le> length a \<and> length a \<le> 3 \<and>
                 list_all is_letter b \<and> 2 \<le> length b \<and> length b \<le> 4
      | _ \<Rightarrow> False)"

datatype flag = HI | Forced

definition flag_token :: "string \<Rightarrow> flag option" where
  "flag_token s =
     (if s = ''hi'' \<or> s = ''sdh'' \<or> s = ''cc'' then Some HI
      else if s = ''forced'' \<or> s = ''foreign'' then Some Forced
      else None)"

definition is_subtitle_ext :: "string \<Rightarrow> bool" where
  "is_subtitle_ext e \<longleftrightarrow> to_lower e \<in> set sub_exts"

definition read_token :: "string \<Rightarrow> sidecar_name \<Rightarrow> sidecar_name" where
  "read_token tok sc =
     (let l = to_lower tok in
      case flag_token l of
        Some HI \<Rightarrow> sc\<lparr>sn_hi := True\<rparr>
      | Some Forced \<Rightarrow> sc\<lparr>sn_forced := True\<rparr>
      | None \<Rightarrow> if sn_lang sc = '''' \<and> lang_token tok then sc\<lparr>sn_lang := l\<rparr> else sc)"

definition match_sidecar :: "string \<Rightarrow> string \<Rightarrow> sidecar_name option" where
  "match_sidecar name base =
     (if length name \<le> length base \<or> \<not> prefix base name \<or> name ! length base \<noteq> CHR ''.'' then None
      else let parts = split_on CHR ''.'' (drop (length base + 1) name); ext = to_lower (last parts) in
        if ext \<notin> set sub_exts then None
        else Some (fold read_token (butlast parts)
               \<lparr>sn_name = name, sn_lang = '''', sn_hi = False, sn_forced = False, sn_ext = ext\<rparr>))"

subsection \<open>Regular expressions of the folder conventions\<close>

record parsed =
  ps_kind :: string
  ps_series :: string
  ps_season :: int
  ps_episode :: string
  ps_title :: string

definition digit :: "char \<Rightarrow> bool" where
  "digit c \<longleftrightarrow> CHR ''0'' \<le> c \<and> c \<le> CHR ''9''"

definition word_char :: "char \<Rightarrow> bool" where
  "word_char c \<longleftrightarrow> is_letter c \<or> digit c \<or> c = CHR ''_''"

text \<open>\<open>\b\<close> between what came before and what follows.\<close>

definition boundary :: "char option \<Rightarrow> string \<Rightarrow> bool" where
  "boundary prev s \<longleftrightarrow>
     (case prev of Some c \<Rightarrow> word_char c | None \<Rightarrow> False) \<noteq> (case s of c # _ \<Rightarrow> word_char c | [] \<Rightarrow> False)"

text \<open>A run of digits of a length in the given range, as long as possible; the rest.\<close>

definition take_digits :: "nat \<Rightarrow> nat \<Rightarrow> string \<Rightarrow> (string \<times> string) option" where
  "take_digits lo hi s =
     (let n = min hi (length (takeWhile digit s)) in if n < lo then None else Some (take n s, drop n s))"

text \<open>A letter without case: its two forms, and the long s for the letter s.\<close>

definition eat_letter :: "char \<Rightarrow> string \<Rightarrow> string option" where
  "eat_letter c s =
     (case s of
        [] \<Rightarrow> None
      | d # t \<Rightarrow>
          if lower_char d = c then Some t
          else if c = CHR ''s'' \<and> prefix long_s s then Some (drop 2 s)
          else None)"

fun eat_word :: "string \<Rightarrow> string \<Rightarrow> string option" where
  "eat_word [] s = Some s"
| "eat_word (c # cs) s = (case eat_letter c s of Some t \<Rightarrow> eat_word cs t | None \<Rightarrow> None)"

definition season_dir :: "string \<Rightarrow> string option" where
  "season_dir s =
     (case eat_word ''season'' s of
        None \<Rightarrow> None
      | Some t \<Rightarrow>
          let d = dropWhile (\<lambda>c. c = CHR '' '' \<or> c = CHR ''.'' \<or> c = CHR ''_'' \<or> c = CHR ''-'') t in
          if list_all digit d \<and> 1 \<le> length d \<and> length d \<le> 4 then Some d else None)"

text \<open>
  The episode marker at a position: after the first number the next letter must be \<open>E\<close>, after the
  second either another number introduced by \<open>E\<close> or the end of the word. A shorter run of digits never
  helps, since a digit would follow.
\<close>

definition last_of :: "char option \<Rightarrow> string \<Rightarrow> char option" where
  "last_of prev s = (if s = [] then prev else Some (last s))"

definition episode_at :: "char option \<Rightarrow> string \<Rightarrow> (string \<times> string \<times> string) option" where
  "episode_at prev s =
     (if \<not> boundary prev s then None
      else case eat_letter CHR ''s'' s of None \<Rightarrow> None | Some s1 \<Rightarrow>
      case take_digits 1 2 s1 of None \<Rightarrow> None | Some (season, s2) \<Rightarrow>
      case eat_letter CHR ''e'' s2 of None \<Rightarrow> None | Some s3 \<Rightarrow>
      case take_digits 1 3 s3 of None \<Rightarrow> None | Some (ep, s4) \<Rightarrow>
      let s5 = (if prefix ''-'' s4 then tl s4 else s4);
          more = (case eat_letter CHR ''e'' s5 of None \<Rightarrow> None
                  | Some s6 \<Rightarrow> (case take_digits 1 3 s6 of None \<Rightarrow> None
                     | Some (ep2, s7) \<Rightarrow> if boundary (Some (last ep2)) s7 then Some ep2 else None))
      in case more of
           Some ep2 \<Rightarrow> Some (season, ep, ep2)
         | None \<Rightarrow> if boundary (Some (last ep)) s4 then Some (season, ep, '''') else None)"

fun search :: "(char option \<Rightarrow> string \<Rightarrow> 'a option) \<Rightarrow> char option \<Rightarrow> string \<Rightarrow> 'a option" where
  "search f prev [] = f prev []"
| "search f prev (c # s) = (case f prev (c # s) of Some x \<Rightarrow> Some x | None \<Rightarrow> search f (Some c) s)"

definition episode_re :: "string \<Rightarrow> (string \<times> string \<times> string) option" where
  "episode_re s = search episode_at None s"

definition air_date_at :: "char option \<Rightarrow> string \<Rightarrow> string option" where
  "air_date_at prev s =
     (if boundary prev s \<and> 10 \<le> length s \<and>
         list_all digit (take 4 s) \<and> s ! 4 = CHR ''-'' \<and> list_all digit (take 2 (drop 5 s)) \<and>
         s ! 7 = CHR ''-'' \<and> list_all digit (take 2 (drop 8 s)) \<and> boundary (Some (s ! 9)) (drop 10 s)
      then Some (take 10 s) else None)"

definition re_space :: "char \<Rightarrow> bool" where
  "re_space c \<longleftrightarrow> c = CHR 0x09 \<or> c = CHR 0x0A \<or> c = CHR 0x0C \<or> c = CHR 0x0D \<or> c = CHR '' ''"

definition id_tag_at :: "string \<Rightarrow> nat option" where
  "id_tag_at s =
     (let sp = takeWhile re_space s; t = dropWhile re_space s in
      case t of
        [] \<Rightarrow> None
      | b # u \<Rightarrow>
          if b \<noteq> CHR ''['' \<and> b \<noteq> CHR ''{'' then None
          else (case List.find (\<lambda>k. prefix (k @ ''-'') u) [''tvdb'', ''tvdbid'', ''imdb'', ''imdbid'', ''tmdb'', ''tmdbid''] of
              None \<Rightarrow> None
            | Some k \<Rightarrow>
                let v = drop (length k + 1) u; body = takeWhile (\<lambda>c. c \<noteq> CHR '']'' \<and> c \<noteq> CHR ''}'') v in
                if body = '''' \<or> length body = length v then None
                else Some (length sp + 1 + length k + 1 + length body + 1)))"

function strip_tags :: "string \<Rightarrow> string" where
  "strip_tags [] = []"
| "strip_tags (c # s) =
     (case id_tag_at (c # s) of
        Some (Suc n) \<Rightarrow> strip_tags (drop n s)
      | _ \<Rightarrow> c # strip_tags s)"
  by pat_completeness auto
termination
  by (relation "measure length") auto

definition clean_folder_name :: "string \<Rightarrow> string" where
  "clean_folder_name s = trim_space (strip_tags s)"

definition pad2 :: "string \<Rightarrow> string" where
  "pad2 s = (if length s = 1 then CHR ''0'' # s else s)"

definition episode_label :: "string \<Rightarrow> string" where
  "episode_label f =
     (case episode_re f of
        Some (s, e, e2) \<Rightarrow> ''S'' @ pad2 s @ ''E'' @ pad2 e @ (if e2 \<noteq> '''' then ''-E'' @ pad2 e2 else '''')
      | None \<Rightarrow> (case search air_date_at None f of Some d \<Rightarrow> d | None \<Rightarrow> ''''))"

subsection \<open>Classifying a path\<close>

definition tv :: "string \<Rightarrow> int \<Rightarrow> string \<Rightarrow> parsed" where
  "tv series season episode = \<lparr>ps_kind = ''tv'', ps_series = series, ps_season = season, ps_episode = episode, ps_title = series\<rparr>"

definition trim_ext :: "string \<Rightarrow> string" where
  "trim_ext f = take (length f - length (file_ext f)) f"

definition parse_path :: "path \<Rightarrow> path \<Rightarrow> parsed" where
  "parse_path root p =
     (case path_rel root p of
        None \<Rightarrow> \<lparr>ps_kind = ''other'', ps_series = '''', ps_season = - 1, ps_episode = '''', ps_title = base_name p\<rparr>
      | Some rel \<Rightarrow>
          let parts = split_on sep rel; f = last parts; dirs = butlast parts;
              tv_dir = (if 2 \<le> length dirs
                then let series = clean_folder_name (dirs ! (length dirs - 2)) in
                  (case season_dir (last dirs) of
                     Some n \<Rightarrow> Some (tv series (fst (parse_int n)) (episode_label f))
                   | None \<Rightarrow> if equal_fold (last dirs) ''specials'' then Some (tv series 0 (episode_label f)) else None)
                else None)
          in case tv_dir of
            Some r \<Rightarrow> r
          | None \<Rightarrow>
             (case episode_re f of
                Some (s, _) \<Rightarrow>
                  tv (if dirs \<noteq> [] then clean_folder_name (last dirs) else '''') (fst (parse_int s)) (episode_label f)
              | None \<Rightarrow>
                  if dirs \<noteq> [] then \<lparr>ps_kind = ''movie'', ps_series = '''', ps_season = - 1, ps_episode = '''',
                                   ps_title = clean_folder_name (last dirs)\<rparr>
                  else \<lparr>ps_kind = ''other'', ps_series = '''', ps_season = - 1, ps_episode = '''', ps_title = trim_ext f\<rparr>))"

end
