(* ===== verification/Scanner.thy ===== *)
theory Scanner
  imports Machine Sidecar
begin

text \<open>
  Package \<^verbatim>\<open>internal/scan\<close>: the walk of a library, the refresh of one video's record, and the guards
  in front of the pruning. What \<^verbatim>\<open>filepath.WalkDir\<close> finds is a tree: directories that may be unreadable,
  files with what \<^verbatim>\<open>Info\<close> answers. Progress events and messages are not part of the state.
\<close>

subsection \<open>The tree of a library\<close>

text \<open>Why a \<^verbatim>\<open>Stat\<close> fails: nothing is there (or a loop of links), or something else.\<close>

datatype stat_err = Missing | OtherErr

datatype wnode =
    WFile string bool "stat_err + inode"
  | WDir string bool "wnode list"

definition os_stat_err :: "path \<Rightarrow> world \<Rightarrow> (stat_err + inode) \<times> world" where
  "os_stat_err p w =
     (case fault w of (b, w') \<Rightarrow>
        (if b then Inl OtherErr
         else (case follow max_links (w_fs w') (canon w p) of Some (_, nd) \<Rightarrow> Inr nd | None \<Rightarrow> Inl Missing), w'))"

definition video_exts :: "string list" where
  "video_exts = [''.mkv'', ''.mp4'', ''.m4v'', ''.avi'', ''.mov'', ''.webm'', ''.ts'', ''.m2ts'', ''.wmv'', ''.flv'']"

definition is_video :: "string \<Rightarrow> bool" where
  "is_video name \<longleftrightarrow> to_lower (file_ext name) \<in> set video_exts"

record scanner =
  sn_prober :: "world prober"
  sn_marshal :: "probe_result \<Rightarrow> string option"
  sn_ratio :: rat

text \<open>The first error is what ends a scan; the second kind leaves one file out.\<close>

datatype scan_err =
    PathMissing
  | Cancelled
  | LookupFailed store_err
  | StoreFailed store_err
  | ScanProbe probe_err
  | MarshalFailed
  | NoFile

definition prune_max_ratio :: "scanner \<Rightarrow> rat" where
  "prune_max_ratio sn = (if 0 < sn_ratio sn \<and> sn_ratio sn \<le> 1 then sn_ratio sn else fl64 (1 / 5))"

subsection \<open>The walk\<close>

record walk_acc =
  wa_videos :: "(path \<times> inode) list"
  wa_files :: "(path \<times> string) list"
  wa_sizes :: "((path \<times> string) \<times> int) list"
  wa_err :: bool

definition remove_stale_temp :: "path \<Rightarrow> string \<Rightarrow> stat_err + inode \<Rightarrow> machine \<Rightarrow> machine" where
  "remove_stale_temp p name info m =
     (case info of
        Inr nd \<Rightarrow>
          if sublist ''.muxprune.tmp.'' name \<and> 86400 < clock m - in_mtime nd then snd (on_world (os_remove p) m) else m
      | Inl _ \<Rightarrow> m)"

definition visit_file :: "path \<Rightarrow> string \<Rightarrow> bool \<Rightarrow> stat_err + inode \<Rightarrow> walk_acc \<Rightarrow> machine \<Rightarrow> walk_acc \<times> machine" where
  "visit_file p name link info0 acc0 m =
     (if prefix ''.'' name then (acc0, remove_stale_temp p name info0 m)
      else
        let d = dir_name p; acc = acc0\<lparr>wa_files := wa_files acc0 @ [(d, name)]\<rparr> in
        case (if link \<and> \<not> isl info0 then on_world (os_stat_err p) m else (info0, m)) of (info, m1) \<Rightarrow>
        (case info of
           Inl e \<Rightarrow> (if is_video name \<and> e \<noteq> Missing then acc\<lparr>wa_err := True\<rparr> else acc, m1)
         | Inr nd \<Rightarrow>
             let acc1 = acc\<lparr>wa_sizes := ((d, name), in_size nd) # wa_sizes acc\<rparr> in
             (if is_video name \<and> \<not> sublist ''.muxprune.tmp'' name
              then acc1\<lparr>wa_videos := wa_videos acc1 @ [(p, nd)]\<rparr> else acc1, m1)))"

text \<open>The context is asked before every entry; a hidden directory is skipped, but not the root.\<close>

fun walk_node :: "bool \<Rightarrow> path \<Rightarrow> wnode \<Rightarrow> walk_acc \<Rightarrow> (machine, scan_err, walk_acc) op"
  and walk_list :: "path \<Rightarrow> wnode list \<Rightarrow> walk_acc \<Rightarrow> (machine, scan_err, walk_acc) op" where
  "walk_node at_root p (WFile name link info) acc m =
     (case ctx_done m of
        (True, m1) \<Rightarrow> (Inl Cancelled, m1)
      | (False, m1) \<Rightarrow> (case visit_file p name link info acc m1 of (acc', m2) \<Rightarrow> (Inr acc', m2)))"
| "walk_node at_root p (WDir name unreadable kids) acc m =
     (case ctx_done m of
        (True, m1) \<Rightarrow> (Inl Cancelled, m1)
      | (False, m1) \<Rightarrow>
          if prefix ''.'' name \<and> \<not> at_root then (Inr acc, m1)
          else walk_list p kids (if unreadable then acc\<lparr>wa_err := True\<rparr> else acc) m1)"
| "walk_list p [] acc m = (Inr acc, m)"
| "walk_list p (k # ks) acc m =
     (case walk_node False (path_join p (case k of WFile n _ _ \<Rightarrow> n | WDir n _ _ \<Rightarrow> n)) k acc m of
        (Inl e, m') \<Rightarrow> (Inl e, m')
      | (Inr acc', m') \<Rightarrow> walk_list p ks acc' m')"

text \<open>A root that cannot be read at all is one error and no file.\<close>

definition walk :: "path \<Rightarrow> wnode option \<Rightarrow> (machine, scan_err, walk_acc) op" where
  "walk rp tree =
     (let acc = \<lparr>wa_videos = [], wa_files = [], wa_sizes = [], wa_err = False\<rparr> in
      case tree of
        None \<Rightarrow> ret (acc\<lparr>wa_err := True\<rparr>)
      | Some t \<Rightarrow> walk_node True rp t acc)"

subsection \<open>One video\<close>

definition sidecar_label :: "sidecar_name \<Rightarrow> string" where
  "sidecar_label s =
     (if sn_lang s = '''' then ''und'' else sn_lang s) @ (if sn_hi s then ''.hi'' else '''') @
     (if sn_forced s then ''.forced'' else '''') @ ''.'' @ sn_ext s"

definition summarize_video :: "probe_result \<Rightarrow> string" where
  "summarize_video res =
     (case List.find (\<lambda>s. st_type s = ''video'') (pr_streams res) of Some s \<Rightarrow> st_codec s | None \<Rightarrow> '''')"

definition summarize_streams :: "probe_result \<Rightarrow> string \<Rightarrow> string" where
  "summarize_streams res ty =
     join '' '' (map (\<lambda>s. if st_lang s = '''' then ''und'' else st_lang s) (filter (\<lambda>s. st_type s = ty) (pr_streams res)))"

text \<open>A subtitle belongs to the video with the longest matching name.\<close>

definition longer_bases :: "string \<Rightarrow> string list \<Rightarrow> string list" where
  "longer_bases base siblings =
     filter (prefix (base @ ''.'')) (map (\<lambda>n. trim_suffix n (file_ext n)) (filter is_video siblings))"

definition owned_by_longer :: "string \<Rightarrow> string list \<Rightarrow> string \<Rightarrow> bool" where
  "owned_by_longer base siblings name \<longleftrightarrow> (\<exists>ob \<in> set (longer_bases base siblings). match_sidecar name ob \<noteq> None)"

definition own_sidecars :: "string \<Rightarrow> string list \<Rightarrow> sidecar_name list" where
  "own_sidecars base siblings =
     List.map_filter (\<lambda>name. if owned_by_longer base siblings name then None else match_sidecar name base) siblings"

text \<open>The size comes from the walk, or else from a \<^verbatim>\<open>Stat\<close> whose failure counts as zero.\<close>

definition sidecar_size :: "path \<Rightarrow> ((path \<times> string) \<times> int) list option \<Rightarrow> string \<Rightarrow> machine \<Rightarrow> int \<times> machine" where
  "sidecar_size dir sizes name m =
     (case sizes of
        Some szs \<Rightarrow> ((case map_of szs (dir, name) of Some n \<Rightarrow> n | None \<Rightarrow> 0), m)
      | None \<Rightarrow>
          (case on_world (os_stat (path_join dir name)) m of
             (Some (_, nd), m') \<Rightarrow> (in_size nd, m')
           | (None, m') \<Rightarrow> (0, m')))"

fun sidecar_rows ::
  "path \<Rightarrow> ((path \<times> string) \<times> int) list option \<Rightarrow> sidecar_name list \<Rightarrow> machine \<Rightarrow> sidecar list \<times> machine" where
  "sidecar_rows dir sizes [] m = ([], m)"
| "sidecar_rows dir sizes (s # ss) m =
     (case sidecar_size dir sizes (sn_name s) m of (sz, m1) \<Rightarrow>
      case sidecar_rows dir sizes ss m1 of (rows, m2) \<Rightarrow>
        (\<lparr>sc_id = 0, sc_file = 0, sc_path = path_join dir (sn_name s), sc_name = sn_name s, sc_lang = sn_lang s,
          sc_hi = sn_hi s, sc_forced = sn_forced s, sc_ext = sn_ext s, sc_size = sz\<rparr> # rows, m2))"

definition file_record :: "scanner \<Rightarrow> library \<Rightarrow> path \<Rightarrow> inode \<Rightarrow> probe_result \<Rightarrow> string \<Rightarrow> string \<Rightarrow> int \<Rightarrow> int \<Rightarrow> media_file" where
  "file_record sn lib p nd res js summary i stamp =
     (let ps = parse_path (lb_path lib) p in
      \<lparr>mf_id = i, mf_library = lb_id lib, mf_path = p, mf_size = in_size nd, mf_mtime = in_mtime nd,
       mf_nlink = in_nlink nd, mf_kind = ps_kind ps, mf_series = ps_series ps, mf_season = ps_season ps,
       mf_episode = ps_episode ps, mf_title = ps_title ps, mf_video = summarize_video res,
       mf_audio = summarize_streams res ''audio'', mf_subs = summarize_streams res ''subtitle'',
       mf_sidecar_summary = summary, mf_probe = js, mf_scanned = stamp, mf_sidecars = []\<rparr>)"

text \<open>\<^verbatim>\<open>scanOne\<close>: whether the record was current, the key it has, and the error if any.\<close>

type_synonym one_result = "bool \<times> int \<times> scan_err option"

definition finish_one :: "int \<Rightarrow> (machine, scan_err, unit) op \<Rightarrow> machine \<Rightarrow> one_result \<times> machine" where
  "finish_one i f m = (case f m of (Inl e, m') \<Rightarrow> ((False, i, Some e), m') | (Inr _, m') \<Rightarrow> ((False, i, None), m'))"

definition refresh_known :: "int \<Rightarrow> int \<Rightarrow> string \<Rightarrow> sidecar list \<Rightarrow> int \<Rightarrow> (machine, scan_err, unit) op" where
  "refresh_known i nlink summary scs stamp =
     andthen (on_store StoreFailed (touch_file i nlink summary stamp)) (\<lambda>_. on_store StoreFailed (replace_sidecars i scs))"

definition probe_and_store ::
  "scanner \<Rightarrow> library \<Rightarrow> path \<Rightarrow> inode \<Rightarrow> string \<Rightarrow> sidecar list \<Rightarrow> int \<Rightarrow> int \<Rightarrow> machine \<Rightarrow> one_result \<times> machine" where
  "probe_and_store sn lib p nd summary scs i stamp m =
     (case probe (sn_prober sn) (m_world m) p of
        Inl e \<Rightarrow> ((False, i, Some (ScanProbe e)), m)
      | Inr res \<Rightarrow>
          (case sn_marshal sn res of
             None \<Rightarrow> ((False, i, Some MarshalFailed), m)
           | Some js \<Rightarrow>
               (case on_store StoreFailed (upsert_media_file (file_record sn lib p nd res js summary i stamp)) m of
                  (Inl e, m1) \<Rightarrow> ((False, i, Some e), m1)
                | (Inr n, m1) \<Rightarrow> finish_one n (on_store StoreFailed (replace_sidecars n scs)) m1)))"

definition scan_one ::
  "scanner \<Rightarrow> library \<Rightarrow> path \<Rightarrow> inode \<Rightarrow> string list \<Rightarrow> ((path \<times> string) \<times> int) list option \<Rightarrow> int \<Rightarrow> machine \<Rightarrow>
     one_result \<times> machine" where
  "scan_one sn lib p info0 siblings sizes stamp m =
     (case on_world (os_stat p) m of (st, m1) \<Rightarrow>
      let nd = (case st of Some (_, nd) \<Rightarrow> nd | None \<Rightarrow> info0);
          base = trim_suffix (base_name p) (file_ext p);
          own = own_sidecars base siblings;
          summary = join '' '' (sort (map sidecar_label own)) in
      case sidecar_rows (dir_name p) sizes own m1 of (scs, m2) \<Rightarrow>
      case on_store LookupFailed (get_file_by_path_meta p) m2 of
        (Inl e, m3) \<Rightarrow> ((False, 0, Some e), m3)
      | (Inr fm, m3) \<Rightarrow>
          if fm_id fm \<noteq> 0 \<and> fm_probed fm \<and> fm_size fm = in_size nd \<and> fm_mtime fm = in_mtime nd
          then
            if fm_nlink fm = in_nlink nd \<and> fm_sidecars fm = summary then ((True, fm_id fm, None), m3)
            else finish_one (fm_id fm) (refresh_known (fm_id fm) (in_nlink nd) summary scs stamp) m3
          else probe_and_store sn lib p nd summary scs (fm_id fm) stamp m3)"

subsection \<open>A library\<close>

definition names_in :: "path \<Rightarrow> walk_acc \<Rightarrow> string list" where
  "names_in d acc = map snd (filter (\<lambda>x. fst x = d) (wa_files acc))"

definition is_lookup :: "scan_err option \<Rightarrow> bool" where
  "is_lookup e = (case e of Some (LookupFailed _) \<Rightarrow> True | _ \<Rightarrow> False)"

text \<open>The IDs to touch at the end, and whether the database could not be asked.\<close>

fun scan_videos ::
  "scanner \<Rightarrow> library \<Rightarrow> int \<Rightarrow> walk_acc \<Rightarrow> (path \<times> inode) list \<Rightarrow> int list \<Rightarrow> bool \<Rightarrow> (machine, scan_err, int list \<times> bool) op" where
  "scan_videos sn lib start acc [] pending bad m = (Inr (pending, bad), m)"
| "scan_videos sn lib start acc ((p, nd) # vs) pending bad m =
     (case ctx_done m of
        (True, m1) \<Rightarrow> (Inl Cancelled, m1)
      | (False, m1) \<Rightarrow>
          (case scan_one sn lib p nd (names_in (dir_name p) acc) (Some (wa_sizes acc)) start m1 of
             ((unchanged, i, err), m2) \<Rightarrow>
               let pending' = (if (err \<noteq> None \<and> i \<noteq> 0) \<or> (err = None \<and> unchanged) then pending @ [i] else pending);
                   bad' = (bad \<or> (err \<noteq> None \<and> i = 0 \<and> is_lookup err))
               in scan_videos sn lib start acc vs pending' bad' m2))"

text \<open>Too large a share of the library would go.\<close>

definition too_many :: "scanner \<Rightarrow> nat \<Rightarrow> nat \<Rightarrow> bool" where
  "too_many sn known stale \<longleftrightarrow>
     0 < known \<and> 5 < stale \<and> prune_max_ratio sn < fl64 (fl64 (of_nat stale) / fl64 (of_nat known))"

definition guarded_prune :: "scanner \<Rightarrow> library \<Rightarrow> int \<Rightarrow> (machine, scan_err, unit) op" where
  "guarded_prune sn lib start =
     andthen (on_store StoreFailed (count_files_by_library (lb_id lib))) (\<lambda>known.
     andthen (on_store StoreFailed (count_stale_files (lb_id lib) start)) (\<lambda>stale.
     if too_many sn known stale then ret ()
     else andthen (on_store StoreFailed (prune_files (lb_id lib) start)) (\<lambda>_. ret ())))"

definition no_videos_but_records :: "library \<Rightarrow> machine \<Rightarrow> bool \<times> machine" where
  "no_videos_but_records lib m =
     (case on_store StoreFailed (count_files_by_library (lb_id lib)) m of
        (Inr existing, m') \<Rightarrow> (0 < existing, m')
      | (Inl _, m') \<Rightarrow> (False, m'))"

definition finish_scan :: "scanner \<Rightarrow> library \<Rightarrow> int \<Rightarrow> (path \<times> inode) list \<Rightarrow> int list \<Rightarrow> bool \<Rightarrow> (machine, scan_err, unit) op" where
  "finish_scan sn lib start videos pending bad =
     andthen (on_store StoreFailed (get_library (lb_id lib))) (\<lambda>cur.
     if (case cur of None \<Rightarrow> True | Some l \<Rightarrow> lb_path l \<noteq> lb_path lib) then ret ()
     else
       andthen (on_store StoreFailed (touch_files_bulk pending start)) (\<lambda>_.
       andthen (on_store StoreFailed (prune_files_outside (lb_id lib) (lb_path lib))) (\<lambda>_.
       \<lambda>m. case (if videos = [] then no_videos_but_records lib m else (False, m)) of (none, m1) \<Rightarrow>
           (if none \<or> bad then ret () m1 else guarded_prune sn lib start m1))))"

definition walk_root :: "path \<Rightarrow> path" where
  "walk_root p = trim_suffix p ''/'' @ ''/''"

definition scan_library :: "scanner \<Rightarrow> wnode option \<Rightarrow> library \<Rightarrow> (machine, scan_err, unit) op" where
  "scan_library sn tree lib m =
     (case on_world (os_stat (lb_path lib)) m of (st, m0) \<Rightarrow>
        if (case st of Some (_, nd) \<Rightarrow> in_kind nd \<noteq> Dir | None \<Rightarrow> True) then (Inl PathMissing, m0)
        else
          let start = clock m0 in
          andthen (walk (walk_root (lb_path lib)) tree) (\<lambda>acc.
          let videos = sort_key fst (wa_videos acc) in
          andthen (scan_videos sn lib start acc videos [] (wa_err acc)) (\<lambda>(pending, bad).
          finish_scan sn lib start videos pending bad)) m0)"

text \<open>\<^verbatim>\<open>ScanFile\<close>: one file after a job, its directory read again: the entries that are no directories.\<close>

definition scan_file :: "scanner \<Rightarrow> string list option \<Rightarrow> library \<Rightarrow> path \<Rightarrow> (machine, scan_err, unit) op" where
  "scan_file sn entries lib p m =
     (case on_world (os_stat p) m of
        (None, m1) \<Rightarrow> (Inl NoFile, m1)
      | (Some (_, nd), m1) \<Rightarrow>
          (case entries of
             None \<Rightarrow> (Inl NoFile, m1)
           | Some siblings \<Rightarrow>
               (case scan_one sn lib p nd siblings None (clock m1) m1 of
                  ((_, _, None), m2) \<Rightarrow> (Inr (), m2)
                | ((_, _, Some e), m2) \<Rightarrow> (Inl e, m2))))"

end
