(* ===== verification/ScanProps.thy ===== *)
theory ScanProps
  imports Scanner StoreProps Demo
begin

text \<open>
  A scan and the records of a library: what was walked keeps its record, and one unreadable entry is
  enough that nothing inside the library is pruned.
\<close>

subsection \<open>Records that stay\<close>

definition seen_row :: "int \<Rightarrow> path \<Rightarrow> int \<Rightarrow> int \<Rightarrow> db \<Rightarrow> bool" where
  "seen_row lib p i t d \<longleftrightarrow> (\<exists>f \<in> set (db_files d). mf_path f = p \<and> mf_id f = i \<and> mf_library f = lib \<and> t \<le> mf_scanned f)"

definition sees_row :: "int \<Rightarrow> db \<Rightarrow> db \<Rightarrow> bool" where
  "sees_row lib d d' \<longleftrightarrow> (\<forall>p i t. seen_row lib p i t d \<longrightarrow> seen_row lib p i t d')"

interpretation sr: db_frame "sees_row lib" for lib
  by unfold_locales (auto simp: sees_row_def)

interpretation srf: frame "on_db (sees_row lib)" for lib
  by (rule sr.is_frame)

lemma sees_row_update:
  assumes "\<And>r. P r \<Longrightarrow> mf_path (g r) = mf_path r \<and> mf_id (g r) = mf_id r \<and> mf_scanned r \<le> mf_scanned (g r) \<and>
    (mf_library r = lib \<longrightarrow> mf_library (g r) = lib)"
  shows "sees_row lib d (d\<lparr>db_files := update_where P g (db_files d)\<rparr>)"
  unfolding sees_row_def seen_row_def
proof (intro allI impI, elim bexE conjE)
  fix p i t f
  assume f: "f \<in> set (db_files d)" "mf_path f = p" "mf_id f = i" "mf_library f = lib" "t \<le> mf_scanned f"
  then show "\<exists>f \<in> set (db_files (d\<lparr>db_files := update_where P g (db_files d)\<rparr>)).
      mf_path f = p \<and> mf_id f = i \<and> mf_library f = lib \<and> t \<le> mf_scanned f"
    using assms [of f] by (intro bexI [of _ "if P f then g f else f"]) auto
qed

lemma sees_row_files: "set (db_files d) \<subseteq> set (db_files d') \<Longrightarrow> sees_row lib d d'"
  unfolding sees_row_def seen_row_def by blast

lemma sql_row: "(\<And>d a d'. f d = Some (a, d') \<Longrightarrow> sees_row lib d d') \<Longrightarrow> keeps (on_db (sees_row lib)) (sql f)"
  by (rule sr.sql_keeps)

lemma row_touch: "keeps (on_db (sees_row lib)) (touch_file i n sm ts)" "keeps (on_db (sees_row lib)) (touch_batch ids ts)"
  unfolding touch_file_def touch_batch_def by (rule sql_row, auto intro!: sees_row_update)+

lemma row_touch_bulk: "keeps (on_db (sees_row lib)) (touch_files_bulk ids ts)"
proof -
  have "keeps (on_db (sees_row lib)) (touch_batches ids ts)" for ids ts
  proof (induction ids ts rule: touch_batches.induct)
    case (1 ids ts)
    then show ?case
      by (subst touch_batches.simps) (auto intro!: srf.keeps_ret srf.keeps_andthen row_touch)
  qed
  then show ?thesis unfolding touch_files_bulk_def by (auto intro!: srf.keeps_ret sr.transaction_keeps)
qed

lemma row_upsert: "mf_library f = lib \<Longrightarrow> keeps (on_db (sees_row lib)) (upsert_media_file f)"
  by (rule keeps_at, rule exI, rule conjI, rule upsert_media_file_def [unfolded Let_def], rule sql_row)
    (auto intro: sees_row_files intro!: sees_row_update simp: insert_row_def split: option.splits if_splits simp del: set_update_where)

lemma row_replace: "keeps (on_db (sees_row lib)) (replace_sidecars fid scs)"
proof -
  have one: "keeps (on_db (sees_row lib)) (upsert_sidecar fid sc)" for sc
    unfolding upsert_sidecar_def by (rule sql_row) (auto intro: sees_row_files split: if_splits)
  have "keeps (on_db (sees_row lib)) (upsert_sidecars fid scs)" for scs
    by (induction scs) (auto intro!: srf.keeps_ret srf.keeps_andthen one)
  then show ?thesis unfolding replace_sidecars_def
    by (intro sr.transaction_keeps srf.keeps_andthen sql_row) (auto simp: drop_sidecars_def intro: sees_row_files)
qed

subsection \<open>Machines\<close>

text \<open>Everything a scan does before it prunes keeps records and integrity.\<close>

definition scan_keeps :: "int \<Rightarrow> store \<Rightarrow> store \<Rightarrow> bool" where
  "scan_keeps lib s s' \<longleftrightarrow> on_db (sees_row lib) s s' \<and> db_inv s s'"

interpretation sk: frame "scan_keeps lib" for lib
  by unfold_locales (auto simp: scan_keeps_def intro: srf.frame_refl srf.frame_trans ivf.frame_refl ivf.frame_trans)

interpretation mk: frame "via_store (scan_keeps lib)" for lib
  by (rule via_frame) unfold_locales

lemma scan_keepsI: "keeps (on_db (sees_row lib)) f \<Longrightarrow> keeps db_inv f \<Longrightarrow> keeps (scan_keeps lib) f"
  by (simp add: keeps_def scan_keeps_def)

lemma scan_keepsD: "scan_keeps lib s s' \<Longrightarrow> seen_row lib p i t (s_db s) \<Longrightarrow> seen_row lib p i t (s_db s')"
  by (auto simp: scan_keeps_def on_db_def sees_row_def)

lemma scan_keeps_ok: "scan_keeps lib s s' \<Longrightarrow> db_ok (s_db s) \<Longrightarrow> db_ok (s_db s')"
  by (auto simp: scan_keeps_def on_db_def inv_db_def)

lemma keeps_query: "keeps (scan_keeps lib) (query f)"
  by (intro scan_keepsI sr.query_keeps inv_query)

lemma keeps_store_query: "keeps (via_store (scan_keeps lib)) (on_store err (query f))"
  by (intro on_store_keeps keeps_query)

lemma keeps_world: "keeps (via_store (scan_keeps lib)) (on_world f)"
  by (rule on_world_store) unfold_locales

lemma keeps_ctx: "keeps (via_store (scan_keeps lib)) ctx_done"
  by (rule ctx_done_store) unfold_locales

lemma sidecar_rows_store: "sidecar_rows dir sizes ss m = (rows, m') \<Longrightarrow> m_store m' = m_store m"
  by (induction ss arbitrary: m rows)
    (auto simp: sidecar_size_def split: prod.splits option.splits dest!: on_world_same)

lemma keeps_refresh: "keeps (via_store (scan_keeps lib)) (refresh_known i n sm scs stamp)"
  unfolding refresh_known_def
  by (intro mk.keeps_andthen on_store_keeps scan_keepsI row_touch row_replace inv_touch_file inv_replace_sidecars)

lemma finish_one_keeps: "keeps R f \<Longrightarrow> finish_one i f m = (r, m') \<Longrightarrow> R m m'"
  by (auto simp: finish_one_def dest: keepsD split: prod.splits sum.splits)

lemma keeps_upsert: "mf_library f = lib \<Longrightarrow> keeps (via_store (scan_keeps lib)) (on_store e (upsert_media_file f))"
  by (intro on_store_keeps scan_keepsI row_upsert inv_upsert_media_file)

lemma keeps_replace: "keeps (via_store (scan_keeps lib)) (on_store e (replace_sidecars n scs))"
  by (intro on_store_keeps scan_keepsI row_replace inv_replace_sidecars)

lemma file_record_library [simp]: "mf_library (file_record sn lib p nd res js sm i st) = lb_id lib"
  "mf_path (file_record sn lib p nd res js sm i st) = p" "mf_scanned (file_record sn lib p nd res js sm i st) = st"
  by (simp_all add: file_record_def Let_def)

lemma probe_store_keeps:
  "probe_and_store sn lib p nd sm scs i st m = (r, m') \<Longrightarrow> via_store (scan_keeps (lb_id lib)) m m'"
  unfolding probe_and_store_def
  by (auto split: sum.splits option.splits prod.splits simp: mk.frame_refl
      dest!: keepsD [OF keeps_upsert [OF file_record_library(1)]] finish_one_keeps [OF keeps_replace]
      intro: mk.frame_trans)

lemma same_store_keeps: "m_store m' = m_store m \<Longrightarrow> via_store (scan_keeps lib) m m'"
  by (simp add: via_store_def sk.frame_refl)

text \<open>The steps of \<^verbatim>\<open>scanOne\<close> up to the lookup leave the database alone.\<close>

lemma scan_oneE:
  assumes "scan_one sn lib p info sib sizes stamp m = (r, m')"
  obtains nd summary scs m1 where "m_store m1 = m_store m"
    "(case on_store LookupFailed (get_file_by_path_meta p) m1 of
        (Inl e, m3) \<Rightarrow> ((False, 0, Some e), m3)
      | (Inr fm, m3) \<Rightarrow>
          if fm_id fm \<noteq> 0 \<and> fm_probed fm \<and> fm_size fm = in_size nd \<and> fm_mtime fm = in_mtime nd
          then
            if fm_nlink fm = in_nlink nd \<and> fm_sidecars fm = summary then ((True, fm_id fm, None), m3)
            else finish_one (fm_id fm) (refresh_known (fm_id fm) (in_nlink nd) summary scs stamp) m3
          else probe_and_store sn lib p nd summary scs (fm_id fm) stamp m3) = (r, m')"
proof -
  obtain st m1 where st: "on_world (os_stat p) m = (st, m1)" by fastforce
  let ?own = "own_sidecars (trim_suffix (base_name p) (file_ext p)) sib"
  obtain scs m2 where scs: "sidecar_rows (dir_name p) sizes ?own m1 = (scs, m2)" by fastforce
  have "m_store m2 = m_store m" using sidecar_rows_store [OF scs] on_world_same [OF st] by simp
  then show thesis
    by (rule that) (use assms st scs in \<open>simp add: scan_one_def Let_def\<close>)
qed

lemma scan_one_keeps:
  assumes "scan_one sn lib p info sib sizes stamp m = (r, m')"
  shows "via_store (scan_keeps (lb_id lib)) m m'"
proof -
  from assms obtain nd summary scs m1 where s: "m_store m1 = m_store m"
    and c: "(case on_store LookupFailed (get_file_by_path_meta p) m1 of
        (Inl e, m3) \<Rightarrow> ((False, 0, Some e), m3)
      | (Inr fm, m3) \<Rightarrow>
          if fm_id fm \<noteq> 0 \<and> fm_probed fm \<and> fm_size fm = in_size nd \<and> fm_mtime fm = in_mtime nd
          then
            if fm_nlink fm = in_nlink nd \<and> fm_sidecars fm = summary then ((True, fm_id fm, None), m3)
            else finish_one (fm_id fm) (refresh_known (fm_id fm) (in_nlink nd) summary scs stamp) m3
          else probe_and_store sn lib p nd summary scs (fm_id fm) stamp m3) = (r, m')"
    by (rule scan_oneE)
  obtain x m3 where q: "on_store LookupFailed (get_file_by_path_meta p) m1 = (x, m3)" by fastforce
  have "via_store (scan_keeps (lb_id lib)) m1 m3"
    using q unfolding get_file_by_path_meta_def by (rule keepsD [OF keeps_store_query])
  moreover have "via_store (scan_keeps (lb_id lib)) m3 m'"
    using c q by (auto split: sum.splits if_splits simp: mk.frame_refl
        dest: finish_one_keeps [OF keeps_refresh] probe_store_keeps)
  ultimately show ?thesis using same_store_keeps [OF s] by (blast intro: mk.frame_trans)
qed

subsection \<open>The loop over the videos\<close>

lemma stamped_row:
  assumes "seen_row lib p i t d" "db_files d' = update_where P g (db_files d)" "\<And>r. mf_id r = i \<Longrightarrow> P r"
    "\<And>r. mf_path (g r) = mf_path r \<and> mf_id (g r) = mf_id r \<and> mf_library (g r) = mf_library r \<and> ts \<le> mf_scanned (g r)"
  shows "seen_row lib p i ts d'"
proof -
  obtain f where f: "f \<in> set (db_files d)" "mf_path f = p" "mf_id f = i" "mf_library f = lib"
    using assms(1) by (auto simp: seen_row_def)
  then have "g f \<in> set (db_files d')" using assms(2,3) by (force simp: update_where_def)
  then show ?thesis using f assms(4) [of f] unfolding seen_row_def by blast
qed

lemma touch_row_seen:
  assumes "touch_file i n sm ts s = (Inr u, s')" "seen_row lib p i t (s_db s)"
  shows "seen_row lib p i ts (s_db s')"
proof -
  let ?P = "\<lambda>r. mf_id r = i" and ?g = "\<lambda>r. r\<lparr>mf_scanned := max (mf_scanned r) ts, mf_nlink := n, mf_sidecar_summary := sm\<rparr>"
  have "s_db s' = s_db s\<lparr>db_files := update_where ?P ?g (db_files (s_db s))\<rparr>"
    using sql_Inr [OF assms(1) [unfolded touch_file_def]] by simp
  then have "db_files (s_db s') = update_where ?P ?g (db_files (s_db s))" by simp
  with assms(2) show ?thesis by (rule stamped_row) simp_all
qed

lemma touched_row: "i \<in> set ids \<Longrightarrow> seen_row lib p i t d \<Longrightarrow> seen_row lib p i ts (touched ids ts d)"
  unfolding touched_def
  by (erule stamped_row [where P = "\<lambda>r. mf_id r \<in> set ids" and g = "\<lambda>r. r\<lparr>mf_scanned := max (mf_scanned r) ts\<rparr>"])
    simp_all

lemma bulk_row:
  assumes "touch_files_bulk ids ts s = (Inr u, s')" "i \<in> set ids" "seen_row lib p i t (s_db s)"
  shows "seen_row lib p i ts (s_db s')"
proof -
  have "transaction (touch_batches ids ts) s = (Inr u, s')"
    using assms(1,2) unfolding touch_files_bulk_def by (cases ids) simp_all
  then obtain s1 s2 where "s_db s1 = s_db s" "touch_batches ids ts s1 = (Inr u, s2)" "s_db s' = s_db s2"
    by (rule transaction_InrE)
  with assms(2,3) show ?thesis by (simp add: touch_batches_Inr touched_row)
qed

lemma path_row:
  assumes "db_ok d" "seen_row lib p i t d"
  shows "\<exists>f. file_by_path p d = Some f \<and> f \<in> set (db_files d) \<and> mf_path f = p \<and> mf_id f = i" "0 < i"
proof -
  obtain f where f: "f \<in> set (db_files d)" "mf_path f = p" "mf_id f = i" using assms(2) by (auto simp: seen_row_def)
  then obtain g where g: "file_by_path p d = Some g"
    unfolding file_by_path_def by (cases "List.find (\<lambda>f. mf_path f = p) (db_files d)") (auto simp: find_None_iff)
  then have "g \<in> set (db_files d)" "mf_path g = p" by (auto simp: file_by_path_def find_Some_iff)
  then have "g = f" using db_okD(6) [OF assms(1)] f by (auto simp: distinct_map dest: inj_onD)
  with f g show "\<exists>f. file_by_path p d = Some f \<and> f \<in> set (db_files d) \<and> mf_path f = p \<and> mf_id f = i" by blast
  show "0 < i" using db_okD(2) [OF assms(1)] f by (auto simp: keys_ok_def)
qed

lemma upsert_row:
  assumes "upsert_media_file g s = (Inr n, s')" "db_ok (s_db s)" "seen_row lib (mf_path g) i t (s_db s)"
    "mf_library g = lib" "mf_scanned g \<noteq> 0"
  shows "n = i \<and> seen_row lib (mf_path g) i (mf_scanned g) (s_db s')"
proof -
  let ?row = "g\<lparr>mf_scanned := mf_scanned g, mf_sidecars := []\<rparr>"
  let ?g = "\<lambda>r. ?row\<lparr>mf_id := mf_id r, mf_scanned := max (mf_scanned r) (mf_scanned g)\<rparr>"
  obtain old where old: "file_by_path (mf_path g) (s_db s) = Some old" "old \<in> set (db_files (s_db s))"
    "mf_path old = mf_path g" "mf_id old = i"
    using path_row(1) [OF assms(2,3)] by blast
  note r = sql_Inr [OF assms(1) [unfolded upsert_media_file_def Let_def], unfolded if_not_P [OF assms(5)]]
  have "s_db s' = s_db s\<lparr>db_files := update_where (\<lambda>r. mf_path r = mf_path g) ?g (db_files (s_db s))\<rparr>" "n = i"
    using r old(4) unfolding old(1) by (simp_all split: if_splits)
  then have "n = i" "db_files (s_db s') = update_where (\<lambda>r. mf_path r = mf_path g) ?g (db_files (s_db s))" by simp_all
  with old assms(4) show ?thesis unfolding seen_row_def by (intro conjI bexI [of _ "?g old"]) auto
qed

text \<open>What one video comes to: noted for the final touch, looked up in vain, or written.\<close>

definition settled :: "library \<Rightarrow> path \<Rightarrow> int \<Rightarrow> int \<Rightarrow> one_result \<Rightarrow> machine \<Rightarrow> bool" where
  "settled lib p j start res m \<longleftrightarrow>
     (case res of (unchanged, i, err) \<Rightarrow>
        (i = j \<and> (err \<noteq> None \<or> unchanged)) \<or> (i = 0 \<and> is_lookup err) \<or> seen_row (lb_id lib) p j start (s_db (m_store m)))"

lemma refresh_settled:
  assumes "finish_one j (refresh_known j n sm scs start) m = (res, m')" "seen_row (lb_id lib) p j t (s_db (m_store m))"
  shows "settled lib p j start res m'"
proof (cases "refresh_known j n sm scs start m")
  case (Pair x m1)
  show ?thesis
  proof (cases x)
    case (Inl e)
    with Pair assms(1) show ?thesis by (auto simp: finish_one_def settled_def)
  next
    case (Inr u)
    with Pair obtain v m2 where m2: "on_store StoreFailed (touch_file j n sm start) m = (Inr v, m2)"
      "on_store StoreFailed (replace_sidecars j scs) m2 = (Inr u, m1)"
      by (auto simp: refresh_known_def elim!: andthen_InrE)
    then have "seen_row (lb_id lib) p j start (s_db (m_store m2))"
      using assms(2) by (auto simp: on_store_Inr intro: touch_row_seen)
    moreover have "via_store (scan_keeps (lb_id lib)) m2 m1" by (rule keepsD [OF keeps_replace m2(2)])
    ultimately show ?thesis
      using Pair Inr assms(1) by (auto simp: finish_one_def settled_def via_store_def intro: scan_keepsD)
  qed
qed

lemma probe_settled:
  assumes "probe_and_store sn lib p nd sm scs j start m = (res, m')" "0 < start"
    "db_ok (s_db (m_store m))" "seen_row (lb_id lib) p j t (s_db (m_store m))"
  shows "settled lib p j start res m'"
proof -
  have stop: "settled lib p j start (False, j, Some e) m'" for e
    by (simp add: settled_def)
  show ?thesis
  proof (cases "probe (sn_prober sn) (m_world m) p")
    case (Inl e)
    with assms(1) show ?thesis by (auto simp: probe_and_store_def simp: stop)
  next
    case (Inr r)
    show ?thesis
    proof (cases "sn_marshal sn r")
      case None
      with Inr assms(1) show ?thesis by (auto simp: probe_and_store_def simp: stop)
    next
      case (Some js)
      let ?f = "file_record sn lib p nd r js sm j start"
      obtain x m1 where u: "on_store StoreFailed (upsert_media_file ?f) m = (x, m1)" by fastforce
      show ?thesis
      proof (cases x)
        case x: (Inl e)
        with Inr Some u assms(1) show ?thesis by (auto simp: probe_and_store_def simp: stop)
      next
        case x: (Inr n)
        then have n: "n = j \<and> seen_row (lb_id lib) p j start (s_db (m_store m1))"
          using u upsert_row [of ?f "m_store m" n _ "lb_id lib" j t] assms(2,3,4) by (auto simp: on_store_Inr)
        obtain v m2 where v: "on_store StoreFailed (replace_sidecars n scs) m1 = (v, m2)" by fastforce
        from v have "via_store (scan_keeps (lb_id lib)) m1 m2" by (rule keepsD [OF keeps_replace])
        with n have "seen_row (lb_id lib) p j start (s_db (m_store m2))" by (auto simp: via_store_def intro: scan_keepsD)
        with Inr Some u x v assms(1) show ?thesis
          by (auto simp: probe_and_store_def finish_one_def settled_def split: sum.splits)
      qed
    qed
  qed
qed

lemma scan_one_settled:
  assumes "scan_one sn lib p info sib sizes start m = (res, m')" "0 < start"
    "db_ok (s_db (m_store m))" "seen_row (lb_id lib) p j t (s_db (m_store m))"
  shows "settled lib p j start res m'"
proof -
  from assms(1) obtain nd summary scs m1 where s: "m_store m1 = m_store m"
    and c: "(case on_store LookupFailed (get_file_by_path_meta p) m1 of
        (Inl e, m3) \<Rightarrow> ((False, 0, Some e), m3)
      | (Inr fm, m3) \<Rightarrow>
          if fm_id fm \<noteq> 0 \<and> fm_probed fm \<and> fm_size fm = in_size nd \<and> fm_mtime fm = in_mtime nd
          then
            if fm_nlink fm = in_nlink nd \<and> fm_sidecars fm = summary then ((True, fm_id fm, None), m3)
            else finish_one (fm_id fm) (refresh_known (fm_id fm) (in_nlink nd) summary scs start) m3
          else probe_and_store sn lib p nd summary scs (fm_id fm) start m3) = (res, m')"
    by (rule scan_oneE)
  obtain f where f: "file_by_path p (s_db (m_store m1)) = Some f" "mf_id f = j"
    using path_row(1) [OF assms(3,4)] s by auto
  obtain x m3 where q: "on_store LookupFailed (get_file_by_path_meta p) m1 = (x, m3)" by fastforce
  then have db: "s_db (m_store m3) = s_db (m_store m)"
    using s by (auto simp: on_store_def get_file_by_path_meta_def split: prod.splits sum.splits dest: query_db)
  show ?thesis
  proof (cases x)
    case (Inl e)
    then have "is_lookup (Some e)"
      using q by (auto simp: on_store_def is_lookup_def split: prod.splits sum.splits)
    with Inl q c show ?thesis by (auto simp: settled_def)
  next
    case (Inr fm)
    then have fm: "fm_id fm = j"
      using q f by (auto simp: on_store_Inr get_file_by_path_meta_def dest!: query_Inr)
    note db3 = assms(3,4) [folded db]
    show ?thesis
      using c q Inr fm refresh_settled [OF _ db3(2)] probe_settled [OF _ assms(2) db3]
      by (auto simp: settled_def split: if_splits)
  qed
qed

lemma scan_videos_keeps:
  "scan_videos sn lib start acc vs pending bad m = (Inr (pending', bad'), m') \<Longrightarrow>
   via_store (scan_keeps (lb_id lib)) m m' \<and> set pending \<subseteq> set pending' \<and> (bad \<longrightarrow> bad')"
proof (induction vs arbitrary: pending bad m)
  case Nil
  then show ?case by (simp add: mk.frame_refl)
next
  case (Cons v vs)
  obtain p nd where v: "v = (p, nd)" by (cases v)
  obtain b m1 where c: "ctx_done m = (b, m1)" by fastforce
  then have b: "\<not> b" using Cons.prems v by (auto split: bool.splits)
  obtain un i err m2 where o: "scan_one sn lib p nd (names_in (dir_name p) acc) (Some (wa_sizes acc)) start m1 = ((un, i, err), m2)"
    by (metis prod_cases3 surj_pair)
  let ?p = "if (err \<noteq> None \<and> i \<noteq> 0) \<or> (err = None \<and> un) then pending @ [i] else pending"
  from Cons.prems v c b o have
    "scan_videos sn lib start acc vs ?p (bad \<or> (err \<noteq> None \<and> i = 0 \<and> is_lookup err)) m2 = (Inr (pending', bad'), m')"
    by (simp add: Let_def)
  then have "via_store (scan_keeps (lb_id lib)) m2 m'" "set ?p \<subseteq> set pending'" "bad \<longrightarrow> bad'"
    by (auto dest!: Cons.IH)
  moreover have "via_store (scan_keeps (lb_id lib)) m m1" by (rule keepsD [OF keeps_ctx c])
  ultimately show ?case
    using scan_one_keeps [OF o] by (auto intro: mk.frame_trans split: if_splits)
qed

lemma scan_videos_settled:
  "scan_videos sn lib start acc vs pending bad m = (Inr (pending', bad'), m') \<Longrightarrow> 0 < start \<Longrightarrow>
   db_ok (s_db (m_store m)) \<Longrightarrow> p \<in> fst ` set vs \<Longrightarrow> seen_row (lb_id lib) p j t (s_db (m_store m)) \<Longrightarrow>
   bad' \<or> j \<in> set pending' \<or> seen_row (lb_id lib) p j start (s_db (m_store m'))"
proof (induction vs arbitrary: pending bad m)
  case Nil
  then show ?case by simp
next
  case (Cons v vs)
  obtain q nd where v: "v = (q, nd)" by (cases v)
  obtain b m1 where c: "ctx_done m = (b, m1)" by fastforce
  then have b: "\<not> b" using Cons.prems v by (auto split: bool.splits)
  obtain un i err m2 where o: "scan_one sn lib q nd (names_in (dir_name q) acc) (Some (wa_sizes acc)) start m1 = ((un, i, err), m2)"
    by (metis prod_cases3 surj_pair)
  let ?p = "if (err \<noteq> None \<and> i \<noteq> 0) \<or> (err = None \<and> un) then pending @ [i] else pending"
  let ?b = "bad \<or> (err \<noteq> None \<and> i = 0 \<and> is_lookup err)"
  from Cons.prems v c b o have rest: "scan_videos sn lib start acc vs ?p ?b m2 = (Inr (pending', bad'), m')"
    by (simp add: Let_def)
  note fin = scan_videos_keeps [OF rest]
  have k1: "via_store (scan_keeps (lb_id lib)) m m1" by (rule keepsD [OF keeps_ctx c])
  then have ok1: "db_ok (s_db (m_store m1))" and s1: "seen_row (lb_id lib) p j t (s_db (m_store m1))"
    using Cons.prems(3,5) by (auto simp: via_store_def intro: scan_keeps_ok scan_keepsD)
  note k2 = scan_one_keeps [OF o]
  show ?case
  proof (cases "p = q")
    case True
    have "settled lib p j start (un, i, err) m2"
      by (rule scan_one_settled [OF _ Cons.prems(2) ok1 s1]) (use o True in simp)
    moreover have "0 < j" by (rule path_row(2) [OF ok1 s1])
    ultimately have "?b \<or> j \<in> set ?p \<or> seen_row (lb_id lib) p j start (s_db (m_store m2))"
      by (cases err) (auto simp: settled_def is_lookup_def)
    then show ?thesis
      using fin by (auto simp: via_store_def intro: scan_keepsD)
  next
    case False
    then have "p \<in> fst ` set vs" using Cons.prems(4) v by auto
    moreover have "db_ok (s_db (m_store m2))" "seen_row (lb_id lib) p j t (s_db (m_store m2))"
      using k2 ok1 s1 by (auto simp: via_store_def intro: scan_keeps_ok scan_keepsD)
    ultimately show ?thesis using Cons.IH [OF rest Cons.prems(2)] by blast
  qed
qed

subsection \<open>The prunes\<close>

definition inside :: "path \<Rightarrow> path \<Rightarrow> bool" where
  "inside rt p \<longleftrightarrow> take (length (with_sep rt)) p = with_sep rt"

lemma outside_row:
  assumes "prune_files_outside lib rt s = (x, s')" "inside rt p" "seen_row lib p i t (s_db s)"
  shows "seen_row lib p i t (s_db s')"
  using assms(1) unfolding prune_files_outside_def
  by (elim sqlE) (use assms(2,3) in \<open>auto simp: Let_def seen_row_def inside_def drop_files_rows\<close>)

lemma prune_row:
  assumes "prune_files lib start s = (x, s')" "start \<le> t" "seen_row lib p i t (s_db s)"
  shows "seen_row lib p i t (s_db s')"
proof -
  obtain f where f: "f \<in> set (db_files (s_db s))" "mf_path f = p" "mf_id f = i" "mf_library f = lib" "t \<le> mf_scanned f"
    using assms(3) by (auto simp: seen_row_def)
  then have "f \<in> set (db_files (s_db s'))"
    using assms(1,2) unfolding prune_files_def by (elim sqlE) (auto simp: Let_def drop_files_rows)
  with f show ?thesis by (auto simp: seen_row_def)
qed

lemma bulk_keeps_row: "touch_files_bulk ids ts s = (x, s') \<Longrightarrow> seen_row lib p i t (s_db s) \<Longrightarrow> seen_row lib p i t (s_db s')"
  using keepsD [OF row_touch_bulk [of lib ids ts]] by (auto simp: on_db_def sees_row_def)

lemma ask_db: "on_store e (query f) m = (x, m') \<Longrightarrow> s_db (m_store m') = s_db (m_store m)"
  by (auto simp: on_store_def dest: query_db split: prod.splits sum.splits)

lemma count_ask: "on_store e (count_files_by_library i) m = (x, m') \<Longrightarrow> s_db (m_store m') = s_db (m_store m)"
  "on_store e (count_stale_files i start) m = (x, m') \<Longrightarrow> s_db (m_store m') = s_db (m_store m)"
  "on_store e (get_library i) m = (y, m') \<Longrightarrow> s_db (m_store m') = s_db (m_store m)"
  unfolding count_files_by_library_def count_stale_files_def get_library_def by (rule ask_db, assumption)+

lemma guarded_prune_row:
  assumes "guarded_prune sn lib start m = (x, m')" "start \<le> t" "seen_row (lb_id lib) p i t (s_db (m_store m))"
  shows "seen_row (lb_id lib) p i t (s_db (m_store m'))"
proof -
  obtain y m1 where 1: "on_store StoreFailed (count_files_by_library (lb_id lib)) m = (y, m1)" by fastforce
  obtain z m2 where 2: "on_store StoreFailed (count_stale_files (lb_id lib) start) m1 = (z, m2)" by fastforce
  have db: "s_db (m_store m1) = s_db (m_store m)" "s_db (m_store m2) = s_db (m_store m)"
    using count_ask(1) [OF 1] count_ask(2) [OF 2] by simp_all
  have "m' = m1 \<or> m' = m2 \<or> (\<exists>v. prune_files (lb_id lib) start (m_store m2) = (v, m_store m'))"
    using assms(1) 1 2
    by (auto simp: guarded_prune_def andthen_def on_store_def split: sum.splits prod.splits if_splits)
  then show ?thesis using assms(2,3) db by (auto dest: prune_row)
qed

lemma finish_scan_row:
  assumes "finish_scan sn lib start videos pending bad m = (Inr u, m')" "inside (lb_path lib) p"
    "seen_row (lb_id lib) p i t (s_db (m_store m))" "bad \<or> i \<in> set pending \<or> start \<le> t"
  shows "\<exists>t'. seen_row (lb_id lib) p i t' (s_db (m_store m'))"
proof -
  obtain cur m1 where 1: "on_store StoreFailed (get_library (lb_id lib)) m = (Inr cur, m1)"
    and r1: "(if (case cur of None \<Rightarrow> True | Some l \<Rightarrow> lb_path l \<noteq> lb_path lib) then ret ()
     else
       andthen (on_store StoreFailed (touch_files_bulk pending start)) (\<lambda>_.
       andthen (on_store StoreFailed (prune_files_outside (lb_id lib) (lb_path lib))) (\<lambda>_.
       \<lambda>m. case (if videos = [] then no_videos_but_records lib m else (False, m)) of (none, m1) \<Rightarrow>
           (if none \<or> bad then ret () m1 else guarded_prune sn lib start m1)))) m1 = (Inr u, m')"
    using assms(1) unfolding finish_scan_def by (rule andthen_InrE)
  have s1: "seen_row (lb_id lib) p i t (s_db (m_store m1))" using assms(3) count_ask(3) [OF 1] by simp
  show ?thesis
  proof (cases "case cur of None \<Rightarrow> True | Some l \<Rightarrow> lb_path l \<noteq> lb_path lib")
    case True
    with r1 s1 show ?thesis by auto
  next
    case False
    with r1 obtain v2 m2 v3 m3 where
      2: "on_store StoreFailed (touch_files_bulk pending start) m1 = (Inr v2, m2)"
      "on_store StoreFailed (prune_files_outside (lb_id lib) (lb_path lib)) m2 = (Inr v3, m3)"
      "(case (if videos = [] then no_videos_but_records lib m3 else (False, m3)) of (none, m1) \<Rightarrow>
           (if none \<or> bad then ret () m1 else guarded_prune sn lib start m1)) = (Inr u, m')"
      by (auto elim!: andthen_InrE)
    have "\<exists>t'. seen_row (lb_id lib) p i t' (s_db (m_store m2)) \<and> (bad \<or> start \<le> t')"
      using 2(1) s1 assms(4) bulk_row [of pending start "m_store m1" v2 _ i "lb_id lib" p t]
        bulk_keeps_row [of pending start "m_store m1" _ _ "lb_id lib" p i t]
      by (auto simp: on_store_Inr)
    then obtain t' where t': "seen_row (lb_id lib) p i t' (s_db (m_store m3))" "bad \<or> start \<le> t'"
      using 2(2) outside_row [OF _ assms(2)] by (auto simp: on_store_Inr) blast+
    obtain none m4 where 4: "(if videos = [] then no_videos_but_records lib m3 else (False, m3)) = (none, m4)" by fastforce
    then have "s_db (m_store m4) = s_db (m_store m3)"
      by (auto simp: no_videos_but_records_def split: if_splits prod.splits sum.splits dest!: count_ask(1))
    with t' 2(3) 4 show ?thesis by (auto split: if_splits dest: guarded_prune_row)
  qed
qed

subsection \<open>What the walk must find\<close>

text \<open>
  Read off the tree alone: the plain video files under directories that are not hidden, and whether
  one of the entries could not be read. (Links are followed by the walk, so they depend on the world.)
\<close>

definition entry_name :: "wnode \<Rightarrow> string" where
  "entry_name t = (case t of WFile n _ _ \<Rightarrow> n | WDir n _ _ \<Rightarrow> n)"

fun videos_at :: "bool \<Rightarrow> path \<Rightarrow> wnode \<Rightarrow> path list" where
  "videos_at at_root p (WFile name link info) =
     (if \<not> link \<and> \<not> prefix ''.'' name \<and> is_video name \<and> \<not> sublist ''.muxprune.tmp'' name \<and> \<not> isl info
      then [p] else [])"
| "videos_at at_root p (WDir name unreadable kids) =
     (if prefix ''.'' name \<and> \<not> at_root then []
      else concat (map (\<lambda>k. videos_at False (path_join p (entry_name k)) k) kids))"

fun unreadable_at :: "bool \<Rightarrow> wnode \<Rightarrow> bool" where
  "unreadable_at at_root (WFile name link info) \<longleftrightarrow>
     \<not> link \<and> \<not> prefix ''.'' name \<and> is_video name \<and> info = Inl OtherErr"
| "unreadable_at at_root (WDir name unreadable kids) \<longleftrightarrow>
     (at_root \<or> \<not> prefix ''.'' name) \<and> (unreadable \<or> list_ex (unreadable_at False) kids)"

definition walk_extends :: "walk_acc \<Rightarrow> walk_acc \<Rightarrow> bool" where
  "walk_extends a b \<longleftrightarrow> set (wa_videos a) \<subseteq> set (wa_videos b) \<and> (wa_err a \<longrightarrow> wa_err b)"

lemma visit_extends:
  assumes "visit_file p name link info acc m = (acc', m')"
  shows "walk_extends acc acc' \<and> m_store m' = m_store m \<and>
    set (videos_at r p (WFile name link info)) \<subseteq> fst ` set (wa_videos acc') \<and>
    (unreadable_at r (WFile name link info) \<longrightarrow> wa_err acc')"
proof -
  have "m_store (remove_stale_temp p name info m) = m_store m"
    by (cases "on_world (os_remove p) m") (auto simp: remove_stale_temp_def dest: on_world_same split: sum.splits)
  then show ?thesis
    using assms
    by (auto simp: visit_file_def walk_extends_def Let_def dest: on_world_same split: if_splits sum.splits prod.splits)
qed

lemma ctx_done_same: "ctx_done m = (b, m') \<Longrightarrow> m_store m' = m_store m"
  by (auto simp: ctx_done_def split: list.splits bool.splits)

lemma walk_extends_trans: "walk_extends a b \<Longrightarrow> walk_extends b c \<Longrightarrow> walk_extends a c"
  by (auto simp: walk_extends_def)

lemma walk_sound:
  "walk_node r p t acc m = (Inr acc', m') \<Longrightarrow>
     walk_extends acc acc' \<and> m_store m' = m_store m \<and> set (videos_at r p t) \<subseteq> fst ` set (wa_videos acc') \<and>
     (unreadable_at r t \<longrightarrow> wa_err acc')"
  "walk_list p ks acc m = (Inr acc', m') \<Longrightarrow>
     walk_extends acc acc' \<and> m_store m' = m_store m \<and>
     (\<forall>k \<in> set ks. set (videos_at False (path_join p (entry_name k)) k) \<subseteq> fst ` set (wa_videos acc')) \<and>
     (list_ex (unreadable_at False) ks \<longrightarrow> wa_err acc')"
proof (induction r p t acc m and p ks acc m arbitrary: acc' m' and acc' m' rule: walk_node_walk_list.induct)
  case (1 r p name link info acc m)
  obtain b m1 where c: "ctx_done m = (b, m1)" by fastforce
  obtain a m2 where v: "visit_file p name link info acc m1 = (a, m2)" by fastforce
  from 1 c v have "a = acc'" "m2 = m'" by (auto split: bool.splits)
  with visit_extends [OF v, of r] ctx_done_same [OF c] show ?case by simp
next
  case (2 r p name unreadable kids acc m)
  obtain b m1 where c: "ctx_done m = (b, m1)" by fastforce
  have b: "b = False" using 2(2) c by (cases b) auto
  show ?case
  proof (cases "prefix ''.'' name \<and> \<not> r")
    case True
    with 2(2) c b have "acc = acc' \<and> m1 = m'" by simp
    with ctx_done_same [OF c] True show ?thesis by (simp add: walk_extends_def del: unreadable_at.simps(1))
  next
    case False
    let ?acc = "if unreadable then acc\<lparr>wa_err := True\<rparr> else acc"
    have "walk_list p kids ?acc m1 = (Inr acc', m')" using 2(2) c b False by simp
    from 2(1) [OF c [symmetric] _ False this] b
    have "walk_extends ?acc acc'" "m_store m' = m_store m1"
      "\<forall>k \<in> set kids. set (videos_at False (path_join p (entry_name k)) k) \<subseteq> fst ` set (wa_videos acc')"
      "list_ex (unreadable_at False) kids \<longrightarrow> wa_err acc'" by simp_all
    with False ctx_done_same [OF c] show ?thesis by (auto simp: walk_extends_def split: if_splits)
  qed
next
  case (3 p acc m)
  then show ?case by (simp add: walk_extends_def)
next
  case (4 p k ks acc m)
  obtain a1 m1 where w: "walk_node False (path_join p (entry_name k)) k acc m = (Inr a1, m1)"
    "walk_list p ks a1 m1 = (Inr acc', m')"
    using 4(3) unfolding walk_list.simps entry_name_def
    by (cases "walk_node False (path_join p (case k of WFile n _ _ \<Rightarrow> n | WDir n _ _ \<Rightarrow> n)) k acc m")
      (auto split: sum.splits)
  from 4(1) [OF w(1) [unfolded entry_name_def]] have 1: "walk_extends acc a1" "m_store m1 = m_store m"
    "set (videos_at False (path_join p (entry_name k)) k) \<subseteq> fst ` set (wa_videos a1)"
    "unreadable_at False k \<longrightarrow> wa_err a1" by (simp_all add: entry_name_def)
  from 4(2) [OF w(1) [unfolded entry_name_def, symmetric] refl w(2)]
  have 2: "walk_extends a1 acc'" "m_store m' = m_store m1"
    "\<forall>k \<in> set ks. set (videos_at False (path_join p (entry_name k)) k) \<subseteq> fst ` set (wa_videos acc')"
    "list_ex (unreadable_at False) ks \<longrightarrow> wa_err acc'" by simp_all
  have "fst ` set (wa_videos a1) \<subseteq> fst ` set (wa_videos acc')" using 2(1) by (auto simp: walk_extends_def)
  with 1 2 show ?case by (auto simp: walk_extends_def)
qed

lemma os_stat_now: "on_world (os_stat p) m = (st, m') \<Longrightarrow> clock m' = clock m"
  by (auto simp: on_world_def os_stat_def fault_def clock_def split: prod.splits list.splits)

text \<open>A scan that returns: its walk, its loop, its end.\<close>

lemma scan_library_parts:
  assumes "scan_library sn tree lib m = (Inr u, m')" "db_ok (s_db (m_store m))" "0 < clock m"
    "f \<in> set (db_files (s_db (m_store m)))" "mf_library f = lb_id lib" "inside (lb_path lib) (mf_path f)"
  shows "\<exists>acc m0 m1. walk (walk_root (lb_path lib)) tree m0 = (Inr acc, m1) \<and>
    (wa_err acc \<or> mf_path f \<in> fst ` set (wa_videos acc) \<longrightarrow>
      (\<exists>g \<in> set (db_files (s_db (m_store m'))). mf_id g = mf_id f \<and> mf_path g = mf_path f \<and> mf_library g = mf_library f))"
proof -
  let ?p = "mf_path f" and ?i = "mf_id f"
  obtain st m0 where st: "on_world (os_stat (lb_path lib)) m = (st, m0)" by fastforce
  let ?start = "clock m0"
  have start: "0 < ?start" and store0: "m_store m0 = m_store m"
    using os_stat_now [OF st] assms(3) on_world_same [OF st] by simp_all
  have "andthen (walk (walk_root (lb_path lib)) tree) (\<lambda>acc.
          andthen (scan_videos sn lib ?start acc (sort_key fst (wa_videos acc)) [] (wa_err acc)) (\<lambda>(pending, bad).
          finish_scan sn lib ?start (sort_key fst (wa_videos acc)) pending bad)) m0 = (Inr u, m')"
    using assms(1) st by (auto simp: scan_library_def Let_def split: if_splits)
  then obtain acc m1 pending bad m2 where w: "walk (walk_root (lb_path lib)) tree m0 = (Inr acc, m1)"
    and v: "scan_videos sn lib ?start acc (sort_key fst (wa_videos acc)) [] (wa_err acc) m1 = (Inr (pending, bad), m2)"
    and e: "finish_scan sn lib ?start (sort_key fst (wa_videos acc)) pending bad m2 = (Inr u, m')"
    by (auto elim!: andthen_InrE)
  have store1: "m_store m1 = m_store m0"
    using w walk_sound(1) by (auto simp: walk_def Let_def split: option.splits)
  have row: "seen_row (lb_id lib) ?p ?i (mf_scanned f) (s_db (m_store m1))" and ok: "db_ok (s_db (m_store m1))"
    using assms(2,4,5) store0 store1 by (auto simp: seen_row_def)
  note k = scan_videos_keeps [OF v]
  from k row have row2: "seen_row (lb_id lib) ?p ?i (mf_scanned f) (s_db (m_store m2))"
    by (auto simp: via_store_def intro: scan_keepsD)
  show ?thesis
  proof (intro exI conjI impI, rule w)
    assume "wa_err acc \<or> ?p \<in> fst ` set (wa_videos acc)"
    then have "bad \<or> ?i \<in> set pending \<or> seen_row (lb_id lib) ?p ?i ?start (s_db (m_store m2))"
      using k scan_videos_settled [OF v start ok _ row] by auto
    then have "\<exists>t'. seen_row (lb_id lib) ?p ?i t' (s_db (m_store m'))"
      using finish_scan_row [OF e assms(6)] row2 by (metis order_refl)
    then show "\<exists>g \<in> set (db_files (s_db (m_store m'))). mf_id g = ?i \<and> mf_path g = ?p \<and> mf_library g = mf_library f"
      using assms(5) by (auto simp: seen_row_def)
  qed
qed

subsection \<open>A library to scan\<close>

definition demo_scanner :: scanner where
  "demo_scanner = \<lparr>sn_prober = demo_prober False, sn_marshal = (\<lambda>_. Some ''{}''), sn_ratio = 0\<rparr>"

definition demo_machine :: "bool list \<Rightarrow> machine" where
  "demo_machine faults = \<lparr>m_world = demo_world faults, m_store = demo_store, m_ctx = []\<rparr>"

definition demo_node :: inode where
  "demo_node = \<lparr>in_kind = RegularFile, in_size = 100, in_mtime = 5, in_nlink = 2, in_mode = 420, in_uid = 1, in_gid = 1,
     in_data = ''''\<rparr>"

definition demo_tree :: "wnode list \<Rightarrow> wnode" where
  "demo_tree rest = WDir ''m'' False (WFile ''a.mkv'' False (Inr demo_node) # rest)"

abbreviation demo_scanned_lib :: library where
  "demo_scanned_lib \<equiv> demo_lib\<lparr>lb_id := 1\<rparr>"

text \<open>After the root has been found; the file system is only asked where \<^verbatim>\<open>Stat\<close> fails.\<close>

definition demo_rest :: "wnode \<Rightarrow> (machine, scan_err, unit) op" where
  "demo_rest tree =
     andthen (walk (walk_root ''/m'') (Some tree)) (\<lambda>acc.
     andthen (scan_videos demo_scanner demo_scanned_lib 50 acc (sort_key fst (wa_videos acc)) [] (wa_err acc)) (\<lambda>(pending, bad).
     finish_scan demo_scanner demo_scanned_lib 50 (sort_key fst (wa_videos acc)) pending bad))"

lemma demo_scan_rest:
  "scan_library demo_scanner (Some tree) demo_scanned_lib (demo_machine [False, True]) = demo_rest tree (demo_machine [True])"
proof -
  have "max_links = Suc 39" by (simp add: max_links_def)
  then have "follow max_links demo_fs ''/m'' = Some (0, demo_inode 2 Dir '''')"
    unfolding \<open>max_links = Suc 39\<close> follow.simps by (simp add: lookup_def demo_fs_def demo_inode_def)
  moreover have "abs_path c ''/m'' = ''/m''" for c unfolding abs_path_def by code_simp
  ultimately have root: "follow max_links demo_fs (canon w ''/m'') = Some (0, demo_inode 2 Dir '''')" for w
    by (simp add: canon_def)
  have "on_world (os_stat ''/m'') (demo_machine [False, True]) = (Some (0, demo_inode 2 Dir ''''), demo_machine [True])"
    by (simp add: on_world_def demo_machine_def os_stat_def fault_def demo_world_def root)
  then show ?thesis
    by (simp add: scan_library_def demo_rest_def demo_lib_def demo_inode_def clock_def demo_machine_def demo_world_def Let_def)
qed

lemma demo_scan_ok: "fst (demo_rest (demo_tree []) (demo_machine [True])) = Inr ()"
proof -
  have "fst (demo_rest (demo_tree []) \<lparr>m_world = \<lparr>w_fs = fs, w_cwd = ''/'', w_free = fr, w_faults = [True],
    w_rands = [''1''], w_now = 50\<rparr>, m_store = demo_store, m_ctx = []\<rparr>) = Inr ()" for fs fr
    unfolding demo_rest_def by code_simp
  then show ?thesis by (simp add: demo_machine_def demo_world_def)
qed

lemma demo_row: "demo_file\<lparr>mf_id := 1\<rparr> \<in> set (db_files (s_db (m_store (demo_machine fl))))"
  by (simp add: demo_machine_def) code_simp

lemma demo_inside: "inside ''/m'' ''/m/a.mkv''" "''/m/a.mkv'' \<in> set (videos_at True (walk_root ''/m'') (demo_tree []))"
  "unreadable_at True (demo_tree [WDir ''x'' True []])"
  by code_simp+

lemma demo_hidden_ok: "fst (demo_rest (WDir ''m'' True []) (demo_machine [True])) = Inr ()"
proof -
  have "fst (demo_rest (WDir ''m'' True []) \<lparr>m_world = \<lparr>w_fs = fs, w_cwd = ''/'', w_free = fr, w_faults = [True],
    w_rands = [''1''], w_now = 50\<rparr>, m_store = demo_store, m_ctx = []\<rparr>) = Inr ()" for fs fr
    unfolding demo_rest_def by code_simp
  then show ?thesis by (simp add: demo_machine_def demo_world_def)
qed

lemma demo_before: "db_ok (s_db (m_store (demo_machine fl)))" "0 < clock (demo_machine fl)"
  by (simp_all add: demo_machine_def demo_ok clock_def demo_world_def)

subsection \<open>What a scan may forget\<close>

text \<open>
  C5: a scan of a library that returns keeps the record of every plain video file that the tree still
  holds, under its old ID, whatever failed on the way: the probe of this file, statements of the
  database, other files; only a file that the walk does not meet can lose its record.
\<close>

theorem scan_keeps_present:
  assumes "scan_library sn (Some tree) lib m = (Inr u, m')" "db_ok (s_db (m_store m))" "0 < clock m"
    "f \<in> set (db_files (s_db (m_store m)))" "mf_library f = lb_id lib" "inside (lb_path lib) (mf_path f)"
    "mf_path f \<in> set (videos_at True (walk_root (lb_path lib)) tree)"
  shows "\<exists>g \<in> set (db_files (s_db (m_store m'))). mf_id g = mf_id f \<and> mf_path g = mf_path f \<and> mf_library g = mf_library f"
proof -
  obtain m0 acc m1 where w: "walk (walk_root (lb_path lib)) (Some tree) m0 = (Inr acc, m1)"
    and r: "wa_err acc \<or> mf_path f \<in> fst ` set (wa_videos acc) \<longrightarrow> ?thesis"
    using scan_library_parts [OF assms(1-6)] by blast
  from w assms(7) have "mf_path f \<in> fst ` set (wa_videos acc)"
    using walk_sound(1) by (fastforce simp: walk_def Let_def)
  with r show ?thesis by blast
qed

lemma scan_keeps_present_witness:
  "\<exists>u m'. scan_library demo_scanner (Some (demo_tree [])) demo_scanned_lib (demo_machine [False, True]) = (Inr u, m') \<and>
     (\<exists>g \<in> set (db_files (s_db (m_store m'))). mf_id g = 1 \<and> mf_path g = ''/m/a.mkv'')"
proof -
  obtain u m' where m': "scan_library demo_scanner (Some (demo_tree [])) demo_scanned_lib (demo_machine [False, True]) = (Inr u, m')"
    using demo_scan_ok unfolding demo_scan_rest by (cases "demo_rest (demo_tree []) (demo_machine [True])") auto
  have "\<exists>g \<in> set (db_files (s_db (m_store m'))). mf_id g = 1 \<and> mf_path g = ''/m/a.mkv'' \<and> mf_library g = 1"
    using scan_keeps_present [OF m' demo_before demo_row] demo_inside by (simp add: demo_file_def demo_lib_def)
  with m' show ?thesis by blast
qed

text \<open>
  C17: when the walk meets an entry it cannot read (a directory, or a video whose \<^verbatim>\<open>Info\<close> fails other
  than by its absence), or cannot read the root at all, a scan that returns drops no record of the
  library that lies inside its root.
\<close>

theorem unreadable_scan_forgets_nothing:
  assumes "scan_library sn tree lib m = (Inr u, m')" "db_ok (s_db (m_store m))" "0 < clock m"
    "case tree of None \<Rightarrow> True | Some t \<Rightarrow> unreadable_at True t"
    "f \<in> set (db_files (s_db (m_store m)))" "mf_library f = lb_id lib" "inside (lb_path lib) (mf_path f)"
  shows "\<exists>g \<in> set (db_files (s_db (m_store m'))). mf_id g = mf_id f \<and> mf_path g = mf_path f \<and> mf_library g = mf_library f"
proof -
  obtain m0 acc m1 where w: "walk (walk_root (lb_path lib)) tree m0 = (Inr acc, m1)"
    and r: "wa_err acc \<or> mf_path f \<in> fst ` set (wa_videos acc) \<longrightarrow> ?thesis"
    using scan_library_parts [OF assms(1-3,5-7)] by blast
  from w assms(4) have "wa_err acc"
    using walk_sound(1) by (fastforce simp: walk_def Let_def split: option.splits)
  with r show ?thesis by blast
qed

lemma unreadable_scan_forgets_nothing_witness:
  "\<exists>u m'. scan_library demo_scanner (Some (WDir ''m'' True [])) demo_scanned_lib (demo_machine [False, True]) = (Inr u, m') \<and>
     (\<exists>g \<in> set (db_files (s_db (m_store m'))). mf_id g = 1 \<and> mf_path g = ''/m/a.mkv'')"
proof -
  obtain u m' where m': "scan_library demo_scanner (Some (WDir ''m'' True [])) demo_scanned_lib (demo_machine [False, True]) = (Inr u, m')"
    using demo_hidden_ok unfolding demo_scan_rest by (cases "demo_rest (WDir ''m'' True []) (demo_machine [True])") auto
  have "\<exists>g \<in> set (db_files (s_db (m_store m'))). mf_id g = 1 \<and> mf_path g = ''/m/a.mkv'' \<and> mf_library g = 1"
    using unreadable_scan_forgets_nothing [OF m' demo_before _ demo_row] demo_inside(1)
    by (simp add: demo_file_def demo_lib_def)
  with m' show ?thesis by blast
qed


end
