(* ===== verification/Payload.thy ===== *)
theory Payload
  imports JobStore EnginePlan
begin

text \<open>
  The payloads of jobs (\<^verbatim>\<open>internal/jobs\<close>): what \<^verbatim>\<open>json.Marshal\<close> makes of each struct and what
  \<^verbatim>\<open>json.Unmarshal\<close> reads back. A key that is missing or null leaves the zero value, keys match
  whatever their case, a value of another type or out of range is an error.
\<close>

subsection \<open>Values\<close>

definition dec_int :: "json \<Rightarrow> int option" where
  "dec_int j = (case j of JNum n \<Rightarrow> if in_i64 n then Some n else None | JNull \<Rightarrow> Some 0 | _ \<Rightarrow> None)"

definition dec_bool :: "json \<Rightarrow> bool option" where
  "dec_bool j = (case j of JBool b \<Rightarrow> Some b | JNull \<Rightarrow> Some False | _ \<Rightarrow> None)"

definition dec_str :: "json \<Rightarrow> string option" where
  "dec_str j = (case j of JStr s \<Rightarrow> Some s | JNull \<Rightarrow> Some '''' | _ \<Rightarrow> None)"

text \<open>A pointer: null is \<^verbatim>\<open>nil\<close>.\<close>

definition dec_ptr :: "(json \<Rightarrow> 'a option) \<Rightarrow> json \<Rightarrow> 'a option option" where
  "dec_ptr d j = (case j of JNull \<Rightarrow> Some None | _ \<Rightarrow> map_option Some (d j))"

definition dec_list :: "(json \<Rightarrow> 'a option) \<Rightarrow> json \<Rightarrow> 'a list option" where
  "dec_list d j = (case j of JArr js \<Rightarrow> those (map d js) | JNull \<Rightarrow> Some [] | _ \<Rightarrow> None)"

text \<open>The fields of an object; null decodes as an object without any.\<close>

definition dec_fields :: "json \<Rightarrow> (string \<times> json) list option" where
  "dec_fields j = (case j of JObj kvs \<Rightarrow> Some kvs | JNull \<Rightarrow> Some [] | _ \<Rightarrow> None)"

definition dec_field :: "string \<Rightarrow> (json \<Rightarrow> 'a option) \<Rightarrow> (string \<times> json) list \<Rightarrow> 'a option" where
  "dec_field k d kvs = d (case json_field k kvs of None \<Rightarrow> JNull | Some j \<Rightarrow> j)"

definition enc_ints :: "int list \<Rightarrow> json" where
  "enc_ints ns = JArr (map JNum ns)"

definition enc_strs :: "string list \<Rightarrow> json" where
  "enc_strs ss = JArr (map JStr ss)"

subsection \<open>The structs\<close>

record remux_payload =
  rp_audio :: "int list"
  rp_subs :: "int list"
  rp_hardlink :: bool
  rp_last_audio :: bool

definition enc_remux :: "remux_payload \<Rightarrow> json" where
  "enc_remux p = JObj [(''audio_idx'', enc_ints (rp_audio p)), (''sub_idx'', enc_ints (rp_subs p)),
     (''allow_hardlink'', JBool (rp_hardlink p)), (''allow_last_audio'', JBool (rp_last_audio p))]"

definition dec_remux :: "json \<Rightarrow> remux_payload option" where
  "dec_remux j = Option.bind (dec_fields j) (\<lambda>kvs.
     Option.bind (dec_field ''audio_idx'' (dec_list dec_int) kvs) (\<lambda>a.
     Option.bind (dec_field ''sub_idx'' (dec_list dec_int) kvs) (\<lambda>s.
     Option.bind (dec_field ''allow_hardlink'' dec_bool kvs) (\<lambda>h.
     Option.bind (dec_field ''allow_last_audio'' dec_bool kvs) (\<lambda>l.
     Some \<lparr>rp_audio = a, rp_subs = s, rp_hardlink = h, rp_last_audio = l\<rparr>)))))"

record sidecar_payload =
  sp_id :: int
  sp_path :: path

definition enc_sidecar :: "sidecar_payload \<Rightarrow> json" where
  "enc_sidecar p = JObj [(''sidecar_id'', JNum (sp_id p)), (''path'', JStr (sp_path p))]"

definition dec_sidecar :: "json \<Rightarrow> sidecar_payload option" where
  "dec_sidecar j = Option.bind (dec_fields j) (\<lambda>kvs.
     Option.bind (dec_field ''sidecar_id'' dec_int kvs) (\<lambda>i.
     Option.bind (dec_field ''path'' dec_str kvs) (\<lambda>p.
     Some \<lparr>sp_id = i, sp_path = p\<rparr>)))"

text \<open>Empty languages and absent pointers are left out (\<^verbatim>\<open>omitempty\<close>).\<close>

definition enc_opt :: "string \<Rightarrow> ('a \<Rightarrow> json) \<Rightarrow> 'a option \<Rightarrow> (string \<times> json) list" where
  "enc_opt k e x = (case x of None \<Rightarrow> [] | Some a \<Rightarrow> [(k, e a)])"

definition enc_edit :: "metadata_edit \<Rightarrow> json" where
  "enc_edit e = JObj ((''track_index'', JNum (me_track e)) #
     (if me_lang e = '''' then [] else [(''language'', JStr (me_lang e))]) @
     enc_opt ''title'' JStr (me_title e) @ enc_opt ''default'' JBool (me_default e) @ enc_opt ''forced'' JBool (me_forced e))"

definition dec_edit :: "json \<Rightarrow> metadata_edit option" where
  "dec_edit j = Option.bind (dec_fields j) (\<lambda>kvs.
     Option.bind (dec_field ''track_index'' dec_int kvs) (\<lambda>t.
     Option.bind (dec_field ''language'' dec_str kvs) (\<lambda>l.
     Option.bind (dec_field ''title'' (dec_ptr dec_str) kvs) (\<lambda>ti.
     Option.bind (dec_field ''default'' (dec_ptr dec_bool) kvs) (\<lambda>d.
     Option.bind (dec_field ''forced'' (dec_ptr dec_bool) kvs) (\<lambda>f.
     Some \<lparr>me_track = t, me_lang = l, me_title = ti, me_default = d, me_forced = f\<rparr>))))))"

record edit_payload =
  ep_edits :: "metadata_edit list"
  ep_hardlink :: bool

definition enc_edits :: "edit_payload \<Rightarrow> json" where
  "enc_edits p = JObj [(''edits'', JArr (map enc_edit (ep_edits p))), (''allow_hardlink'', JBool (ep_hardlink p))]"

definition dec_edits :: "json \<Rightarrow> edit_payload option" where
  "dec_edits j = Option.bind (dec_fields j) (\<lambda>kvs.
     Option.bind (dec_field ''edits'' (dec_list dec_edit) kvs) (\<lambda>es.
     Option.bind (dec_field ''allow_hardlink'' dec_bool kvs) (\<lambda>h.
     Some \<lparr>ep_edits = es, ep_hardlink = h\<rparr>)))"

record reorder_payload =
  op_order :: "int list"
  op_hardlink :: bool

definition enc_reorder :: "reorder_payload \<Rightarrow> json" where
  "enc_reorder p = JObj [(''track_order'', enc_ints (op_order p)), (''allow_hardlink'', JBool (op_hardlink p))]"

definition dec_reorder :: "json \<Rightarrow> reorder_payload option" where
  "dec_reorder j = Option.bind (dec_fields j) (\<lambda>kvs.
     Option.bind (dec_field ''track_order'' (dec_list dec_int) kvs) (\<lambda>ns.
     Option.bind (dec_field ''allow_hardlink'' dec_bool kvs) (\<lambda>h.
     Some \<lparr>op_order = ns, op_hardlink = h\<rparr>)))"

record merge_payload =
  mp_files :: "path list"
  mp_hardlink :: bool

definition enc_merge :: "merge_payload \<Rightarrow> json" where
  "enc_merge p = JObj [(''external_files'', enc_strs (mp_files p)), (''allow_hardlink'', JBool (mp_hardlink p))]"

definition dec_merge :: "json \<Rightarrow> merge_payload option" where
  "dec_merge j = Option.bind (dec_fields j) (\<lambda>kvs.
     Option.bind (dec_field ''external_files'' (dec_list dec_str) kvs) (\<lambda>fs.
     Option.bind (dec_field ''allow_hardlink'' dec_bool kvs) (\<lambda>h.
     Some \<lparr>mp_files = fs, mp_hardlink = h\<rparr>)))"

definition enc_scan :: "int \<Rightarrow> json" where
  "enc_scan i = JObj [(''library_id'', JNum i)]"

definition dec_scan :: "json \<Rightarrow> int option" where
  "dec_scan j = json_int ''library_id'' j"

subsection \<open>Reading back what was written\<close>

lemma those_map [simp]: "(\<And>x. x \<in> set xs \<Longrightarrow> d (e x) = Some x) \<Longrightarrow> those (map (d \<circ> e) xs) = Some xs"
  by (induction xs) auto

lemma dec_list_ints [simp]: "\<forall>n \<in> set ns. in_i64 n \<Longrightarrow> dec_list dec_int (enc_ints ns) = Some ns"
  by (simp add: dec_list_def enc_ints_def dec_int_def)

lemma dec_list_strs [simp]: "dec_list dec_str (enc_strs ss) = Some ss"
  by (simp add: dec_list_def enc_strs_def dec_str_def)

lemma dec_bool_JBool [simp]: "dec_bool (JBool b) = Some b"
  by (simp add: dec_bool_def)

lemma dec_int_JNum [simp]: "in_i64 n \<Longrightarrow> dec_int (JNum n) = Some n"
  by (simp add: dec_int_def)

lemma dec_str_JStr [simp]: "dec_str (JStr s) = Some s"
  by (simp add: dec_str_def)

lemma dec_ptr_simps [simp]:
  "dec_ptr d JNull = Some None" "dec_ptr d (JStr s) = map_option Some (d (JStr s))"
  "dec_ptr d (JBool b) = map_option Some (d (JBool b))"
  by (simp_all add: dec_ptr_def)

lemma dec_null [simp]: "dec_int JNull = Some 0" "dec_bool JNull = Some False" "dec_str JNull = Some ''''"
  by (simp_all add: dec_int_def dec_bool_def dec_str_def)

lemma dec_fields_JObj [simp]: "dec_fields (JObj kvs) = Some kvs"
  by (simp add: dec_fields_def)

lemma field_here: "equal_fold k k' \<Longrightarrow> json_field k (kvs @ [(k', j)]) = Some j"
  by (simp add: json_field_def)

lemma field_later: "\<not> equal_fold k k' \<Longrightarrow> json_field k (kvs @ [(k', j)]) = json_field k kvs"
  by (simp add: json_field_def)

lemma field_Nil [simp]: "json_field k [] = None"
  by (simp add: json_field_def)

lemma field_Cons:
  "json_field k ((k', j) # kvs) = (case json_field k kvs of Some v \<Rightarrow> Some v | None \<Rightarrow> if equal_fold k k' then Some j else None)"
proof -
  have "List.find P (xs @ [x]) = (case List.find P xs of Some v \<Rightarrow> Some v | None \<Rightarrow> if P x then Some x else None)" for P x
    and xs :: "(string \<times> json) list" by (induction xs) auto
  then show ?thesis by (simp add: json_field_def split: option.splits)
qed

lemma fold_eq [simp]: "equal_fold k k"
  by (simp add: equal_fold_def)

lemma payload_keys [simp]:
  "equal_fold ''audio_idx'' ''sub_idx'' = False" "equal_fold ''audio_idx'' ''allow_hardlink'' = False"
  "equal_fold ''audio_idx'' ''allow_last_audio'' = False" "equal_fold ''sub_idx'' ''allow_hardlink'' = False"
  "equal_fold ''sub_idx'' ''allow_last_audio'' = False" "equal_fold ''allow_hardlink'' ''allow_last_audio'' = False"
  "equal_fold ''sidecar_id'' ''path'' = False" "equal_fold ''edits'' ''allow_hardlink'' = False"
  "equal_fold ''track_order'' ''allow_hardlink'' = False" "equal_fold ''external_files'' ''allow_hardlink'' = False"
  "equal_fold ''track_index'' ''language'' = False" "equal_fold ''track_index'' ''title'' = False"
  "equal_fold ''track_index'' ''default'' = False" "equal_fold ''track_index'' ''forced'' = False"
  "equal_fold ''language'' ''title'' = False" "equal_fold ''language'' ''default'' = False"
  "equal_fold ''language'' ''forced'' = False" "equal_fold ''title'' ''default'' = False"
  "equal_fold ''title'' ''forced'' = False" "equal_fold ''default'' ''forced'' = False"
  by code_simp+

lemma equal_fold_swap: "equal_fold a b = False \<Longrightarrow> equal_fold b a = False"
  by (auto simp: equal_fold_def)

lemmas payload_keys_swapped [simp] = payload_keys [THEN equal_fold_swap]

lemma dec_enc_remux [simp]:
  assumes "\<forall>n \<in> set (rp_audio p) \<union> set (rp_subs p). in_i64 n"
  shows "dec_remux (enc_remux p) = Some p"
  using assms by (simp add: dec_remux_def enc_remux_def dec_field_def field_Cons)

lemma dec_enc_sidecar [simp]: "in_i64 (sp_id p) \<Longrightarrow> dec_sidecar (enc_sidecar p) = Some p"
  by (simp add: dec_sidecar_def enc_sidecar_def dec_field_def field_Cons)

lemma dec_enc_edit [simp]: "in_i64 (me_track e) \<Longrightarrow> dec_edit (enc_edit e) = Some e"
  by (cases "me_lang e = ''''"; cases "me_title e"; cases "me_default e"; cases "me_forced e")
    (simp_all add: dec_edit_def enc_edit_def dec_field_def field_Cons enc_opt_def)

lemma dec_enc_edits [simp]:
  assumes "\<forall>e \<in> set (ep_edits p). in_i64 (me_track e)"
  shows "dec_edits (enc_edits p) = Some p"
proof -
  have "those (map (dec_edit \<circ> enc_edit) (ep_edits p)) = Some (ep_edits p)"
    using assms by (intro those_map) simp
  then show ?thesis by (simp add: dec_edits_def enc_edits_def dec_field_def field_Cons dec_list_def)
qed

lemma dec_enc_reorder [simp]: "\<forall>n \<in> set (op_order p). in_i64 n \<Longrightarrow> dec_reorder (enc_reorder p) = Some p"
  by (simp add: dec_reorder_def enc_reorder_def dec_field_def field_Cons)

lemma dec_enc_merge [simp]: "dec_merge (enc_merge p) = Some p"
  by (simp add: dec_merge_def enc_merge_def dec_field_def field_Cons)

lemma dec_enc_scan [simp]: "in_i64 i \<Longrightarrow> dec_scan (enc_scan i) = Some i"
  by (simp add: dec_scan_def enc_scan_def json_int_def field_Cons)



end
