(* ===== verification/Runner.thy ===== *)
theory Runner
  imports Scanner Recycle Payload
begin

text \<open>
  Package \<^verbatim>\<open>internal/jobs\<close>: what a worker does with one job, on the machine of file system and
  database. The engine, the scanner and what the operating system lists are the environment; so are
  the texts of errors, which only end up in a job's log. Notifications are not part of the state.
\<close>

record err_texts =
  et_engine :: "engine_err \<Rightarrow> string"
  et_sidecar :: "sidecar_err \<Rightarrow> string"
  et_scan :: "scan_err \<Rightarrow> string"
  et_store :: "store_err \<Rightarrow> string"
  et_stat :: "path \<Rightarrow> string"
  et_payload :: "json \<Rightarrow> string"
  et_ctx :: string

record runner_env =
  rn_engine :: engine_env
  rn_scanner :: scanner
  rn_tree :: "world \<Rightarrow> path \<Rightarrow> wnode option"
  rn_names :: "world \<Rightarrow> path \<Rightarrow> string list option"
  rn_text :: err_texts

text \<open>Status, log, bytes saved.\<close>

type_synonym outcome = "string \<times> string \<times> int"

definition failed :: "string \<Rightarrow> outcome" where
  "failed msg = (''failed'', msg, 0)"

definition media_file_id :: "job \<Rightarrow> int" where
  "media_file_id j = (case jb_file j of Some i \<Rightarrow> i | None \<Rightarrow> 0)"

subsection \<open>The end of a job\<close>

definition final_status :: "bool \<Rightarrow> bool \<Rightarrow> string \<Rightarrow> string \<Rightarrow> string \<times> string" where
  "final_status was_cancelled killed status msg =
     (if was_cancelled \<and> status \<noteq> ''done'' then (''cancelled'', ''cancelled by user'')
      else if killed \<and> status = ''failed'' then (''cancelled'', ''cancelled by shutdown'')
      else (status, msg))"

definition max_job_log :: nat where "max_job_log = 4000"

definition clamp_log :: "string \<Rightarrow> string" where
  "clamp_log s = (if length s \<le> max_job_log then s else take max_job_log s @ '' ...[truncated]'')"

subsection \<open>Before and after a mutation\<close>

definition changed_since_queued :: string where
  "changed_since_queued = ''file changed since this job was queued; re-select tracks''"

definition stale_fingerprint :: "runner_env \<Rightarrow> job \<Rightarrow> machine \<Rightarrow> string \<times> machine" where
  "stale_fingerprint ev j m =
     (case (jb_fsize j, jb_fmtime j) of
        (Some sz, Some mt) \<Rightarrow>
          (case on_world (os_stat (jb_path j)) m of
             (None, m') \<Rightarrow> (et_stat (rn_text ev) (jb_path j), m')
           | (Some (_, nd), m') \<Rightarrow> (if in_size nd \<noteq> sz \<or> in_mtime nd \<noteq> mt then changed_since_queued else '''', m'))
      | _ \<Rightarrow> ('''', m))"

text \<open>The policy is only asked when the request does not allow hard links by itself.\<close>

definition allow_hardlink :: "job \<Rightarrow> bool \<Rightarrow> machine \<Rightarrow> bool \<times> machine" where
  "allow_hardlink j requested m =
     (if requested then (True, m)
      else case hardlink_policy_proceeds (media_file_id j) (m_store m) of (b, s) \<Rightarrow> (b, m\<lparr>m_store := s\<rparr>))"

definition refresh_file :: "runner_env \<Rightarrow> int \<Rightarrow> machine \<Rightarrow> machine" where
  "refresh_file ev fid m =
     (if fid = 0 then m
      else case on_store StoreFailed (get_file fid) m of
        (Inr (Some f), m1) \<Rightarrow>
          (case on_store StoreFailed (get_library (mf_library f)) m1 of
             (Inr (Some lib), m2) \<Rightarrow>
               snd (scan_file (rn_scanner ev) (rn_names ev (m_world m2) (dir_name (mf_path f))) lib (mf_path f) m2)
           | (_, m2) \<Rightarrow> m2)
      | (_, m1) \<Rightarrow> m1)"

subsection \<open>The kinds of jobs\<close>

text \<open>An engine operation on the job's file, with what follows it.\<close>

definition engine_job :: "runner_env \<Rightarrow> job \<Rightarrow> engine_result engine_op \<Rightarrow> machine \<Rightarrow> outcome \<times> machine" where
  "engine_job ev j f m =
     (case on_world f m of
        (Inl e, m') \<Rightarrow> ((if is_skipped e then ''skipped'' else ''failed'', et_engine (rn_text ev) e, 0), m')
      | (Inr r, m') \<Rightarrow> ((''done'', er_tool r @ '': '' @ er_command r, er_saved r), refresh_file ev (media_file_id j) m'))"

definition bad_payload :: "runner_env \<Rightarrow> job \<Rightarrow> outcome" where
  "bad_payload ev j = failed (''bad payload: '' @ et_payload (rn_text ev) (jb_payload j))"

definition remux_job :: "runner_env \<Rightarrow> job \<Rightarrow> machine \<Rightarrow> outcome \<times> machine" where
  "remux_job ev j m =
     (case dec_remux (jb_payload j) of
        None \<Rightarrow> (bad_payload ev j, m)
      | Some p \<Rightarrow>
          (case allow_hardlink j (rp_hardlink p) m of (allow, m1) \<Rightarrow>
             engine_job ev j (remove_tracks (rn_engine ev) (jb_path j) \<lparr>rm_audio = rp_audio p, rm_subs = rp_subs p\<rparr>
               \<lparr>op_allow_hardlink = allow, op_allow_last_audio = rp_last_audio p, op_dry_run = False\<rparr>) m1))"

definition edit_job :: "runner_env \<Rightarrow> job \<Rightarrow> machine \<Rightarrow> outcome \<times> machine" where
  "edit_job ev j m =
     (case dec_edits (jb_payload j) of
        None \<Rightarrow> (bad_payload ev j, m)
      | Some p \<Rightarrow> engine_job ev j (edit_metadata (rn_engine ev) (jb_path j) (ep_edits p) (ep_hardlink p)) m)"

definition reorder_job :: "runner_env \<Rightarrow> job \<Rightarrow> machine \<Rightarrow> outcome \<times> machine" where
  "reorder_job ev j m =
     (case dec_reorder (jb_payload j) of
        None \<Rightarrow> (bad_payload ev j, m)
      | Some p \<Rightarrow>
          (case allow_hardlink j (op_hardlink p) m of (allow, m1) \<Rightarrow>
             engine_job ev j (reorder_tracks (rn_engine ev) (jb_path j) (op_order p) allow) m1))"

definition merge_job :: "runner_env \<Rightarrow> job \<Rightarrow> machine \<Rightarrow> outcome \<times> machine" where
  "merge_job ev j m =
     (case dec_merge (jb_payload j) of
        None \<Rightarrow> (bad_payload ev j, m)
      | Some p \<Rightarrow>
          (case allow_hardlink j (mp_hardlink p) m of (allow, m1) \<Rightarrow>
             engine_job ev j (merge_tracks (rn_engine ev) (jb_path j) (mp_files p) allow) m1))"

text \<open>The jobs that hold the file's lock and check that it is still the file that was queued.\<close>

definition file_job_types :: "string list" where
  "file_job_types = [''remux'', ''edit_metadata'', ''reorder_tracks'', ''merge_tracks'']"

definition file_job :: "runner_env \<Rightarrow> job \<Rightarrow> machine \<Rightarrow> outcome \<times> machine" where
  "file_job ev j m =
     (case stale_fingerprint ev j m of (msg, m1) \<Rightarrow>
        if msg \<noteq> '''' then (failed msg, m1)
        else if jb_type j = ''remux'' then remux_job ev j m1
        else if jb_type j = ''edit_metadata'' then edit_job ev j m1
        else if jb_type j = ''reorder_tracks'' then reorder_job ev j m1
        else merge_job ev j m1)"

text \<open>\<open>None\<close> when the recycle bin never yields a free name.\<close>

definition sidecar_warning :: "runner_env \<Rightarrow> int \<Rightarrow> machine \<Rightarrow> string \<times> machine" where
  "sidecar_warning ev sid m =
     (if sid = 0 then ('''', m)
      else case on_store id (delete_sidecar_row sid) m of
        (Inl e, m') \<Rightarrow> ('' | warning: sidecar db row not removed: '' @ et_store (rn_text ev) e, m')
      | (Inr _, m') \<Rightarrow> ('''', m'))"

definition sidecar_job :: "runner_env \<Rightarrow> job \<Rightarrow> machine \<Rightarrow> (outcome \<times> machine) option" where
  "sidecar_job ev j m =
     (case dec_sidecar (jb_payload j) of
        None \<Rightarrow> Some (bad_payload ev j, m)
      | Some p \<Rightarrow>
          (case delete_sidecar (ev_recycle (rn_engine ev)) (sp_path p) False (m_world m) of
             None \<Rightarrow> None
           | Some (Inl e, w) \<Rightarrow> Some (failed (et_sidecar (rn_text ev) e), m\<lparr>m_world := w\<rparr>)
           | Some (Inr r, w) \<Rightarrow>
               (case sidecar_warning ev (sp_id p) (m\<lparr>m_world := w\<rparr>) of (warn, m1) \<Rightarrow>
                  Some ((''done'', er_command r @ warn, er_saved r), refresh_file ev (media_file_id j) m1))))"

text \<open>One library: the scan's error, and the error of the stamp.\<close>

definition scan_and_stamp ::
  "runner_env \<Rightarrow> library \<Rightarrow> machine \<Rightarrow> (scan_err option \<times> store_err option) \<times> machine" where
  "scan_and_stamp ev lib m =
     (case scan_library (rn_scanner ev) (rn_tree ev (m_world m) (walk_root (lb_path lib))) lib m of (r, m1) \<Rightarrow>
      case on_store id (mark_library_scanned (lb_id lib) (clock m1)) m1 of (r2, m2) \<Rightarrow>
        (((case r of Inl e \<Rightarrow> Some e | Inr _ \<Rightarrow> None), (case r2 of Inl e \<Rightarrow> Some e | Inr _ \<Rightarrow> None)), m2))"

definition scan_library_job :: "runner_env \<Rightarrow> job \<Rightarrow> machine \<Rightarrow> outcome \<times> machine" where
  "scan_library_job ev j m =
     (case dec_scan (jb_payload j) of
        None \<Rightarrow> (bad_payload ev j, m)
      | Some lid \<Rightarrow>
          (case on_store id (get_library lid) m of
             (Inl e, m1) \<Rightarrow> (failed (''db error: '' @ et_store (rn_text ev) e), m1)
           | (Inr None, m1) \<Rightarrow> (failed (''library '' @ itoa lid @ '' not found''), m1)
           | (Inr (Some lib), m1) \<Rightarrow>
               (case scan_and_stamp ev lib m1 of
                  ((serr, merr), m2) \<Rightarrow>
                    let warn = (case merr of Some e \<Rightarrow> '' | warning: last-scanned stamp failed: '' @ et_store (rn_text ev) e
                                | None \<Rightarrow> '''')
                    in ((case serr of
                           Some e \<Rightarrow> failed (et_scan (rn_text ev) e @ warn)
                         | None \<Rightarrow> (''done'', ''scanned library: '' @ lb_name lib @ warn, 0)), m2))))"

text \<open>All libraries in order: the names scanned, what failed, the stamps that failed.\<close>

type_synonym tally = "string list \<times> string list \<times> string list"

fun scan_each :: "runner_env \<Rightarrow> library list \<Rightarrow> tally \<Rightarrow> machine \<Rightarrow> (string + tally) \<times> machine" where
  "scan_each ev [] t m = (Inr t, m)"
| "scan_each ev (lib # libs) (scanned, bad, warns) m =
     (case ctx_done m of
        (True, m1) \<Rightarrow> (Inl (et_ctx (rn_text ev)), m1)
      | (False, m1) \<Rightarrow>
          (case scan_and_stamp ev lib m1 of
             ((serr, merr), m2) \<Rightarrow>
               let warns' = (if merr = None then warns else warns @ [lb_name lib]) in
               (case serr of
                  Some e \<Rightarrow> scan_each ev libs (scanned, bad @ [lb_name lib @ '': '' @ et_scan (rn_text ev) e], warns') m2
                | None \<Rightarrow> scan_each ev libs (scanned @ [lb_name lib], bad, warns') m2)))"

definition scan_all_outcome :: "tally \<Rightarrow> outcome" where
  "scan_all_outcome t =
     (case t of (scanned, bad, warns) \<Rightarrow>
        let msg = ''scanned: '' @ join '', '' scanned @
              (if bad = [] then '''' else '' | failed: '' @ join ''; '' bad) @
              (if warns = [] then '''' else '' | warning: last-scanned stamp failed: '' @ join '', '' warns)
        in if scanned = [] \<and> bad \<noteq> [] then failed msg else (''done'', msg, 0))"

definition scan_all_job :: "runner_env \<Rightarrow> machine \<Rightarrow> outcome \<times> machine" where
  "scan_all_job ev m =
     (case on_store id list_libraries m of
        (Inl e, m1) \<Rightarrow> (failed (''db error: '' @ et_store (rn_text ev) e), m1)
      | (Inr libs, m1) \<Rightarrow>
          (case scan_each ev libs ([], [], []) m1 of
             (Inl msg, m2) \<Rightarrow> (failed msg, m2)
           | (Inr t, m2) \<Rightarrow> (scan_all_outcome t, m2)))"

subsection \<open>Running a job\<close>

definition execute :: "runner_env \<Rightarrow> job \<Rightarrow> machine \<Rightarrow> (outcome \<times> machine) option" where
  "execute ev j m =
     (if jb_type j \<in> set file_job_types then Some (file_job ev j m)
      else if jb_type j = ''delete_sidecar'' then sidecar_job ev j m
      else if jb_type j = ''scan_library'' then Some (scan_library_job ev j m)
      else if jb_type j = ''scan_all'' then Some (scan_all_job ev m)
      else Some (failed (''unknown job type '' @ jb_type j), m))"

text \<open>
  What \<^verbatim>\<open>run\<close> writes: \<open>was_cancelled\<close> is the flag \<^verbatim>\<open>Cancel\<close> set while the job ran, \<open>killed\<close> whether
  its context had ended. An error of \<^verbatim>\<open>FinishJob\<close> is only printed.
\<close>

definition job_end :: "bool \<Rightarrow> bool \<Rightarrow> outcome \<Rightarrow> outcome" where
  "job_end was_cancelled killed res =
     (case res of (status, msg, saved) \<Rightarrow>
      case final_status was_cancelled killed status msg of (st, lg) \<Rightarrow>
        (st, clamp_log lg, if st = ''cancelled'' then 0 else saved))"

definition finish :: "int \<Rightarrow> outcome \<Rightarrow> machine \<Rightarrow> machine" where
  "finish i res m = (case res of (st, lg, saved) \<Rightarrow> snd (on_store id (finish_job i st lg saved) m))"

definition run_job :: "runner_env \<Rightarrow> bool \<Rightarrow> bool \<Rightarrow> job \<Rightarrow> machine \<Rightarrow> machine option" where
  "run_job ev was_cancelled killed j m =
     map_option (\<lambda>(res, m1). finish (jb_id j) (job_end was_cancelled killed res) m1) (execute ev j m)"

end
