(* ===== verification/RunnerSteps.thy ===== *)
theory RunnerSteps
  imports Runner JobProps
begin

text \<open>
  \<^verbatim>\<open>Runner\<close> with its workers as a step relation: any number of goroutines claim, register, execute,
  collect and finish, while the API cancels jobs and calls every other method of the store. Each
  step is one section under \<^verbatim>\<open>cmu\<close> or one call of the store; the work on a job is many steps, each one
  call, and ends with any outcome.
\<close>

subsection \<open>Steps\<close>

datatype worker_pc =
    Idle
  | Claimed job
  | Working job
  | Collecting job outcome bool
  | Finishing job outcome

record runner =
  ru_store :: store
  ru_cancels :: "int set"
  ru_cancelled :: "int set"
  ru_pc :: "nat \<Rightarrow> worker_pc"

definition worker_at :: "nat \<Rightarrow> worker_pc \<Rightarrow> runner \<Rightarrow> runner" where
  "worker_at t pc r = r\<lparr>ru_pc := (ru_pc r)(t := pc)\<rparr>"

text \<open>\<^verbatim>\<open>Cancel\<close>: only a job that is registered can be flagged; the answer says whether it was.\<close>

definition cancel_running :: "int \<Rightarrow> runner \<Rightarrow> bool \<times> runner" where
  "cancel_running i r =
     (if i \<in> ru_cancels r then (True, r\<lparr>ru_cancelled := insert i (ru_cancelled r)\<rparr>) else (False, r))"

text \<open>The outcome is settled with the flag as it is when the entry is removed.\<close>

definition collect :: "nat \<Rightarrow> job \<Rightarrow> outcome \<Rightarrow> bool \<Rightarrow> runner \<Rightarrow> runner" where
  "collect t j res killed r =
     worker_at t (Finishing j (job_end (jb_id j \<in> ru_cancelled r) killed res))
       (r\<lparr>ru_cancels := ru_cancels r - {jb_id j}, ru_cancelled := ru_cancelled r - {jb_id j}\<rparr>)"

definition store_call :: "request \<Rightarrow> runner \<Rightarrow> runner" where
  "store_call q r = r\<lparr>ru_store := exec q (ru_store r)\<rparr>"

text \<open>The calls of the API and of a job's own work: neither claims nor ends runs.\<close>

definition outside_call :: "request \<Rightarrow> bool" where
  "outside_call q \<longleftrightarrow> is_calm q \<and> q \<noteq> ClaimNextJob"

inductive runner_step :: "runner \<Rightarrow> runner \<Rightarrow> bool" where
  claim: "ru_pc r t = Idle \<Longrightarrow> claim_next_job (ru_store r) = (Inr (Some j), s) \<Longrightarrow>
    runner_step r (worker_at t (Claimed j) (r\<lparr>ru_store := s\<rparr>))"
| claim_none: "ru_pc r t = Idle \<Longrightarrow> claim_next_job (ru_store r) = (Inr None, s) \<Longrightarrow> runner_step r (r\<lparr>ru_store := s\<rparr>)"
| claim_fails: "ru_pc r t = Idle \<Longrightarrow> claim_next_job (ru_store r) = (Inl e, s) \<Longrightarrow> runner_step r (r\<lparr>ru_store := s\<rparr>)"
| register: "ru_pc r t = Claimed j \<Longrightarrow>
    runner_step r (worker_at t (Working j) (r\<lparr>ru_cancels := insert (jb_id j) (ru_cancels r)\<rparr>))"
| work: "ru_pc r t = Working j \<Longrightarrow> outside_call q \<Longrightarrow> runner_step r (store_call q r)"
| worked: "ru_pc r t = Working j \<Longrightarrow> runner_step r (worker_at t (Collecting j res killed) r)"
| collected: "ru_pc r t = Collecting j res killed \<Longrightarrow> runner_step r (collect t j res killed r)"
| finished: "ru_pc r t = Finishing j (st, msg, n) \<Longrightarrow>
    runner_step r (worker_at t Idle (store_call (FinishJob (jb_id j) st msg n) r))"
| cancel: "runner_step r (snd (cancel_running i r))"
| api: "outside_call q \<Longrightarrow> runner_step r (store_call q r)"
| world: "s_db s = s_db (ru_store r) \<Longrightarrow> runner_step r (r\<lparr>ru_store := s\<rparr>)"

text \<open>
  \<^verbatim>\<open>Start\<close> on a database as the process finds it: \<^verbatim>\<open>FailInterrupted\<close>, whose error is dropped, then the
  workers.
\<close>

definition started :: "store \<Rightarrow> runner" where
  "started s = \<lparr>ru_store = exec FailInterrupted s, ru_cancels = {}, ru_cancelled = {}, ru_pc = (\<lambda>_. Idle)\<rparr>"

inductive runner_reached :: "runner \<Rightarrow> bool" where
  start: "db_ok (s_db s) \<Longrightarrow> runner_reached (started s)"
| step: "runner_reached r \<Longrightarrow> runner_step r r' \<Longrightarrow> runner_reached r'"

inductive_cases runner_stepE: "runner_step r r'"

subsection \<open>The invariant\<close>

fun job_of :: "worker_pc \<Rightarrow> job option" where
  "job_of Idle = None"
| "job_of (Claimed j) = Some j"
| "job_of (Working j) = Some j"
| "job_of (Collecting j res k) = Some j"
| "job_of (Finishing j res) = Some j"

fun registered :: "worker_pc \<Rightarrow> job option" where
  "registered (Working j) = Some j"
| "registered (Collecting j res k) = Some j"
| "registered _ = None"

definition held :: "runner \<Rightarrow> nat \<Rightarrow> int \<Rightarrow> bool" where
  "held r t i \<longleftrightarrow> (\<exists>j. job_of (ru_pc r t) = Some j \<and> jb_id j = i)"

definition runner_inv :: "runner \<Rightarrow> bool" where
  "runner_inv r \<longleftrightarrow> db_ok (s_db (ru_store r)) \<and>
     (\<forall>t i. held r t i \<longrightarrow> board (s_db (ru_store r)) i = Some ''running'') \<and>
     (\<forall>t u i. held r t i \<longrightarrow> held r u i \<longrightarrow> t = u) \<and>
     (\<forall>i. i \<in> ru_cancels r \<longleftrightarrow> (\<exists>t j. registered (ru_pc r t) = Some j \<and> jb_id j = i)) \<and>
     ru_cancelled r \<subseteq> ru_cancels r"

lemma held_at [simp]:
  "held (worker_at t pc r) u i \<longleftrightarrow> (if u = t then \<exists>j. job_of pc = Some j \<and> jb_id j = i else held r u i)"
  by (simp add: held_def worker_at_def)

lemma held_fields [simp]:
  "held (r\<lparr>ru_store := s\<rparr>) = held r" "held (r\<lparr>ru_cancels := c\<rparr>) = held r" "held (r\<lparr>ru_cancelled := c\<rparr>) = held r"
  "held (store_call q r) = held r" "held (started s) u i = False"
  by (simp_all add: held_def fun_eq_iff store_call_def started_def)

lemma at_fields [simp]:
  "ru_store (worker_at t pc r) = ru_store r" "ru_cancels (worker_at t pc r) = ru_cancels r"
  "ru_cancelled (worker_at t pc r) = ru_cancelled r" "ru_pc (worker_at t pc r) = (ru_pc r)(t := pc)"
  by (simp_all add: worker_at_def)

lemma call_fields [simp]:
  "ru_store (store_call q r) = exec q (ru_store r)" "ru_cancels (store_call q r) = ru_cancels r"
  "ru_cancelled (store_call q r) = ru_cancelled r" "ru_pc (store_call q r) = ru_pc r"
  by (simp_all add: store_call_def)

lemma started_inv: "db_ok (s_db s) \<Longrightarrow> runner_inv (started s)"
  using exec_ok [of s FailInterrupted] by (simp add: runner_inv_def) (simp add: started_def)

lemma registered_job: "registered pc = Some j \<Longrightarrow> job_of pc = Some j"
  by (cases pc) auto

lemma claim_board:
  assumes ok: "db_ok (s_db s)" and c: "claim_next_job s = (Inr (Some j), s')"
  shows "board (s_db s) (jb_id j) = Some ''queued''" "board (s_db s') = (board (s_db s))(jb_id j \<mapsto> ''running'')"
    "\<And>k. board (s_db s) k = Some ''queued'' \<Longrightarrow> jb_id j \<le> k"
proof -
  let ?d = "s_db s"
  from sql_Inr [OF c [unfolded claim_next_job_def]] obtain q where
    q: "first_queued (db_jobs ?d) = Some q" "jb_id j = jb_id q"
    and s': "s_db s' = ?d\<lparr>db_jobs := update_where (\<lambda>r. jb_id r = jb_id q) (\<lambda>r. r\<lparr>jb_status := ''running''\<rparr>) (db_jobs ?d)\<rparr>"
    by (auto split: option.splits)
  show b: "board ?d (jb_id j) = Some ''queued''"
    using first_queuedD(1,2) [OF ok q(1)] by (simp add: board_row ok q(2))
  show "board (s_db s') = (board ?d)(jb_id j \<mapsto> ''running'')"
    using b unfolding s' q(2) by (subst board_update_one [of _ "''running''"]) (auto simp: fun_eq_iff board_None [symmetric])
  show "jb_id j \<le> k" if "board ?d k = Some ''queued''" for k
    using first_queuedD(3) [OF ok q(1)] that q(2) by (auto simp: board_Some [OF db_okD(4) [OF ok]])
qed

lemma claim_other:
  assumes "claim_next_job s = (r, s')" "\<And>j. r \<noteq> Inr (Some j)"
  shows "s_db s' = s_db s"
  using assms unfolding claim_next_job_def by (elim sqlE) (auto split: option.splits)

lemma claim_ok: "db_ok (s_db s) \<Longrightarrow> claim_next_job s = (r, s') \<Longrightarrow> db_ok (s_db s')"
  using exec_ok [of s ClaimNextJob] by simp

text \<open>A step that keeps the workers' places and what runs.\<close>

lemma inv_store:
  assumes "runner_inv r" "db_ok (s_db s)"
    "\<And>i. board (s_db (ru_store r)) i = Some ''running'' \<Longrightarrow> board (s_db s) i = Some ''running''"
  shows "runner_inv (r\<lparr>ru_store := s\<rparr>)"
  using assms unfolding runner_inv_def by simp

lemma inv_call:
  assumes "runner_inv r" "outside_call q"
  shows "runner_inv (store_call q r)"
proof -
  have ok: "db_ok (s_db (ru_store r))" and q: "is_calm q"
    using assms by (simp_all add: runner_inv_def outside_call_def)
  show ?thesis unfolding store_call_def
    by (rule inv_store [OF assms(1) exec_ok [OF ok]]) (rule calm_running [OF exec_calm_step [OF ok q]])
qed

text \<open>A worker that keeps its job through a step that keeps the rest.\<close>

lemma inv_move:
  assumes "runner_inv r" "job_of pc = job_of (ru_pc r t)" "registered pc = registered (ru_pc r t)"
  shows "runner_inv (worker_at t pc r)"
proof -
  have "held (worker_at t pc r) = held r" using assms(2) by (auto simp: fun_eq_iff held_def)
  moreover have "registered (((ru_pc r)(t := pc)) u) = registered (ru_pc r u)" for u using assms(3) by simp
  ultimately show ?thesis using assms(1) unfolding runner_inv_def by (simp del: held_at fun_upd_apply)
qed

lemma inv_claim:
  assumes inv: "runner_inv r" and idle: "ru_pc r t = Idle" and c: "claim_next_job (ru_store r) = (Inr (Some j), s)"
  shows "runner_inv (worker_at t (Claimed j) (r\<lparr>ru_store := s\<rparr>))"
proof -
  have ok: "db_ok (s_db (ru_store r))" using inv by (simp add: runner_inv_def)
  note b = claim_board [OF ok c]
  have fresh: "\<not> held r u (jb_id j)" for u using inv b(1) by (auto simp: runner_inv_def)
  have reg: "registered (((ru_pc r)(t := Claimed j)) u) = registered (ru_pc r u)" for u using idle by simp
  show ?thesis
    using inv b(2) fresh claim_ok [OF ok c] unfolding runner_inv_def
    by (auto simp: reg simp del: fun_upd_apply) (auto simp: fresh)
qed

lemma held_one: "runner_inv r \<Longrightarrow> job_of (ru_pc r t) = Some j \<Longrightarrow> held r u (jb_id j) \<Longrightarrow> u = t"
  unfolding runner_inv_def held_def by blast

lemma inv_register:
  assumes inv: "runner_inv r" and pc: "ru_pc r t = Claimed j"
  shows "runner_inv (worker_at t (Working j) (r\<lparr>ru_cancels := insert (jb_id j) (ru_cancels r)\<rparr>))"
proof -
  have "held (worker_at t (Working j) (r\<lparr>ru_cancels := insert (jb_id j) (ru_cancels r)\<rparr>)) = held r"
    using pc by (auto simp: fun_eq_iff held_def)
  moreover have "(\<exists>u k. registered (((ru_pc r)(t := Working j)) u) = Some k \<and> jb_id k = i) \<longleftrightarrow>
      i = jb_id j \<or> (\<exists>u k. registered (ru_pc r u) = Some k \<and> jb_id k = i)" for i
  proof
    assume "i = jb_id j \<or> (\<exists>u k. registered (ru_pc r u) = Some k \<and> jb_id k = i)"
    then show "\<exists>u k. registered (((ru_pc r)(t := Working j)) u) = Some k \<and> jb_id k = i"
    proof (elim disjE exE conjE)
      fix u k
      assume k: "registered (ru_pc r u) = Some k" "jb_id k = i"
      then have "u \<noteq> t" using pc by auto
      with k show ?thesis by (intro exI [of _ u] exI [of _ k]) simp
    qed (auto intro: exI [of _ t])
  qed (auto split: if_splits)
  ultimately show ?thesis using inv unfolding runner_inv_def by (simp del: held_at fun_upd_apply) blast
qed

lemma inv_collect:
  assumes inv: "runner_inv r" and pc: "ru_pc r t = Collecting j res killed"
  shows "runner_inv (collect t j res killed r)"
proof -
  let ?r = "collect t j res killed r"
  have "held ?r = held r" using pc by (auto simp: fun_eq_iff held_def collect_def)
  moreover have "(\<exists>u k. registered (ru_pc ?r u) = Some k \<and> jb_id k = i) \<longleftrightarrow>
      i \<noteq> jb_id j \<and> (\<exists>u k. registered (ru_pc r u) = Some k \<and> jb_id k = i)" for i
  proof
    assume "\<exists>u k. registered (ru_pc ?r u) = Some k \<and> jb_id k = i"
    then obtain u k where k: "u \<noteq> t" "registered (ru_pc r u) = Some k" "jb_id k = i"
      by (auto simp: collect_def split: if_splits)
    have "i \<noteq> jb_id j"
    proof
      assume "i = jb_id j"
      with k have "held r u (jb_id j)" by (auto simp: held_def dest: registered_job)
      with held_one [OF inv, of t j u] pc k(1) show False by simp
    qed
    with k show "i \<noteq> jb_id j \<and> (\<exists>u k. registered (ru_pc r u) = Some k \<and> jb_id k = i)" by blast
  next
    assume "i \<noteq> jb_id j \<and> (\<exists>u k. registered (ru_pc r u) = Some k \<and> jb_id k = i)"
    then obtain u k where k: "registered (ru_pc r u) = Some k" "jb_id k = i" "i \<noteq> jb_id j" by blast
    then have "u \<noteq> t" using pc by auto
    with k show "\<exists>u k. registered (ru_pc ?r u) = Some k \<and> jb_id k = i"
      by (intro exI [of _ u] exI [of _ k]) (simp add: collect_def)
  qed
  moreover have "ru_store ?r = ru_store r" "ru_cancels ?r = ru_cancels r - {jb_id j}"
    "ru_cancelled ?r = ru_cancelled r - {jb_id j}" by (simp_all add: collect_def)
  ultimately show ?thesis using inv unfolding runner_inv_def by (simp del: held_at) blast
qed

lemma inv_finish:
  assumes inv: "runner_inv r" and pc: "ru_pc r t = Finishing j (st, msg, n)"
  shows "runner_inv (worker_at t Idle (store_call (FinishJob (jb_id j) st msg n) r))"
proof -
  let ?q = "FinishJob (jb_id j) st msg n" and ?s = "ru_store r"
  have ok: "db_ok (s_db ?s)" using inv by (simp add: runner_inv_def)
  have keep: "board (s_db (exec ?q ?s)) i = Some ''running''" if "u \<noteq> t" "held r u i" for u i
  proof (rule exec_running [OF ok])
    have "i \<noteq> jb_id j"
    proof
      assume "i = jb_id j"
      with that(2) held_one [OF inv, of t j u] pc that(1) show False by simp
    qed
    then show "leaves_job i ?q" by simp
    show "board (s_db ?s) i = Some ''running''" using inv that(2) by (auto simp: runner_inv_def)
  qed
  have reg: "registered (((ru_pc r)(t := Idle)) u) = registered (ru_pc r u)" for u using pc by simp
  show ?thesis
    using inv keep exec_ok [OF ok, of ?q] unfolding runner_inv_def by (auto simp: reg simp del: fun_upd_apply exec.simps)
qed

lemma inv_cancel: "runner_inv r \<Longrightarrow> runner_inv (snd (cancel_running i r))"
  by (simp add: cancel_running_def runner_inv_def)

lemma runner_step_inv:
  assumes "runner_step r r'" "runner_inv r"
  shows "runner_inv r'"
  using assms(1)
proof cases
  case (claim t j s)
  then show ?thesis using inv_claim [OF assms(2)] by simp
next
  case (claim_none t s)
  then have "s_db s = s_db (ru_store r)" by (auto dest: claim_other)
  with claim_none assms(2) show ?thesis by (auto intro: inv_store simp: runner_inv_def)
next
  case (claim_fails t e s)
  then have "s_db s = s_db (ru_store r)" by (auto dest: claim_other)
  with claim_fails assms(2) show ?thesis by (auto intro: inv_store simp: runner_inv_def)
next
  case (register t j)
  then show ?thesis using inv_register [OF assms(2)] by simp
next
  case (work t j q)
  then show ?thesis using inv_call [OF assms(2)] by simp
next
  case (worked t j res killed)
  then show ?thesis using inv_move [OF assms(2), of "Collecting j res killed" t] by simp
next
  case (collected t j res killed)
  then show ?thesis using inv_collect [OF assms(2)] by simp
next
  case (finished t j st msg n)
  then show ?thesis using inv_finish [OF assms(2)] by simp
next
  case (cancel i)
  then show ?thesis using inv_cancel [OF assms(2)] by simp
next
  case (api q)
  then show ?thesis using inv_call [OF assms(2)] by simp
next
  case (world s)
  with assms(2) show ?thesis by (auto intro: inv_store simp: runner_inv_def)
qed

lemma runner_reached_inv: "runner_reached r \<Longrightarrow> runner_inv r"
  by (induction rule: runner_reached.induct) (auto intro: started_inv runner_step_inv)

end
