(* ===== verification/JobFrames.thy ===== *)
theory JobFrames
  imports Runner JobProps
begin

text \<open>
  What the work on a job does to the database, whatever its outcome: it goes through the calls of one
  interface, so a relation that these calls keep is kept by a scan, by a refresh and by a whole job.
\<close>

subsection \<open>Parts that leave the database alone\<close>

lemma on_world_store_same: "on_world f m = (a, m') \<Longrightarrow> m_store m' = m_store m"
  by (auto simp: on_world_def split: prod.splits)

lemma ctx_done_store_same: "ctx_done m = (b, m') \<Longrightarrow> m_store m' = m_store m"
  by (auto simp: ctx_done_def split: list.splits bool.splits)

lemma visit_store: "visit_file p name link info acc m = (acc', m') \<Longrightarrow> m_store m' = m_store m"
  by (cases "on_world (os_remove p) m")
    (auto simp: visit_file_def remove_stale_temp_def Let_def dest: on_world_store_same split: if_splits sum.splits prod.splits)

lemma walk_store:
  "m_store (snd (walk_node r p t acc m)) = m_store m"
  "m_store (snd (walk_list p ks acc m)) = m_store m"
proof (induction r p t acc m and p ks acc m rule: walk_node_walk_list.induct)
  case (1 r p name link info acc m)
  obtain b m1 where c: "ctx_done m = (b, m1)" by fastforce
  obtain a m2 where v: "visit_file p name link info acc m1 = (a, m2)" by fastforce
  from ctx_done_store_same [OF c] visit_store [OF v] c v show ?case by (cases b) simp_all
next
  case (2 r p name unreadable kids acc m)
  obtain b m1 where c: "ctx_done m = (b, m1)" by fastforce
  with 2 ctx_done_store_same [OF c] show ?case by (cases b) simp_all
next
  case (3 p acc m)
  then show ?case by simp
next
  case (4 p k ks acc m)
  let ?q = "path_join p (case k of WFile n _ _ \<Rightarrow> n | WDir n _ _ \<Rightarrow> n)"
  obtain x m1 where w: "walk_node False ?q k acc m = (x, m1)" by fastforce
  show ?case
  proof (cases x)
    case (Inl e)
    with 4(1) w show ?thesis by simp
  next
    case (Inr a)
    with 4(1) 4(2) [OF w [symmetric] Inr] w show ?thesis by simp
  qed
qed

lemma sidecar_rows_keep: "sidecar_rows dir sizes ss m = (rows, m') \<Longrightarrow> m_store m' = m_store m"
  by (induction ss arbitrary: m rows)
    (auto simp: sidecar_size_def split: prod.splits option.splits dest!: on_world_store_same)

subsection \<open>The interface\<close>

locale media_frame = db_frame +
  assumes keeps_upsert: "keeps (on_db R) (upsert_media_file f)"
    and keeps_touch: "keeps (on_db R) (touch_file i n sm ts)"
    and keeps_bulk: "keeps (on_db R) (touch_files_bulk ids ts)"
    and keeps_replace: "keeps (on_db R) (replace_sidecars i scs)"
    and keeps_prune: "keeps (on_db R) (prune_files i ts)"
    and keeps_outside: "keeps (on_db R) (prune_files_outside i p)"
    and keeps_drop: "keeps (on_db R) (delete_sidecar_row i)"
    and keeps_mark: "keeps (on_db R) (mark_library_scanned i ts)"
begin

abbreviation (input) V :: "machine \<Rightarrow> machine \<Rightarrow> bool" where
  "V \<equiv> via_store (on_db R)"

lemma V_frame: "frame V"
  by (rule via_frame) (rule is_frame)

lemma V_refl: "V m m" and V_trans: "V a b \<Longrightarrow> V b c \<Longrightarrow> V a c"
  using V_frame by (auto simp: frame_def)

lemma V_same: "m_store m' = m_store m \<Longrightarrow> V m m'"
  using frame.frame_refl [OF is_frame] by (simp add: via_store_def)

lemma V_bind: "keeps V m \<Longrightarrow> (\<And>a. keeps V (f a)) \<Longrightarrow> keeps V (andthen m f)"
  by (rule frame.keeps_andthen [OF V_frame])

lemma V_ret: "keeps V (ret a)"
  by (rule frame.keeps_ret [OF V_frame])

lemma V_query: "keeps V (on_store e (query f))"
  by (rule on_store_keeps) (rule query_keeps)

lemmas V_calls = on_store_keeps [OF keeps_upsert] on_store_keeps [OF keeps_touch] on_store_keeps [OF keeps_bulk]
  on_store_keeps [OF keeps_replace] on_store_keeps [OF keeps_prune] on_store_keeps [OF keeps_outside]
  on_store_keeps [OF keeps_drop] on_store_keeps [OF keeps_mark]

lemma V_finish_one: "keeps V f \<Longrightarrow> keeps V (finish_one i f)"
  by (rule keepsI) (auto simp: finish_one_def dest: keepsD split: prod.splits sum.splits)

lemma V_refresh_known: "keeps V (refresh_known i n sm scs ts)"
  unfolding refresh_known_def by (intro V_bind V_calls)

lemma V_probe_and_store: "keeps V (probe_and_store sn lib p nd sm scs i ts)"
  by (rule keepsI)
    (auto simp: probe_and_store_def V_refl split: sum.splits option.splits prod.splits
      dest!: keepsD [OF V_calls(1)] keepsD [OF V_finish_one [OF V_calls(4)]] intro: V_trans)

lemma V_scan_one: "keeps V (scan_one sn lib p info sib sizes ts)"
proof (rule keepsI)
  fix m r m'
  assume s: "scan_one sn lib p info sib sizes ts m = (r, m')"
  obtain st m1 where st: "on_world (os_stat p) m = (st, m1)" by fastforce
  let ?own = "own_sidecars (trim_suffix (base_name p) (file_ext p)) sib"
  obtain scs m2 where scs: "sidecar_rows (dir_name p) sizes ?own m1 = (scs, m2)" by fastforce
  obtain x m3 where q: "on_store LookupFailed (get_file_by_path_meta p) m2 = (x, m3)" by fastforce
  have "V m m2" by (rule V_same) (simp add: sidecar_rows_keep [OF scs] on_world_store_same [OF st])
  moreover have "V m2 m3" using q unfolding get_file_by_path_meta_def by (rule keepsD [OF V_query])
  moreover have "V m3 m'"
    using s st scs q
    by (auto simp: scan_one_def Let_def V_refl split: sum.splits if_splits
        dest: keepsD [OF V_finish_one [OF V_refresh_known]] keepsD [OF V_probe_and_store])
  ultimately show "V m m'" by (blast intro: V_trans)
qed

lemma V_scan_videos: "keeps V (scan_videos sn lib start acc vs pending bad)"
proof (induction vs arbitrary: pending bad)
  case Nil
  show ?case by (rule keepsI) (simp add: V_refl)
next
  case (Cons v vs)
  show ?case
  proof (rule keepsI)
    fix m r m'
    assume s: "scan_videos sn lib start acc (v # vs) pending bad m = (r, m')"
    obtain p nd where v: "v = (p, nd)" by (cases v)
    obtain b m1 where c: "ctx_done m = (b, m1)" by fastforce
    have 1: "V m m1" by (rule V_same [OF ctx_done_store_same [OF c]])
    obtain u i e m2 where o: "scan_one sn lib p nd (names_in (dir_name p) acc) (Some (wa_sizes acc)) start m1 = ((u, i, e), m2)"
      by (metis prod_cases3 surj_pair)
    have 2: "V m1 m2" by (rule keepsD [OF V_scan_one o])
    show "V m m'"
    proof (cases b)
      case True
      with s v c 1 show ?thesis by simp
    next
      case False
      with s v c o have "V m2 m'" by (auto simp: Let_def dest: keepsD [OF Cons])
      with 1 2 show ?thesis by (blast intro: V_trans)
    qed
  qed
qed

lemma V_guarded_prune: "keeps V (guarded_prune sn lib start)"
  unfolding guarded_prune_def count_files_by_library_def count_stale_files_def
  by (intro V_bind V_query) (auto intro!: V_ret V_bind V_calls)

lemma V_no_videos: "keeps V (no_videos_but_records lib)"
  by (rule keepsI)
    (auto simp: no_videos_but_records_def count_files_by_library_def dest: keepsD [OF V_query] split: prod.splits sum.splits)

lemma V_finish_scan: "keeps V (finish_scan sn lib start videos pending bad)"
proof -
  have last: "keeps V (\<lambda>m. case (if videos = [] then no_videos_but_records lib m else (False, m)) of (none, m1) \<Rightarrow>
           (if none \<or> bad then ret () m1 else guarded_prune sn lib start m1))"
    by (rule keepsI)
      (auto split: if_splits prod.splits simp: V_refl dest: keepsD [OF V_no_videos] keepsD [OF V_guarded_prune] intro: V_trans)
  show ?thesis
    unfolding finish_scan_def get_library_def by (intro V_bind V_query) (auto intro!: V_ret V_bind V_calls last)
qed

lemma V_walk: "keeps V (walk rp tree)"
proof (rule keepsI)
  fix m r m'
  assume "walk rp tree m = (r, m')"
  then have "m_store m' = m_store m"
    using walk_store(1) by (auto simp: walk_def Let_def split: option.splits) (metis snd_conv)
  then show "V m m'" by (rule V_same)
qed

lemma V_scan_library: "keeps V (scan_library sn tree lib)"
proof (rule keepsI)
  fix m r m'
  assume s: "scan_library sn tree lib m = (r, m')"
  obtain st m0 where st: "on_world (os_stat (lb_path lib)) m = (st, m0)" by fastforce
  have 0: "V m m0" by (rule V_same [OF on_world_store_same [OF st]])
  have "keeps V (andthen (walk (walk_root (lb_path lib)) tree) (\<lambda>acc.
          andthen (scan_videos sn lib start acc (sort_key fst (wa_videos acc)) [] (wa_err acc)) (\<lambda>(pending, bad).
          finish_scan sn lib start (sort_key fst (wa_videos acc)) pending bad)))" for start
    by (intro V_bind V_walk V_scan_videos) (auto intro: V_finish_scan)
  with s st have "m' = m0 \<or> V m0 m'"
    by (auto simp: scan_library_def Let_def dest: keepsD split: if_splits)
  with 0 show "V m m'" by (auto intro: V_trans)
qed

lemma V_scan_file: "keeps V (scan_file sn entries lib p)"
proof (rule keepsI)
  fix m r m'
  assume s: "scan_file sn entries lib p m = (r, m')"
  obtain st m1 where st: "on_world (os_stat p) m = (st, m1)" by fastforce
  have 1: "V m m1" by (rule V_same [OF on_world_store_same [OF st]])
  show "V m m'"
  proof (cases "\<exists>i nd sibs. st = Some (i, nd) \<and> entries = Some sibs")
    case False
    with s st 1 show ?thesis by (auto simp: scan_file_def split: option.splits)
  next
    case True
    then obtain i nd sibs where a: "st = Some (i, nd)" "entries = Some sibs" by blast
    obtain u k e m2 where o: "scan_one sn lib p nd sibs None (clock m1) m1 = ((u, k, e), m2)"
      by (metis prod_cases3 surj_pair)
    have "m' = m2" using s st a o by (cases e) (auto simp: scan_file_def)
    with 1 keepsD [OF V_scan_one o] show ?thesis by (auto intro: V_trans)
  qed
qed

lemma V_get_file: "keeps V (on_store e (get_file i))"
proof (rule on_store_keeps)
  note [intro!] = frame.keeps_andthen [OF is_frame] frame.keeps_ret [OF is_frame] query_keeps
  show "keeps (on_db R) (get_file i)" unfolding get_file_def by (auto split: option.splits)
qed

lemma V_refresh: "V m (refresh_file ev fid m)"
proof (cases "fid = 0")
  case True
  then show ?thesis by (simp add: refresh_file_def V_refl)
next
  case False
  obtain x m1 where f: "on_store StoreFailed (get_file fid) m = (x, m1)" by fastforce
  have 1: "V m m1" by (rule keepsD [OF V_get_file f])
  show ?thesis
  proof (cases "\<exists>fl. x = Inr (Some fl)")
    case False
    with \<open>fid \<noteq> 0\<close> f 1 show ?thesis by (auto simp: refresh_file_def split: sum.splits option.splits)
  next
    case True
    then obtain fl where x: "x = Inr (Some fl)" by blast
    obtain y m2 where g: "on_store StoreFailed (get_library (mf_library fl)) m1 = (y, m2)" by fastforce
    have 2: "V m1 m2" using g unfolding get_library_def by (rule keepsD [OF V_query])
    have "V m2 (snd (scan_file sn es lib p m2))" for sn es lib p
      by (rule keepsD [OF V_scan_file]) (rule prod.collapse [symmetric])
    with False f x g V_trans [OF 1 2] show ?thesis
      by (auto simp: refresh_file_def split: sum.splits option.splits intro: V_trans)
  qed
qed

lemma V_world: "V m (m\<lparr>m_world := w\<rparr>)"
  by (rule V_same) simp

lemma V_policy: "allow_hardlink j b m = (r, m') \<Longrightarrow> V m m'"
proof -
  assume a: "allow_hardlink j b m = (r, m')"
  have k: "keeps (on_db R) (hardlink_policy_proceeds i)" for i
    by (rule keepsI)
      (auto simp: hardlink_policy_proceeds_def dest: keepsD [OF query_keeps] split: prod.splits sum.splits option.splits)
  with a show ?thesis
    by (auto simp: allow_hardlink_def via_store_def frame.frame_refl [OF is_frame] dest: keepsD [OF k] split: if_splits prod.splits)
qed

lemma V_engine_job: "keeps V (engine_job ev j f)"
  by (rule keepsI)
    (auto simp: engine_job_def V_refresh split: prod.splits sum.splits dest!: on_world_store_same V_same intro: V_trans V_refresh)

lemma V_stale: "stale_fingerprint ev j m = (msg, m') \<Longrightarrow> V m m'"
  by (rule V_same) (auto simp: stale_fingerprint_def split: option.splits prod.splits dest: on_world_store_same)

lemma V_file_job: "keeps V (file_job ev j)"
proof (rule keepsI)
  fix m r m'
  assume s: "file_job ev j m = (r, m')"
  obtain msg m1 where st: "stale_fingerprint ev j m = (msg, m1)" by fastforce
  have one: "V m1 m2" if "allow_hardlink j b m1 = (a, m0)" "engine_job ev j f m0 = (q, m2)" for a b m0 q m2 f
    using that by (blast intro: V_trans V_policy keepsD [OF V_engine_job])
  have "V m1 m'"
    using s st by (auto simp: file_job_def remux_job_def edit_job_def reorder_job_def merge_job_def V_refl
        split: if_splits option.splits prod.splits intro: one keepsD [OF V_engine_job])
  with V_stale [OF st] show "V m m'" by (rule V_trans)
qed

lemma V_sidecar_job: "sidecar_job ev j m = Some (r, m') \<Longrightarrow> V m m'"
proof -
  assume s: "sidecar_job ev j m = Some (r, m')"
  have warn: "V (m\<lparr>m_world := w\<rparr>) m1" if "sidecar_warning ev i (m\<lparr>m_world := w\<rparr>) = (x, m1)" for i w x m1
    using that by (auto simp: sidecar_warning_def V_refl split: if_splits prod.splits sum.splits dest!: keepsD [OF V_calls(7)])
  have "V m (refresh_file ev i m1)" if "sidecar_warning ev k (m\<lparr>m_world := w\<rparr>) = (x, m1)" for i k w x m1
    by (rule V_trans [OF V_world V_trans [OF warn [OF that] V_refresh]])
  with s show ?thesis
    by (auto simp: sidecar_job_def V_refl V_world split: option.splits prod.splits sum.splits)
qed

lemma V_scan_and_stamp: "keeps V (scan_and_stamp ev lib)"
  by (rule keepsI)
    (auto simp: scan_and_stamp_def split: prod.splits dest!: keepsD [OF V_scan_library] keepsD [OF V_calls(8)] intro: V_trans)

lemma V_scan_library_job: "keeps V (scan_library_job ev j)"
  by (rule keepsI)
    (auto simp: scan_library_job_def get_library_def V_refl Let_def split: prod.splits sum.splits option.splits
      dest!: keepsD [OF V_query] keepsD [OF V_scan_and_stamp] intro: V_trans)

lemma V_scan_each: "keeps V (scan_each ev libs t)"
proof (induction libs arbitrary: t)
  case Nil
  show ?case by (rule keepsI) (simp add: V_refl)
next
  case (Cons lib libs)
  show ?case
  proof (rule keepsI)
    fix m r m'
    assume s: "scan_each ev (lib # libs) t m = (r, m')"
    obtain scanned bad warns where t: "t = (scanned, bad, warns)" by (cases t)
    obtain b m1 where c: "ctx_done m = (b, m1)" by fastforce
    have 1: "V m m1" by (rule V_same [OF ctx_done_store_same [OF c]])
    obtain serr merr m2 where o: "scan_and_stamp ev lib m1 = ((serr, merr), m2)" by (metis surj_pair)
    have 2: "V m1 m2" by (rule keepsD [OF V_scan_and_stamp o])
    show "V m m'"
    proof (cases b)
      case True
      with s t c 1 show ?thesis by simp
    next
      case False
      with s t c o have "V m2 m'" by (auto simp: Let_def dest: keepsD [OF Cons] split: option.splits)
      with 1 2 show ?thesis by (blast intro: V_trans)
    qed
  qed
qed

lemma V_scan_all_job: "keeps V (scan_all_job ev)"
  by (rule keepsI)
    (auto simp: scan_all_job_def list_libraries_def V_refl split: prod.splits sum.splits
      dest!: keepsD [OF V_query] keepsD [OF V_scan_each] intro: V_trans)

lemma V_execute: "execute ev j m = Some (r, m') \<Longrightarrow> V m m'"
  by (auto simp: execute_def V_refl split: if_splits dest: keepsD [OF V_file_job] V_sidecar_job
      keepsD [OF V_scan_library_job] keepsD [OF V_scan_all_job])

end

subsection \<open>What keeps the board, what keeps the invariant\<close>

interpretation mb: media_frame same_board
  by unfold_locales (rule all_board_kept)+

interpretation mi: media_frame inv_db
  by unfold_locales (rule inv_ops)+

lemma execute_board:
  "execute ev j m = Some (r, m') \<Longrightarrow> board (s_db (m_store m')) = board (s_db (m_store m))"
  using mb.V_execute [of ev j m r m'] by (simp add: via_store_def on_db_def same_board_def)

lemma execute_ok: "execute ev j m = Some (r, m') \<Longrightarrow> db_ok (s_db (m_store m)) \<Longrightarrow> db_ok (s_db (m_store m'))"
  using mi.V_execute [of ev j m r m'] by (simp add: via_store_def on_db_def inv_db_def)

end
