(* ===== verification/RunnerProps.thy ===== *)
theory RunnerProps
  imports RunnerSteps JobFrames ScanProps
begin

text \<open>
  The properties of the job runner: one worker per job, every step a move of the board of statuses,
  cancellation that cannot get lost; and of one job: what its end may say and what it leaves of the file.
\<close>

subsection \<open>Workers\<close>

definition demo_runner :: runner where
  "demo_runner = started demo_store"

lemma demo_runner_reached: "runner_reached demo_runner"
  unfolding demo_runner_def by (rule runner_reached.start) (rule demo_ok)

lemma demo_claims:
  obtains j s where "claim_next_job (ru_store demo_runner) = (Inr (Some j), s)" "jb_id j = 2" "jb_type j = ''scan_all''"
proof -
  have "map_option (\<lambda>j. (jb_id j, jb_type j))
      (case fst (claim_next_job (exec FailInterrupted demo_store)) of Inr r \<Rightarrow> r | Inl _ \<Rightarrow> None) = Some (2, ''scan_all'')"
    by code_simp
  then show thesis
    by (cases "claim_next_job (exec FailInterrupted demo_store)")
      (auto simp: demo_runner_def started_def intro: that split: sum.splits)
qed

text \<open>The demo's worker 7, when it is about to collect job 2.\<close>

lemma demo_collecting:
  obtains r j where "runner_reached r" "ru_pc r 7 = Collecting j (''failed'', ''boom'', 0) False" "jb_id j = 2"
    "ru_cancels r = {2}"
proof -
  obtain j s where c: "claim_next_job (ru_store demo_runner) = (Inr (Some j), s)" "jb_id j = 2" by (rule demo_claims)
  have idle: "ru_pc demo_runner 7 = Idle" "ru_cancels demo_runner = {}" by (simp_all add: demo_runner_def started_def)
  let ?r1 = "worker_at 7 (Claimed j) (demo_runner\<lparr>ru_store := s\<rparr>)"
  let ?r2 = "worker_at 7 (Working j) (?r1\<lparr>ru_cancels := insert (jb_id j) (ru_cancels ?r1)\<rparr>)"
  let ?r3 = "worker_at 7 (Collecting j (''failed'', ''boom'', 0) False) ?r2"
  have "runner_reached ?r1" by (rule runner_reached.step [OF demo_runner_reached runner_step.claim [OF idle(1) c(1)]])
  then have "runner_reached ?r2" by (rule runner_reached.step [OF _ runner_step.register]) simp
  then have "runner_reached ?r3" by (rule runner_reached.step [OF _ runner_step.worked]) simp
  then show thesis by (rule that [of ?r3 j]) (use c(2) idle(2) in simp_all)
qed

text \<open>
  In every state the workers can reach, with the API calling whatever it likes in between, no two
  of them hold the same job, and a job that is held is running in the database.
\<close>

theorem one_worker_per_job:
  assumes "runner_reached r" "held r t i"
  shows "board (s_db (ru_store r)) i = Some ''running'' \<and> {u. held r u i} = {t}"
  using runner_reached_inv [OF assms(1)] assms(2) unfolding runner_inv_def by blast

lemma one_worker_per_job_witness: "\<exists>r. runner_reached r \<and> held r 7 2 \<and> {u. held r u 2} = {7}"
proof -
  obtain r j where r: "runner_reached r" "ru_pc r 7 = Collecting j (''failed'', ''boom'', 0) False" "jb_id j = 2"
    by (rule demo_collecting)
  then have "held r 7 2" by (simp add: held_def)
  with one_worker_per_job [OF r(1) this] r(1) show ?thesis by blast
qed

text \<open>
  C21: every step of the runner is a move of the board of job statuses, so only jobs that run are
  finished, a finished job stays as it is or is forgotten, and a claim takes the oldest queued job.
\<close>

theorem runner_refines_board:
  assumes "runner_reached r" "runner_step r r'"
  shows "board_step (board (s_db (ru_store r))) (board (s_db (ru_store r')))"
proof -
  have inv: "runner_inv r" by (rule runner_reached_inv [OF assms(1)])
  then have ok: "db_ok (s_db (ru_store r))" by (simp add: runner_inv_def)
  have call: "board_step (board (s_db (ru_store r))) (board (s_db (exec q (ru_store r))))" if "outside_call q" for q
    using that by (intro board_step.calm exec_calm_step [OF ok]) (simp add: outside_call_def)
  have stay: "board_step (board d) (board d)" for d by (rule board_step.calm [OF calm_step.stay])
  from assms(2) show ?thesis
  proof cases
    case (claim t j s)
    from claim_board [OF ok this(3)] this(1) show ?thesis by (simp add: board_step.calm calm_step.claim)
  next
    case (finished t j st msg n)
    then have "held r t (jb_id j)" by (simp add: held_def)
    with inv have "finishes_running (FinishJob (jb_id j) st msg n) (s_db (ru_store r))" by (auto simp: runner_inv_def)
    from exec_board_step [OF ok this] finished(1) show ?thesis by simp
  qed (use call stay in \<open>auto dest: claim_other simp: collect_def cancel_running_def\<close>)
qed

lemma runner_refines_board_witness:
  "\<exists>r r'. runner_step r r' \<and> board (s_db (ru_store r)) 2 = Some ''queued'' \<and>
     board_step (board (s_db (ru_store r))) (board (s_db (ru_store r'))) \<and> board (s_db (ru_store r')) 2 = Some ''running''"
proof -
  obtain j s where c: "claim_next_job (ru_store demo_runner) = (Inr (Some j), s)" "jb_id j = 2" by (rule demo_claims)
  have ok: "db_ok (s_db (ru_store demo_runner))" using runner_reached_inv [OF demo_runner_reached] by (simp add: runner_inv_def)
  have "ru_pc demo_runner 7 = Idle" by (simp add: demo_runner_def started_def)
  then have s: "runner_step demo_runner (worker_at 7 (Claimed j) (demo_runner\<lparr>ru_store := s\<rparr>))" by (rule runner_step.claim) (rule c(1))
  from runner_refines_board [OF demo_runner_reached this] s claim_board(1,2) [OF ok c(1)] c(2) show ?thesis
    by (intro exI conjI) auto
qed



subsection \<open>Jobs to run\<close>

definition demo_texts :: err_texts where
  "demo_texts = \<lparr>et_engine = (\<lambda>_. ''engine''), et_sidecar = (\<lambda>_. ''sidecar''), et_scan = (\<lambda>_. ''scan''),
     et_store = (\<lambda>_. ''store''), et_stat = (\<lambda>_. ''stat''), et_payload = (\<lambda>_. ''json''), et_ctx = ''context canceled''\<rparr>"

definition demo_rn :: runner_env where
  "demo_rn = \<lparr>rn_engine = demo_env False, rn_scanner = demo_scanner, rn_tree = (\<lambda>_ _. Some (demo_tree [])),
     rn_names = (\<lambda>_ _. Some [''a.mkv'']), rn_text = demo_texts\<rparr>"

text \<open>A removal that was queued for the file with the given size.\<close>

definition demo_job :: "int option \<Rightarrow> job" where
  "demo_job sz = \<lparr>jb_id = 9, jb_type = ''remux'', jb_file = None, jb_path = ''/m/a.mkv'',
     jb_payload = enc_remux \<lparr>rp_audio = [2], rp_subs = [], rp_hardlink = False, rp_last_audio = False\<rparr>,
     jb_status = ''running'', jb_attempts = 0, jb_fsize = sz, jb_fmtime = map_option (\<lambda>_. 7) sz, jb_log = '''',
     jb_saved = 0, jb_created = 0, jb_finished = 0\<rparr>"

lemma demo_job_stat: "os_stat ''/m/a.mkv'' (demo_world []) = (Some (5, demo_inode 1 RegularFile ''original''), demo_world [])"
  using follow_regular [OF demo_names_at(1) [of "[]"]]
  by (simp add: os_stat_def demo_fault demo_canon demo_inodes_at demo_inode_def)

subsection \<open>One job\<close>









text \<open>
  C23: a file job that was queued for a file of another size or modification time fails and touches
  nothing: the file system and the database are as they were.
\<close>

theorem stale_job_touches_nothing:
  assumes "jb_type j \<in> set file_job_types" "jb_fsize j = Some sz" "jb_fmtime j = Some mt"
    "fst (os_stat (jb_path j) (m_world m)) = Some (i, nd)" "in_size nd \<noteq> sz \<or> in_mtime nd \<noteq> mt"
  shows "\<exists>m'. execute ev j m = Some (failed changed_since_queued, m') \<and>
    same_files (m_world m) (m_world m') \<and> m_store m' = m_store m"
proof -
  obtain w where w: "os_stat (jb_path j) (m_world m) = (Some (i, nd), w)"
    using assms(4) by (metis prod.collapse)
  have "stale_fingerprint ev j m = (changed_since_queued, m\<lparr>m_world := w\<rparr>)"
    using assms(2,3,5) w by (simp add: stale_fingerprint_def on_world_def)
  then have "execute ev j m = Some (failed changed_since_queued, m\<lparr>m_world := w\<rparr>)"
    using assms(1) by (simp add: execute_def file_job_def changed_since_queued_def)
  with os_stat_same [OF w] show ?thesis by simp
qed

lemma stale_job_touches_nothing_witness:
  "\<exists>m'. execute demo_rn (demo_job (Some 999)) (demo_machine []) = Some (failed changed_since_queued, m') \<and>
     same_files (demo_world []) (m_world m')"
proof -
  have "fst (os_stat (jb_path (demo_job (Some 999))) (m_world (demo_machine []))) = Some (5, demo_inode 1 RegularFile ''original'')"
    by (simp add: demo_job_def demo_machine_def demo_job_stat)
  from stale_job_touches_nothing [OF _ _ _ this, of 999 7 demo_rn] show ?thesis
    by (simp add: demo_job_def demo_inode_def file_job_types_def) (auto simp: demo_machine_def)
qed

lemma unfinished_engine_job:
  assumes "engine_job ev j f m = ((st, msg, n), m')" "st \<noteq> ''done''" "keeps_err safe_err f"
  shows "safe_err (m_world m) (m_world m')"
  using assms by (auto simp: engine_job_def on_world_def split: prod.splits sum.splits if_splits dest: keeps_errD)

lemma policy_world: "allow_hardlink j b m = (a, m') \<Longrightarrow> m_world m' = m_world m"
  by (auto simp: allow_hardlink_def split: if_splits prod.splits)

text \<open>
  C13: a job that removes, reorders or merges tracks and does not end done leaves every file that
  existed as it was, whatever step failed or refused, and at most one temporary name.
\<close>

theorem unfinished_remux_spares_files:
  assumes "execute ev j m = Some ((st, msg, n), m')" "jb_type j \<in> {''remux'', ''reorder_tracks'', ''merge_tracks''}"
    "st \<noteq> ''done''" "remux_confined (rn_engine ev)" "tool_names (rn_engine ev)" "fs_ok (w_fs (m_world m))"
  shows "at_most_a_temp (m_world m) (m_world m')"
proof -
  have "jb_type j \<in> set file_job_types" "jb_type j \<noteq> ''edit_metadata''" using assms(2) by (auto simp: file_job_types_def)
  with assms(1) have f: "file_job ev j m = ((st, msg, n), m')" by (simp add: execute_def)
  obtain x m1 where st: "stale_fingerprint ev j m = (x, m1)" by fastforce
  have 1: "same_files (m_world m) (m_world m1)"
    using st by (auto simp: stale_fingerprint_def on_world_def split: option.splits prod.splits dest: os_stat_same)
  have stop: "safe_err w w" for w by (rule se.into) simp
  note errs = remove_tracks_err [OF assms(4,5)] reorder_tracks_err [OF assms(4)] merge_tracks_err [OF assms(4)]
  have "safe_err (m_world m1) (m_world m')"
  proof (cases "x = ''''")
    case False
    with f st stop show ?thesis by (auto simp: file_job_def)
  next
    case True
    have job: "safe_err (m_world m1) (m_world m')"
      if "allow_hardlink j b m1 = (a, m2)" "engine_job ev j g m2 = ((st, msg, n), m')" "keeps_err safe_err g" for b a m2 g
      using unfinished_engine_job [OF that(2) assms(3) that(3)] policy_world [OF that(1)] by simp
    from f st True \<open>jb_type j \<noteq> ''edit_metadata''\<close> stop job errs show ?thesis
      by (auto simp: file_job_def remux_job_def reorder_job_def merge_job_def split: if_splits option.splits prod.splits)
  qed
  with 1 have "safe_err (m_world m) (m_world m')" by (rule se.extend)
  with assms(6) show ?thesis by (simp add: safe_err_def)
qed

lemma unfinished_remux_spares_files_witness:
  "\<exists>st msg n m'. execute demo_rn (demo_job None) (demo_machine []) = Some ((st, msg, n), m') \<and> st \<noteq> ''done'' \<and>
     at_most_a_temp (demo_world []) (m_world m')"
proof -
  let ?j = "demo_job None" and ?m = "demo_machine []"
  have pol: "hardlink_policy_proceeds 0 demo_store = (False, demo_store)"
    by (simp add: prod_eq_iff) code_simp
  have "dec_remux (jb_payload ?j) = Some \<lparr>rp_audio = [2], rp_subs = [], rp_hardlink = False, rp_last_audio = False\<rparr>"
    by (simp add: demo_job_def)
  moreover have "stale_fingerprint demo_rn ?j ?m = ('''', ?m)" by (simp add: stale_fingerprint_def demo_job_def)
  moreover have "allow_hardlink ?j False ?m = (False, ?m)"
    by (simp add: allow_hardlink_def media_file_id_def demo_job_def demo_machine_def pol)
  ultimately have "execute demo_rn ?j ?m = Some (engine_job demo_rn ?j
      (remove_tracks (demo_env False) ''/m/a.mkv'' demo_spec (demo_opts False)) ?m)"
    by (simp add: execute_def file_job_def remux_job_def file_job_types_def demo_opts_def demo_rn_def)
      (simp add: demo_job_def)
  moreover obtain e w' where "remove_tracks (demo_env False) ''/m/a.mkv'' demo_spec (demo_opts False) (demo_world []) = (Inl e, w')"
    using demo_remove_fails by blast
  ultimately obtain st msg n m' where x: "execute demo_rn ?j ?m = Some ((st, msg, n), m')" "st \<noteq> ''done''"
    by (auto simp: engine_job_def on_world_def demo_machine_def)
  have "jb_type ?j \<in> {''remux'', ''reorder_tracks'', ''merge_tracks''}" by (simp add: demo_job_def)
  from unfinished_remux_spares_files [OF x(1) this x(2)] x demo_confined demo_names demo_fs_ok show ?thesis
    by (auto simp: demo_rn_def demo_machine_def)
qed

end
