(* ===== verification/Security.thy ===== *)
theory Security
  imports EngineRun
begin

text \<open>
  \<^verbatim>\<open>internal/api/security.go\<close> and the front door of \<^verbatim>\<open>internal/api/server.go\<close>: error messages,
  the allow-list of paths, the rate limiters, sessions, and the middleware that decides whether a
  request reaches a handler. Times are nanoseconds; one request sees one time. Random tokens come
  from the caller.
\<close>

subsection \<open>Errors a client may see\<close>

datatype api_err = ClientError string | InternalError string | BodyTooLarge

definition generic_msg :: "nat \<Rightarrow> string" where
  "generic_msg code =
     (if code = 400 then ''invalid request'' else if code = 403 then ''forbidden''
      else if code = 404 then ''not found'' else if code = 409 then ''conflict'' else ''internal error'')"

definition safe_message :: "nat \<Rightarrow> api_err \<Rightarrow> string \<times> bool" where
  "safe_message code e = (case e of ClientError msg \<Rightarrow> (msg, False) | _ \<Rightarrow> (generic_msg code, True))"

definition write_err :: "nat \<Rightarrow> api_err \<Rightarrow> nat \<times> string" where
  "write_err code e = (if e = BodyTooLarge then (413, ''request body too large'') else (code, fst (safe_message code e)))"

subsection \<open>The allow-list of paths\<close>

definition api_path_within :: "path \<Rightarrow> path \<Rightarrow> bool" where
  "api_path_within p rt \<longleftrightarrow>
     (case path_rel (clean rt) (clean p) of
        None \<Rightarrow> False
      | Some rel \<Rightarrow> rel \<noteq> ''..'' \<and> \<not> prefix (''..'' @ [sep]) rel)"

definition path_allowed :: "path \<Rightarrow> path list \<Rightarrow> bool" where
  "path_allowed p roots \<longleftrightarrow> list_ex (api_path_within p) roots"

fun unique_roots :: "path list \<Rightarrow> path list \<Rightarrow> world \<Rightarrow> path list \<times> world" where
  "unique_roots [] out w = (out, w)"
| "unique_roots (r # rs) out w =
     (let t = trim_space r in
      if t = '''' then unique_roots rs out w
      else case real_path t w of (p, w1) \<Rightarrow> unique_roots rs (if p \<in> set out then out else out @ [p]) w1)"

definition child_towards :: "path \<Rightarrow> path \<Rightarrow> string option" where
  "child_towards p rt =
     (let pre = (if suffix [sep] p then p else p @ [sep]) in
      if rt = p \<or> \<not> prefix pre rt then None
      else let rest = takeWhile (\<lambda>c. c \<noteq> sep) (drop (length pre) rt) in if rest = '''' then None else Some rest)"

definition root_children :: "path \<Rightarrow> path list \<Rightarrow> string list" where
  "root_children p roots = sort (remdups (List.map_filter (child_towards p) roots))"

definition bootstrap_browse_roots :: "path list" where
  "bootstrap_browse_roots =
     [''/media'', ''/mnt'', ''/data'', ''/tv'', ''/movies'', ''/music'', ''/srv'', ''/storage'', ''/Volumes'']"

fun existing_dirs :: "path list \<Rightarrow> world \<Rightarrow> path list \<times> world" where
  "existing_dirs [] w = ([], w)"
| "existing_dirs (p # ps) w =
     (case os_stat p w of (st, w1) \<Rightarrow>
      case existing_dirs ps w1 of (out, w2) \<Rightarrow>
        ((case st of Some (_, nd) \<Rightarrow> if in_kind nd = Dir then p # out else out | None \<Rightarrow> out), w2))"

text \<open>\<open>home\<close> is the answer of \<^verbatim>\<open>os.UserHomeDir\<close>.\<close>

definition default_browse_roots :: "path option \<Rightarrow> world \<Rightarrow> path list \<times> world" where
  "default_browse_roots home w =
     existing_dirs (bootstrap_browse_roots @
       (case home of Some h \<Rightarrow> if h \<noteq> '''' \<and> h \<noteq> ''/'' then [h] else [] | None \<Rightarrow> [])) w"

subsection \<open>Requests\<close>

text \<open>Header names in canonical form; \<^verbatim>\<open>Get\<close> is the first value or empty.\<close>

record request_head =
  hr_method :: string
  hr_path :: string
  hr_remote :: string
  hr_tls :: bool
  hr_headers :: "(string \<times> string) list"
  hr_cookies :: "(string \<times> string) list"

definition header :: "string \<Rightarrow> request_head \<Rightarrow> string" where
  "header k r = (case map_of (hr_headers r) k of Some v \<Rightarrow> v | None \<Rightarrow> '''')"

definition csrf_header :: string where "csrf_header = ''X-Requested-With''"
definition csrf_value :: string where "csrf_value = ''muxprune''"
definition session_cookie :: string where "session_cookie = ''mp_session''"

definition request_is_tls :: "request_head \<Rightarrow> bool" where
  "request_is_tls r \<longleftrightarrow>
     hr_tls r \<or> equal_fold (trim_space (takeWhile (\<lambda>c. c \<noteq> CHR '','') (header ''X-Forwarded-Proto'' r))) ''https''"

text \<open>\<^verbatim>\<open>net.SplitHostPort\<close>, its host or an error.\<close>

definition split_host :: "string \<Rightarrow> string option" where
  "split_host s =
     (let before = rev (tl (dropWhile (\<lambda>c. c \<noteq> CHR '':'') (rev s))); port = rev (takeWhile (\<lambda>c. c \<noteq> CHR '':'') (rev s)) in
      if CHR '':'' \<notin> set s then None
      else if hd s = CHR ''['' then
        (let inner = takeWhile (\<lambda>c. c \<noteq> CHR '']'') (tl s); rest = dropWhile (\<lambda>c. c \<noteq> CHR '']'') (tl s) in
         if rest = [] \<or> length inner + 2 \<noteq> length before then None
         else if CHR ''['' \<in> set (tl s) \<or> CHR '']'' \<in> set (tl rest) then None
         else Some inner)
      else if CHR '':'' \<in> set before then None
      else if CHR ''['' \<in> set s \<or> CHR '']'' \<in> set s then None
      else Some before)"

definition client_ip :: "request_head \<Rightarrow> string" where
  "client_ip r = (case split_host (hr_remote r) of Some h \<Rightarrow> h | None \<Rightarrow> hr_remote r)"

definition mutating_method :: "string \<Rightarrow> bool" where
  "mutating_method m \<longleftrightarrow> m \<noteq> ''GET'' \<and> m \<noteq> ''HEAD'' \<and> m \<noteq> ''OPTIONS''"

subsection \<open>Media types\<close>

text \<open>\<^verbatim>\<open>mime.ParseMediaType\<close>: the type, or nothing when there is an error.\<close>

definition token_char :: "char \<Rightarrow> bool" where
  "token_char c \<longleftrightarrow> 0x20 < (of_char c :: nat) \<and> (of_char c :: nat) < 0x7F \<and> c \<notin> set ''()<>@,;:/[]?='' \<and>
     c \<noteq> CHR 0x22 \<and> c \<noteq> CHR 0x5C"

definition special_char :: "char \<Rightarrow> bool" where
  "special_char c \<longleftrightarrow> c \<in> set ''()<>@,;:/[]?='' \<or> c = CHR 0x22 \<or> c = CHR 0x5C"

fun quoted :: "string \<Rightarrow> string \<Rightarrow> (string \<times> string) option" where
  "quoted [] acc = None"
| "quoted (c # s) acc =
     (if c = CHR 0x22 then Some (rev acc, s)
      else if c = CHR 0x0D \<or> c = CHR 0x0A then None
      else case s of
        d # s' \<Rightarrow> if c = CHR 0x5C \<and> special_char d then quoted s' (d # acc) else quoted s (c # acc)
      | [] \<Rightarrow> None)"

definition token_span :: "string \<Rightarrow> string \<times> string" where
  "token_span v = (takeWhile token_char v, dropWhile token_char v)"

definition media_value :: "string \<Rightarrow> (string \<times> string) option" where
  "media_value v =
     (case v of
        [] \<Rightarrow> None
      | c # s \<Rightarrow> if c = CHR 0x22 then quoted s [] else if token_char c then Some (token_span v) else None)"

definition trim_left :: "string \<Rightarrow> string" where "trim_left = strip_left space_seqs"

definition media_param :: "string \<Rightarrow> ((string \<times> string) \<times> string) option" where
  "media_param v =
     (case trim_left v of
        [] \<Rightarrow> None
      | c # v1 \<Rightarrow>
          if c \<noteq> CHR '';'' then None
          else case token_span (trim_left v1) of (key, v2) \<Rightarrow>
            if key = [] then None
            else case trim_left v2 of
              [] \<Rightarrow> None
            | e # v3 \<Rightarrow> if e \<noteq> CHR ''='' then None
                else map_option (\<lambda>(value, rest). ((to_lower key, value), rest)) (media_value (trim_left v3)))"

text \<open>The parameters must all parse, a trailing semicolon apart, and none may have two values.\<close>

lemma strip_left_length: "length (strip_left seqs s) \<le> length s"
  by (rule suffix_length_le) (rule strip_left_suffix)

lemma quoted_length: "quoted s acc = Some (v, rest) \<Longrightarrow> length rest < length s"
  by (induction s acc rule: quoted.induct) (auto split: if_splits list.splits)

lemma media_param_length:
  assumes "media_param v = Some (kv, rest)"
  shows "length rest < length v"
proof -
  have tok: "length (dropWhile token_char w) \<le> length w" for w by (rule length_dropWhile_le)
  have val: "length rest \<le> length w" if "media_value w = Some (x, rest)" for w x
    using that tok by (auto simp: media_value_def token_span_def split: list.splits if_splits dest: quoted_length intro: le_SucI)
  obtain c v1 e v3 x where a: "trim_left v = c # v1" "trim_left (dropWhile token_char (trim_left v1)) = e # v3"
    "media_value (trim_left v3) = Some (x, rest)"
    using assms by (auto simp: media_param_def token_span_def split: list.splits if_splits)
  have "length rest \<le> length (trim_left v3)" by (rule val [OF a(3)])
  also have "\<dots> \<le> length v3" by (simp add: trim_left_def strip_left_length)
  also have "length v3 < length (trim_left (dropWhile token_char (trim_left v1)))" using a(2) by simp
  also have "\<dots> \<le> length (trim_left v1)" using tok le_trans strip_left_length unfolding trim_left_def by blast
  also have "\<dots> \<le> length v1" by (simp add: trim_left_def strip_left_length)
  also have "\<dots> \<le> length v" using a(1) strip_left_length [of space_seqs v] by (simp add: trim_left_def)
  finally show ?thesis .
qed

function media_params_ok :: "(string \<times> string) list \<Rightarrow> string \<Rightarrow> bool" where
  "media_params_ok seen v =
     (if trim_left v = [] then True
      else case media_param v of
        None \<Rightarrow> trim_space v = '';''
      | Some ((key, value), rest) \<Rightarrow>
          (case map_of seen key of Some old \<Rightarrow> old = value | None \<Rightarrow> True) \<and> media_params_ok ((key, value) # seen) rest)"
  by pat_completeness auto
termination
  by (relation "measure (\<lambda>(seen, v). length v)") (auto dest: media_param_length)

declare media_params_ok.simps [simp del]

definition checked_type :: "string \<Rightarrow> bool" where
  "checked_type t \<longleftrightarrow>
     (case token_span t of (a, rest) \<Rightarrow>
        a \<noteq> [] \<and> (rest = [] \<or> (hd rest = CHR ''/'' \<and> (case token_span (tl rest) of (b, rest') \<Rightarrow> b \<noteq> [] \<and> rest' = []))))"

definition parse_media_type :: "string \<Rightarrow> string option" where
  "parse_media_type v =
     (let base = trim_space (to_lower (takeWhile (\<lambda>c. c \<noteq> CHR '';'') v)) in
      if checked_type base \<and> media_params_ok [] (dropWhile (\<lambda>c. c \<noteq> CHR '';'') v) then Some base else None)"

definition preflight_forced :: "request_head \<Rightarrow> bool" where
  "preflight_forced r \<longleftrightarrow>
     header csrf_header r = csrf_value \<or> parse_media_type (header ''Content-Type'' r) = Some ''application/json''"

subsection \<open>Limits\<close>

definition second :: int where "second = 1000000000"

record rate_window =
  rw_count :: int
  rw_start :: int

text \<open>\<^verbatim>\<open>rateLimiter.allow\<close> on the entry of one key, and on the map.\<close>

definition allow_entry :: "int \<Rightarrow> int \<Rightarrow> int \<Rightarrow> rate_window option \<Rightarrow> bool \<times> rate_window" where
  "allow_entry limit window now e =
     (case e of
        None \<Rightarrow> (True, \<lparr>rw_count = 1, rw_start = now\<rparr>)
      | Some rw \<Rightarrow>
          if window < now - rw_start rw then (True, \<lparr>rw_count = 1, rw_start = now\<rparr>)
          else (rw_count rw + 1 \<le> limit, rw\<lparr>rw_count := rw_count rw + 1\<rparr>))"

record rate_limiter =
  rl_limit :: int
  rl_window :: int
  rl_hits :: "string \<Rightarrow> rate_window option"

definition allow :: "string \<Rightarrow> int \<Rightarrow> rate_limiter \<Rightarrow> bool \<times> rate_limiter" where
  "allow key now l =
     (case allow_entry (rl_limit l) (rl_window l) now (rl_hits l key) of
        (ok, rw) \<Rightarrow> (ok, l\<lparr>rl_hits := (rl_hits l)(key \<mapsto> rw)\<rparr>))"

definition drop_old :: "int \<Rightarrow> int \<Rightarrow> (string \<Rightarrow> rate_window option) \<Rightarrow> string \<Rightarrow> rate_window option" where
  "drop_old window now m = (\<lambda>k. case m k of Some rw \<Rightarrow> if window < now - rw_start rw then None else Some rw | None \<Rightarrow> None)"

definition sweep_limiter :: "int \<Rightarrow> rate_limiter \<Rightarrow> rate_limiter" where
  "sweep_limiter now l = l\<lparr>rl_hits := drop_old (rl_window l) now (rl_hits l)\<rparr>"

text \<open>\<^verbatim>\<open>authLimiter\<close>: failed attempts by address.\<close>

definition auth_fail_limit :: int where "auth_fail_limit = 10"
definition auth_fail_window :: int where "auth_fail_window = 60 * second"

type_synonym fail_map = "string \<Rightarrow> rate_window option"

definition blocked :: "string \<Rightarrow> int \<Rightarrow> fail_map \<Rightarrow> bool \<times> fail_map" where
  "blocked ip now m =
     (case m ip of
        None \<Rightarrow> (False, m)
      | Some fw \<Rightarrow>
          if auth_fail_window < now - rw_start fw then (False, m(ip := None))
          else (auth_fail_limit \<le> rw_count fw, m))"

definition note_fail :: "string \<Rightarrow> int \<Rightarrow> fail_map \<Rightarrow> fail_map" where
  "note_fail ip now m =
     (case m ip of
        None \<Rightarrow> m(ip \<mapsto> \<lparr>rw_count = 1, rw_start = now\<rparr>)
      | Some fw \<Rightarrow>
          if auth_fail_window < now - rw_start fw then m(ip \<mapsto> \<lparr>rw_count = 1, rw_start = now\<rparr>)
          else m(ip \<mapsto> fw\<lparr>rw_count := rw_count fw + 1\<rparr>))"

definition reset_fails :: "string \<Rightarrow> fail_map \<Rightarrow> fail_map" where
  "reset_fails ip m = m(ip := None)"

subsection \<open>Sessions\<close>

definition session_ttl :: int where "session_ttl = 30 * 24 * 3600 * second"
definition session_idle_ttl :: int where "session_idle_ttl = 24 * 3600 * second"

record session =
  se_expires :: int
  se_seen :: int

definition session_over :: "int \<Rightarrow> session \<Rightarrow> bool" where
  "session_over now se \<longleftrightarrow> se_expires se < now \<or> session_idle_ttl < now - se_seen se"

definition new_session :: "string \<Rightarrow> int \<Rightarrow> (string \<Rightarrow> session option) \<Rightarrow> string \<Rightarrow> session option" where
  "new_session tok now m = m(tok \<mapsto> \<lparr>se_expires = now + session_ttl, se_seen = now\<rparr>)"

definition session_valid :: "string \<Rightarrow> int \<Rightarrow> (string \<Rightarrow> session option) \<Rightarrow> bool \<times> (string \<Rightarrow> session option)" where
  "session_valid tok now m =
     (case m tok of
        None \<Rightarrow> (False, m)
      | Some se \<Rightarrow>
          if session_over now se then (False, m(tok := None)) else (True, m(tok \<mapsto> se\<lparr>se_seen := now\<rparr>)))"

definition sweep_sessions :: "int \<Rightarrow> (string \<Rightarrow> session option) \<Rightarrow> string \<Rightarrow> session option" where
  "sweep_sessions now m = (\<lambda>k. case m k of Some se \<Rightarrow> if session_over now se then None else Some se | None \<Rightarrow> None)"

subsection \<open>The front door\<close>

record door =
  dr_api_key :: string
  dr_webhook_secret :: string
  dr_fails :: fail_map
  dr_read :: rate_limiter
  dr_write :: rate_limiter
  dr_sessions :: "string \<Rightarrow> session option"

definition read_rate_limit :: int where "read_rate_limit = 600"
definition write_rate_limit :: int where "write_rate_limit = 120"
definition rate_limit_window :: int where "rate_limit_window = 60 * second"

definition init_door :: "string \<Rightarrow> string \<Rightarrow> door" where
  "init_door key secret =
     \<lparr>dr_api_key = key, dr_webhook_secret = secret, dr_fails = Map.empty,
      dr_read = \<lparr>rl_limit = read_rate_limit, rl_window = rate_limit_window, rl_hits = Map.empty\<rparr>,
      dr_write = \<lparr>rl_limit = write_rate_limit, rl_window = rate_limit_window, rl_hits = Map.empty\<rparr>,
      dr_sessions = Map.empty\<rparr>"

definition sweep_door :: "int \<Rightarrow> door \<Rightarrow> door" where
  "sweep_door now d =
     d\<lparr>dr_sessions := sweep_sessions now (dr_sessions d), dr_fails := drop_old auth_fail_window now (dr_fails d),
       dr_read := sweep_limiter now (dr_read d), dr_write := sweep_limiter now (dr_write d)\<rparr>"

datatype auth_method = AuthNone | AuthKey | AuthCookie

definition authenticate :: "request_head \<Rightarrow> int \<Rightarrow> door \<Rightarrow> auth_method \<times> door" where
  "authenticate r now d =
     (if header ''X-Api-Key'' r \<noteq> '''' then (if header ''X-Api-Key'' r = dr_api_key d then AuthKey else AuthNone, d)
      else case map_of (hr_cookies r) session_cookie of
        None \<Rightarrow> (AuthNone, d)
      | Some tok \<Rightarrow>
          (case session_valid tok now (dr_sessions d) of
             (ok, m) \<Rightarrow> (if ok then AuthCookie else AuthNone, d\<lparr>dr_sessions := m\<rparr>)))"

definition rate_allowed :: "request_head \<Rightarrow> int \<Rightarrow> door \<Rightarrow> bool \<times> door" where
  "rate_allowed r now d =
     (if mutating_method (hr_method r)
      then (case allow (client_ip r) now (dr_write d) of (ok, l) \<Rightarrow> (ok, d\<lparr>dr_write := l\<rparr>))
      else (case allow (client_ip r) now (dr_read d) of (ok, l) \<Rightarrow> (ok, d\<lparr>dr_read := l\<rparr>)))"

definition protected_path :: "string \<Rightarrow> bool" where
  "protected_path p \<longleftrightarrow> prefix ''/api/'' p \<or> p = ''/sse''"

text \<open>The handler is served, or the request is answered with this status.\<close>

datatype gate = Serve | Answer nat

definition health_path :: string where "health_path = ''/api/v1/health''"
definition webhook_path :: string where "webhook_path = ''/api/v1/webhooks/arr''"

definition is_blocked :: "request_head \<Rightarrow> int \<Rightarrow> door \<Rightarrow> bool \<times> door" where
  "is_blocked r now d = (case blocked (client_ip r) now (dr_fails d) of (b, m) \<Rightarrow> (b, d\<lparr>dr_fails := m\<rparr>))"

definition fail_ip :: "request_head \<Rightarrow> int \<Rightarrow> door \<Rightarrow> door" where
  "fail_ip r now d = d\<lparr>dr_fails := note_fail (client_ip r) now (dr_fails d)\<rparr>"

text \<open>With an API key: the part after the rate limit.\<close>

definition auth_key :: "request_head \<Rightarrow> int \<Rightarrow> door \<Rightarrow> gate \<times> door" where
  "auth_key r now d =
     (case is_blocked r now d of
        (True, d1) \<Rightarrow> (Answer 429, d1)
      | (False, d1) \<Rightarrow>
          (case authenticate r now d1 of
             (AuthNone, d2) \<Rightarrow> (Answer 401, if header ''X-Api-Key'' r \<noteq> '''' then fail_ip r now d2 else d2)
           | (how, d2) \<Rightarrow>
               if how = AuthCookie \<and> mutating_method (hr_method r) \<and> header csrf_header r \<noteq> csrf_value
               then (Answer 403, d2)
               else (Serve, d2\<lparr>dr_fails := reset_fails (client_ip r) (dr_fails d2)\<rparr>)))"

definition auth_rest :: "request_head \<Rightarrow> int \<Rightarrow> door \<Rightarrow> gate \<times> door" where
  "auth_rest r now d =
     (case rate_allowed r now d of
        (False, d1) \<Rightarrow> (Answer 429, d1)
      | (True, d1) \<Rightarrow>
          if dr_api_key d1 = '''' then
            (if mutating_method (hr_method r) \<and> \<not> preflight_forced r then Answer 403 else Serve, d1)
          else auth_key r now d1)"

definition auth :: "request_head \<Rightarrow> int \<Rightarrow> door \<Rightarrow> gate \<times> door" where
  "auth r now d =
     (if \<not> protected_path (hr_path r) \<or> hr_path r = health_path then (Serve, d)
      else if hr_path r = webhook_path \<and> dr_webhook_secret d \<noteq> '''' then
        (case is_blocked r now d of
           (True, d1) \<Rightarrow> (Answer 429, d1)
         | (False, d1) \<Rightarrow>
             let secret = header ''X-Webhook-Secret'' r in
             if secret = dr_webhook_secret d then (Serve, d1)
             else
               let d2 = (if secret \<noteq> '''' then fail_ip r now d1 else d1) in
               if dr_api_key d = '''' then (Answer 401, d2) else auth_rest r now d2)
      else auth_rest r now d)"

text \<open>\<^verbatim>\<open>handleAuthSession\<close>: the token is stored, the cookie is secure behind TLS.\<close>

definition handle_auth_session :: "bool \<Rightarrow> string \<Rightarrow> request_head \<Rightarrow> int \<Rightarrow> door \<Rightarrow> bool \<times> door" where
  "handle_auth_session secure_cookie tok r now d =
     (secure_cookie \<or> request_is_tls r, d\<lparr>dr_sessions := new_session tok now (dr_sessions d)\<rparr>)"

end
