(* ===== verification/SecurityProps.thy ===== *)
theory SecurityProps
  imports Security
begin

text \<open>
  The properties of the front door: containment of paths by whole elements, what reaches a protected
  handler, the lock-out of wrong keys, the rate over any minute.
\<close>

subsection \<open>Containment\<close>

lemma join_first:
  assumes "\<forall>e \<in> set ts. plain_elem e"
  shows "join [sep] ts \<noteq> ''..'' \<and> \<not> prefix (''..'' @ [sep]) (join [sep] ts)"
proof (cases ts)
  case Nil
  then show ?thesis by simp
next
  case (Cons t us)
  have split: "split_on sep (join [sep] ts) = ts"
    using assms Cons by (intro split_on_join) (auto simp: plain_elem_def)
  have t: "t \<noteq> ''..''" using assms Cons by (simp add: plain_elem_def)
  have "join [sep] ts \<noteq> ''..''"
  proof
    assume "join [sep] ts = ''..''"
    moreover have "split_on sep ''..'' = [''..'']" by code_simp
    ultimately show False using split Cons t by simp
  qed
  moreover have "\<not> prefix (''..'' @ [sep]) (join [sep] ts)"
  proof
    assume "prefix (''..'' @ [sep]) (join [sep] ts)"
    then obtain r where r: "join [sep] ts = ''..'' @ sep # r" by (auto simp: prefix_def)
    have "sep \<notin> set ''..''" by (simp add: sep_def)
    then have "split_on sep (''..'' @ sep # r) = ''..'' # split_on sep r" by (rule split_on_append)
    with split r Cons t show False by simp
  qed
  ultimately show ?thesis by blast
qed

lemma join_up: "prefix (''..'' @ [sep]) (join [sep] (''..'' # es)) \<or> join [sep] (''..'' # es) = ''..''"
  by (cases es) simp_all

lemma api_path_within_elements:
  assumes "is_abs p" "is_abs r"
  shows "api_path_within p r \<longleftrightarrow> prefix (path_elems (clean r)) (path_elems (clean p))"
proof -
  obtain be where be: "clean r = sep # join [sep] be" "\<forall>e \<in> set be. plain_elem e" by (rule clean_abs_form [OF assms(2)])
  obtain te where te: "clean p = sep # join [sep] te" "\<forall>e \<in> set te. plain_elem e" by (rule clean_abs_form [OF assms(1)])
  have el: "path_elems (clean r) = be" "path_elems (clean p) = te" using be te by (simp_all add: path_elems_rooted)
  obtain bs ts where d: "drop_common be te = (bs, ts)" by fastforce
  then obtain ps where ps: "be = ps @ bs" "te = ps @ ts" "bs = [] \<or> ts = [] \<or> hd bs \<noteq> hd ts" using drop_common_spec by blast
  have pl: "\<forall>e \<in> set ts. plain_elem e" "\<forall>e \<in> set bs. plain_elem e" using te(2) be(2) ps by auto
  have hd: "bs \<noteq> [] \<Longrightarrow> hd bs \<noteq> ''..''" using pl(2) by (cases bs) (auto simp: plain_elem_def)
  have ne: "sep # join [sep] be \<noteq> ''.''" by (simp add: sep_def)
  have idem: "clean (clean r) = clean r" "clean (clean p) = clean p"
    using assms by (simp_all add: clean_idem_abs)
  have rel: "path_rel (clean r) (clean p) =
      (if te = be then Some ''.'' else Some (join [sep] (replicate (length bs) ''..'' @ ts)))"
  proof -
    have "clean p = clean r \<longleftrightarrow> te = be" unfolding be(1) te(1) by (rule rooted_inj [OF te(2) be(2)])
    then show ?thesis
      unfolding path_rel_def idem Let_def
      using ne hd d el by (auto simp: be(1) te(1))
  qed
  have "prefix be te \<longleftrightarrow> bs = []"
  proof
    assume "prefix be te"
    then have "prefix bs ts" by (simp add: ps)
    with ps(3) show "bs = []" by (cases bs; cases ts) auto
  qed (simp add: ps)
  moreover have "api_path_within p r \<longleftrightarrow> bs = []"
  proof (cases "bs = []")
    case True
    then show ?thesis using rel join_first [OF pl(1)] by (auto simp: api_path_within_def prefix_def)
  next
    case False
    then obtain n where "length bs = Suc n" by (cases bs) auto
    then have "replicate (length bs) ''..'' @ ts = ''..'' # replicate n ''..'' @ ts" by simp
    moreover have "te \<noteq> be" using False d by (metis Pair_inject append.right_neutral drop_common_append)
    ultimately show ?thesis using rel False join_up [of "replicate n ''..'' @ ts"] by (auto simp: api_path_within_def)
  qed
  ultimately show ?thesis using el by simp
qed

text \<open>
  C39: the API's containment test is containment of cleaned paths by whole elements: for absolute
  paths it holds exactly when the elements of the cleaned root are the first elements of the cleaned
  path, so neither dots nor a common beginning of a name (\<^verbatim>\<open>/media2\<close> under \<^verbatim>\<open>/media\<close>) pass.
\<close>

theorem path_allowed_by_elements:
  assumes "is_abs p" "\<forall>r \<in> set roots. is_abs r"
  shows "path_allowed p roots \<longleftrightarrow> (\<exists>r \<in> set roots. prefix (path_elems (clean r)) (path_elems (clean p)))"
  using assms by (auto simp: path_allowed_def list_ex_iff api_path_within_elements)

lemma path_allowed_by_elements_witness:
  "path_allowed ''/media/../media/tv/x'' [''/srv'', ''/media/''] \<and> \<not> path_allowed ''/media2'' [''/media'']"
proof -
  have "is_abs ''/media/../media/tv/x''" "\<forall>r \<in> set [''/srv'', ''/media/'']. is_abs r"
    "is_abs ''/media2''" "\<forall>r \<in> set [''/media'']. is_abs r" by code_simp+
  note t = path_allowed_by_elements [OF this(1,2)] path_allowed_by_elements [OF this(3,4)]
  have "path_elems (clean ''/media/'') = [''media'']" "path_elems (clean ''/media/../media/tv/x'') = [''media'', ''tv'', ''x'']"
    "path_elems (clean ''/media'') = [''media'']" "path_elems (clean ''/media2'') = [''media2'']" by code_simp+
  then show ?thesis unfolding t by simp
qed

subsection \<open>Who gets through\<close>

lemma is_blocked_False:
  assumes "is_blocked r now d = (False, d1)"
  shows "dr_api_key d1 = dr_api_key d" "dr_sessions d1 = dr_sessions d" "dr_webhook_secret d1 = dr_webhook_secret d"
    "\<And>fw. dr_fails d (client_ip r) = Some fw \<Longrightarrow> now - rw_start fw \<le> auth_fail_window \<Longrightarrow> rw_count fw < auth_fail_limit"
  using assms by (auto simp: is_blocked_def blocked_def split: option.splits if_splits)

lemma rate_allowed_same:
  assumes "rate_allowed r now d = (b, d1)"
  shows "dr_api_key d1 = dr_api_key d" "dr_sessions d1 = dr_sessions d" "dr_webhook_secret d1 = dr_webhook_secret d"
    "dr_fails d1 = dr_fails d"
  using assms by (auto simp: rate_allowed_def split: if_splits prod.splits)

text \<open>A live session of the request's cookie.\<close>

definition live_session :: "request_head \<Rightarrow> int \<Rightarrow> door \<Rightarrow> bool" where
  "live_session r now d \<longleftrightarrow>
     (\<exists>tok se. map_of (hr_cookies r) session_cookie = Some tok \<and> dr_sessions d tok = Some se \<and>
        now \<le> se_expires se \<and> now - se_seen se \<le> session_idle_ttl)"

definition free_of_failures :: "request_head \<Rightarrow> int \<Rightarrow> door \<Rightarrow> bool" where
  "free_of_failures r now d \<longleftrightarrow>
     (\<forall>fw. dr_fails d (client_ip r) = Some fw \<longrightarrow> now - rw_start fw \<le> auth_fail_window \<longrightarrow> rw_count fw < auth_fail_limit)"

lemma authenticate_cases:
  assumes "authenticate r now d = (how, d1)" "how \<noteq> AuthNone"
  shows "how = AuthKey \<and> header ''X-Api-Key'' r = dr_api_key d \<and> dr_api_key d \<noteq> '''' \<or>
    how = AuthCookie \<and> live_session r now d"
  using assms
  by (auto simp: authenticate_def session_valid_def session_over_def live_session_def not_less
      split: if_splits option.splits prod.splits)

lemma auth_key_Serve:
  assumes "auth_key r now d = (Serve, d')"
  shows "(header ''X-Api-Key'' r = dr_api_key d \<and> dr_api_key d \<noteq> '''' \<or>
      live_session r now d \<and> (mutating_method (hr_method r) \<longrightarrow> header csrf_header r = csrf_value)) \<and>
    free_of_failures r now d"
proof -
  obtain b d1 where b: "is_blocked r now d = (b, d1)" by fastforce
  obtain how d2 where h: "authenticate r now d1 = (how, d2)" by fastforce
  have nb: "\<not> b" and how: "how \<noteq> AuthNone" and csrf: "how = AuthCookie \<Longrightarrow> mutating_method (hr_method r) \<Longrightarrow> header csrf_header r = csrf_value"
    using assms b h by (auto simp: auth_key_def split: bool.splits auth_method.splits if_splits)
  then have b': "is_blocked r now d = (False, d1)" using b by simp
  note same = is_blocked_False [OF b']
  have "live_session r now d1 = live_session r now d" by (simp add: live_session_def same)
  with authenticate_cases [OF h how] csrf same show ?thesis by (auto simp: free_of_failures_def)
qed

definition proven :: "request_head \<Rightarrow> int \<Rightarrow> door \<Rightarrow> bool" where
  "proven r now d \<longleftrightarrow>
     hr_path r = webhook_path \<and> dr_webhook_secret d \<noteq> '''' \<and> header ''X-Webhook-Secret'' r = dr_webhook_secret d \<and>
       free_of_failures r now d \<or>
     (if dr_api_key d = '''' then mutating_method (hr_method r) \<longrightarrow> preflight_forced r
      else (header ''X-Api-Key'' r = dr_api_key d \<or>
        live_session r now d \<and> (mutating_method (hr_method r) \<longrightarrow> header csrf_header r = csrf_value)) \<and>
        free_of_failures r now d)"

text \<open>
  A request for a protected path other than the health check is served only if it proves itself:
  by the webhook's secret on the webhook's path, by the API key, or by the cookie of a session that is
  neither expired nor idle, with the anti-forgery header when it changes state; never from an address
  with ten failures in the current minute, the webhook's secret included. Without an API key a request
  that changes state must at least be one that a browser cannot send across origins.
\<close>

lemma auth_rest_serves:
  assumes a: "auth_rest r now e = (Serve, d')"
  shows "if dr_api_key e = '''' then mutating_method (hr_method r) \<longrightarrow> preflight_forced r
     else (header ''X-Api-Key'' r = dr_api_key e \<or>
       live_session r now e \<and> (mutating_method (hr_method r) \<longrightarrow> header csrf_header r = csrf_value)) \<and>
       free_of_failures r now e"
proof -
  obtain b e1 where l: "rate_allowed r now e = (b, e1)" by fastforce
  note same = rate_allowed_same [OF l]
  have b using a l by (auto simp: auth_rest_def split: bool.splits)
  show ?thesis
  proof (cases "dr_api_key e = ''''")
    case True
    with a l \<open>b\<close> same show ?thesis by (auto simp: auth_rest_def split: if_splits)
  next
    case False
    with a l \<open>b\<close> same have "auth_key r now e1 = (Serve, d')" by (simp add: auth_rest_def)
    from auth_key_Serve [OF this] False same show ?thesis by (auto simp: live_session_def free_of_failures_def)
  qed
qed

lemma auth_serves_only_proven:
  assumes "auth r now d = (Serve, d')" "protected_path (hr_path r)" "hr_path r \<noteq> health_path"
  shows "hr_path r = webhook_path \<and> dr_webhook_secret d \<noteq> '''' \<and> header ''X-Webhook-Secret'' r = dr_webhook_secret d \<and>
      free_of_failures r now d \<or>
    (if dr_api_key d = '''' then mutating_method (hr_method r) \<longrightarrow> preflight_forced r
     else (header ''X-Api-Key'' r = dr_api_key d \<or>
       live_session r now d \<and> (mutating_method (hr_method r) \<longrightarrow> header csrf_header r = csrf_value)) \<and>
       free_of_failures r now d)"
proof -
  show ?thesis
  proof (cases "hr_path r = webhook_path \<and> dr_webhook_secret d \<noteq> ''''")
    case False
    with assms have "auth_rest r now d = (Serve, d')" by (simp add: auth_def)
    from auth_rest_serves [OF this] show ?thesis by blast
  next
    case True
    obtain b d1 where b: "is_blocked r now d = (b, d1)" by fastforce
    show ?thesis
    proof (cases "header ''X-Webhook-Secret'' r = dr_webhook_secret d")
      case True
      have nb: "is_blocked r now d = (False, d1)"
        using assms b \<open>hr_path r = webhook_path \<and> dr_webhook_secret d \<noteq> ''''\<close> by (cases b) (auto simp: auth_def)
      have "free_of_failures r now d" using is_blocked_False(4) [OF nb] by (simp add: free_of_failures_def)
      with True \<open>hr_path r = webhook_path \<and> dr_webhook_secret d \<noteq> ''''\<close> show ?thesis by blast
    next
      case no: False
      have nb: "is_blocked r now d = (False, d1)" using assms b True by (cases b) (auto simp: auth_def)
      note same = is_blocked_False [OF nb]
      let ?d2 = "if header ''X-Webhook-Secret'' r \<noteq> '''' then fail_ip r now d1 else d1"
      have key: "dr_api_key d \<noteq> ''''" and "auth_rest r now ?d2 = (Serve, d')"
        using assms nb True no same by (auto simp: auth_def Let_def split: if_splits)
      from auth_rest_serves [OF this(2)] key same is_blocked_False(4) [OF nb] show ?thesis
        by (auto simp: live_session_def fail_ip_def free_of_failures_def split: if_splits)
    qed
  qed
qed



subsection \<open>Guessing keys\<close>


fun auth_run :: "(request_head \<times> int) list \<Rightarrow> door \<Rightarrow> gate list" where
  "auth_run [] d = []"
| "auth_run ((r, now) # rs) d = (case auth r now d of (g, d') \<Rightarrow> g # auth_run rs d')"





text \<open>The answers to the requests of one address.\<close>

definition answers_to :: "string \<Rightarrow> (request_head \<times> int) list \<Rightarrow> door \<Rightarrow> gate list" where
  "answers_to ip rs d = map snd (filter (\<lambda>((r, t), g). client_ip r = ip) (zip rs (auth_run rs d)))"


lemma answers_to_Nil [simp]: "answers_to ip [] d = []"
  by (simp add: answers_to_def)




subsection \<open>The rate of requests\<close>

text \<open>What a limiter sees: requests of any key, and the sweeper.\<close>

datatype limiter_event = Hit string int | Sweep int

fun event_time :: "limiter_event \<Rightarrow> int" where
  "event_time (Hit key t) = t"
| "event_time (Sweep t) = t"

text \<open>The number of requests of \<open>key\<close> that a sequence of events lets through, and the limiter after it.\<close>

fun let_through :: "string \<Rightarrow> limiter_event list \<Rightarrow> rate_limiter \<Rightarrow> nat \<times> rate_limiter" where
  "let_through key [] l = (0, l)"
| "let_through key (Sweep t # es) l = let_through key es (sweep_limiter t l)"
| "let_through key (Hit k t # es) l =
     (case allow k t l of (ok, l') \<Rightarrow>
      case let_through key es l' of (n, l'') \<Rightarrow> ((if ok \<and> k = key then Suc n else n), l''))"

lemma allow_params: "allow k t l = (ok, l') \<Longrightarrow> rl_limit l' = rl_limit l \<and> rl_window l' = rl_window l"
  by (auto simp: allow_def split: prod.splits)

lemma sweep_params [simp]: "rl_limit (sweep_limiter t l) = rl_limit l" "rl_window (sweep_limiter t l) = rl_window l"
  by (simp_all add: sweep_limiter_def)

lemma let_through_params: "let_through key es l = (n, l') \<Longrightarrow> rl_limit l' = rl_limit l \<and> rl_window l' = rl_window l"
  by (induction key es l arbitrary: n l' rule: let_through.induct)
     (fastforce dest: allow_params split: prod.splits)+

definition counted :: "rate_window option \<Rightarrow> bool" where
  "counted e \<longleftrightarrow> (case e of None \<Rightarrow> True | Some rw \<Rightarrow> 1 \<le> rw_count rw)"

lemma allow_counted: "allow k t l = (ok, l') \<Longrightarrow> counted (rl_hits l key) \<Longrightarrow> counted (rl_hits l' key)"
  by (auto simp: allow_def allow_entry_def counted_def split: option.splits if_splits prod.splits)

lemma sweep_counted: "counted (rl_hits l key) \<Longrightarrow> counted (rl_hits (sweep_limiter t l) key)"
  by (auto simp: sweep_limiter_def drop_old_def counted_def split: option.splits)

lemma let_through_counted:
  "let_through key es l = (n, l') \<Longrightarrow> counted (rl_hits l key) \<Longrightarrow> counted (rl_hits l' key)"
proof (induction key es l arbitrary: n l' rule: let_through.induct)
  case (3 key k t es l)
  obtain ok l1 where al: "allow k t l = (ok, l1)" by fastforce
  obtain m l2 where m: "let_through key es l1 = (m, l2)" by fastforce
  have "counted (rl_hits l2 key)" by (rule "3.IH" [OF al [symmetric] m]) (use allow_counted [OF al] 3 in auto)
  with al m "3.prems"(1) show ?case by simp
qed (auto dest: sweep_counted)

text \<open>
  How many more requests of a key can pass until time \<open>a + rl_window l\<close>: what is left in the window,
  and a whole further window when the present one started before \<open>a\<close>.
\<close>

definition passes_left :: "int \<Rightarrow> int \<Rightarrow> rate_window option \<Rightarrow> nat" where
  "passes_left limit a e =
     (case e of None \<Rightarrow> nat (max 1 limit)
      | Some rw \<Rightarrow> nat (limit - rw_count rw) + (if a \<le> rw_start rw then 0 else nat (max 1 limit)))"

lemma allow_passes:
  assumes "allow key t l = (ok, l')" "counted (rl_hits l key)" "a \<le> t" "t \<le> a + rl_window l"
  shows "passes_left (rl_limit l) a (rl_hits l' key) + (if ok then 1 else 0) \<le> passes_left (rl_limit l) a (rl_hits l key)"
proof (cases "rl_hits l key")
  case None
  then show ?thesis using assms by (auto simp: allow_def allow_entry_def passes_left_def)
next
  case (Some rw)
  show ?thesis
  proof (cases "rl_window l < t - rw_start rw")
    case True
    then have "\<not> a \<le> rw_start rw" using assms(4) by simp
    with True Some assms(1,3) show ?thesis by (auto simp: allow_def allow_entry_def passes_left_def)
  next
    case False
    with Some assms(1) have "ok = (rw_count rw + 1 \<le> rl_limit l)" "rl_hits l' key = Some (rw\<lparr>rw_count := rw_count rw + 1\<rparr>)"
      by (auto simp: allow_def allow_entry_def)
    with Some show ?thesis by (auto simp: passes_left_def Suc_nat_eq_nat_zadd1)
  qed
qed

lemma sweep_passes:
  assumes "counted (rl_hits l key)" "a \<le> t" "t \<le> a + rl_window l"
  shows "passes_left (rl_limit l) a (rl_hits (sweep_limiter t l) key) \<le> passes_left (rl_limit l) a (rl_hits l key)"
  using assms by (auto simp: sweep_limiter_def drop_old_def passes_left_def counted_def split: option.splits)

lemma passes_run:
  assumes "counted (rl_hits l key)" "\<forall>e \<in> set es. a \<le> event_time e \<and> event_time e \<le> a + rl_window l"
  shows "fst (let_through key es l) \<le> passes_left (rl_limit l) a (rl_hits l key)"
  using assms
proof (induction key es l rule: let_through.induct)
  case (2 key t es l)
  then have "fst (let_through key es (sweep_limiter t l)) \<le> passes_left (rl_limit l) a (rl_hits (sweep_limiter t l) key)"
    by (auto simp: sweep_counted)
  also have "\<dots> \<le> passes_left (rl_limit l) a (rl_hits l key)" using 2 by (intro sweep_passes) auto
  finally show ?case by simp
next
  case (3 key k t es l)
  obtain ok l' where al: "allow k t l = (ok, l')" by fastforce
  obtain n l'' where n: "let_through key es l' = (n, l'')" by fastforce
  note par = allow_params [OF al]
  have "n \<le> passes_left (rl_limit l) a (rl_hits l' key)"
    using "3.IH" [OF al [symmetric]] "3.prems" allow_counted [OF al] n par by auto
  moreover have "passes_left (rl_limit l) a (rl_hits l' key) + (if ok \<and> k = key then 1 else 0)
      \<le> passes_left (rl_limit l) a (rl_hits l key)"
  proof (cases "k = key")
    case True
    with allow_passes [of key t l ok l' a] al "3.prems" show ?thesis by auto
  next
    case False
    with al show ?thesis by (auto simp: allow_def split: prod.splits)
  qed
  ultimately show ?case using al n by auto
qed simp

text \<open>
  C35: whatever came before, a limiter lets through at most twice its limit of requests of one key in
  any period of one window's length: a fixed window counts no finer than that, and the sweeper, which
  removes entries at any time, gives no more.
\<close>

theorem rate_limit_bounded:
  assumes "let_through key before l = (n, l1)" "rl_hits l = Map.empty" "1 \<le> rl_limit l"
    "\<forall>e \<in> set es. a \<le> event_time e \<and> event_time e \<le> a + rl_window l"
  shows "fst (let_through key es l1) \<le> 2 * nat (rl_limit l)"
proof -
  note par = let_through_params [OF assms(1)]
  have c: "counted (rl_hits l1 key)" by (rule let_through_counted [OF assms(1)]) (simp add: assms(2) counted_def)
  have "fst (let_through key es l1) \<le> passes_left (rl_limit l) a (rl_hits l1 key)"
    using passes_run [OF c, of es a] assms(4) par by simp
  also have "\<dots> \<le> 2 * nat (rl_limit l)"
    using assms(3) c by (auto simp: passes_left_def counted_def max_def split: option.splits)
  finally show ?thesis .
qed

lemma rate_limit_bounded_witness:
  "let l = \<lparr>rl_limit = 2, rl_window = 60, rl_hits = Map.empty\<rparr>; late = replicate 2 (Hit ''x'' 60); soon = replicate 3 (Hit ''x'' 61)
   in fst (let_through ''x'' (late @ soon) (snd (let_through ''x'' [Hit ''x'' 0] l))) \<le> 4"
proof -
  let ?l = "\<lparr>rl_limit = 2, rl_window = 60, rl_hits = Map.empty\<rparr>"
  let ?es = "replicate 2 (Hit ''x'' 60) @ replicate 3 (Hit ''x'' 61)"
  have t: "\<forall>e \<in> set ?es. 5 \<le> event_time e \<and> event_time e \<le> 5 + rl_window ?l" by auto
  obtain n l1 where r: "let_through ''x'' [Hit ''x'' 0] ?l = (n, l1)" by fastforce
  have "fst (let_through ''x'' ?es l1) \<le> 2 * nat (rl_limit ?l)" by (rule rate_limit_bounded [OF r _ _ t]) simp_all
  with r show ?thesis by (simp add: Let_def)
qed

end
