(* ===== verification/Schema.thy ===== *)
theory Schema
  imports Prelude GoStr
begin

text \<open>
  Opening the database: the tables and columns that \<^verbatim>\<open>Store.migrate\<close> declares, the columns it adds to the
  tables of an older program, and the result columns of the queries with the Go variables they are scanned
  into. A table is its columns and its rows, a statement runs or fails with the text of an error, and a
  script stops at the first statement that fails, keeping what the ones before it did.
\<close>

subsection \<open>Tables\<close>

datatype sql_type = IntegerT | TextT

datatype cell = Null | IntV int | TextV string

datatype on_delete = Cascade | SetNull

record column =
  cl_name :: string
  cl_type :: sql_type
  cl_key :: bool
  cl_not_null :: bool
  cl_unique :: bool
  cl_default :: "cell option"
  cl_refs :: "(string \<times> on_delete) option"

record db_table =
  tb_columns :: "column list"
  tb_rows :: "cell list list"

text \<open>\<open>sd_faults\<close> says of the statements to come which fail for a reason outside the script, and how.\<close>

record sql_db =
  sd_tables :: "string \<Rightarrow> db_table option"
  sd_indexes :: "string list"
  sd_faults :: "string option list"

definition optional :: "string \<Rightarrow> sql_type \<Rightarrow> column" where
  "optional n t = \<lparr>cl_name = n, cl_type = t, cl_key = False, cl_not_null = False, cl_unique = False,
     cl_default = None, cl_refs = None\<rparr>"

definition needed :: "string \<Rightarrow> sql_type \<Rightarrow> column" where
  "needed n t = (optional n t)\<lparr>cl_not_null := True\<rparr>"

fun cell_type :: "cell \<Rightarrow> sql_type" where
  "cell_type (TextV s) = TextT"
| "cell_type v = IntegerT"

definition preset :: "string \<Rightarrow> cell \<Rightarrow> column" where
  "preset n v = (needed n (cell_type v))\<lparr>cl_default := Some v\<rparr>"

definition row_key :: "string \<Rightarrow> sql_type \<Rightarrow> column" where
  "row_key n t = (optional n t)\<lparr>cl_key := True\<rparr>"

subsection \<open>The schema\<close>

definition libraries_columns :: "column list" where
  "libraries_columns =
     [row_key ''id'' IntegerT,
      needed ''name'' TextT,
      (needed ''path'' TextT)\<lparr>cl_unique := True\<rparr>,
      preset ''kind'' (TextV ''other''),
      preset ''hardlink_policy'' (TextV ''skip''),
      preset ''auto_scan_interval'' (IntV 21600),
      preset ''watch_enabled'' (IntV 1),
      preset ''last_scan_finished_at'' (IntV 0)]"

definition media_files_columns :: "column list" where
  "media_files_columns =
     [row_key ''id'' IntegerT,
      (needed ''library_id'' IntegerT)\<lparr>cl_refs := Some (''libraries'', Cascade)\<rparr>,
      (needed ''path'' TextT)\<lparr>cl_unique := True\<rparr>,
      needed ''size'' IntegerT,
      needed ''mtime'' IntegerT,
      preset ''nlink'' (IntV 1),
      preset ''kind'' (TextV ''other''),
      preset ''series'' (TextV ''''),
      preset ''season'' (IntV (- 1)),
      preset ''episode'' (TextV ''''),
      preset ''title'' (TextV ''''),
      preset ''video_codec'' (TextV ''''),
      preset ''audio_summary'' (TextV ''''),
      preset ''sub_summary'' (TextV ''''),
      preset ''sidecar_summary'' (TextV ''''),
      preset ''probe_json'' (TextV ''''),
      preset ''scanned_at'' (IntV 0)]"

definition sidecars_columns :: "column list" where
  "sidecars_columns =
     [row_key ''id'' IntegerT,
      (needed ''media_file_id'' IntegerT)\<lparr>cl_refs := Some (''media_files'', Cascade)\<rparr>,
      (needed ''path'' TextT)\<lparr>cl_unique := True\<rparr>,
      needed ''name'' TextT,
      preset ''lang'' (TextV ''''),
      preset ''hi'' (IntV 0),
      preset ''forced'' (IntV 0),
      preset ''ext'' (TextV ''''),
      preset ''size'' (IntV 0)]"

definition jobs_columns :: "column list" where
  "jobs_columns =
     [row_key ''id'' IntegerT,
      needed ''type'' TextT,
      (optional ''media_file_id'' IntegerT)\<lparr>cl_refs := Some (''media_files'', SetNull)\<rparr>,
      preset ''file_path'' (TextV ''''),
      preset ''payload_json'' (TextV ''{}''),
      preset ''status'' (TextV ''queued''),
      preset ''log'' (TextV ''''),
      preset ''bytes_saved'' (IntV 0),
      needed ''created_at'' IntegerT,
      preset ''finished_at'' (IntV 0)]"

definition settings_columns :: "column list" where
  "settings_columns = [row_key ''key'' TextT, needed ''value'' TextT]"

subsection \<open>Statements\<close>

datatype stmt =
    CreateTable string "column list"
  | CreateIndex string string string
  | AddColumn string column

definition tables :: "(string \<times> column list) list" where
  "tables =
     [(''libraries'', libraries_columns), (''media_files'', media_files_columns), (''sidecars'', sidecars_columns),
      (''jobs'', jobs_columns), (''settings'', settings_columns)]"

definition schema_script :: "stmt list" where
  "schema_script =
     [CreateTable ''libraries'' libraries_columns,
      CreateTable ''media_files'' media_files_columns,
      CreateIndex ''idx_files_library'' ''media_files'' ''library_id'',
      CreateTable ''sidecars'' sidecars_columns,
      CreateIndex ''idx_sidecars_file'' ''sidecars'' ''media_file_id'',
      CreateTable ''jobs'' jobs_columns,
      CreateIndex ''idx_jobs_status'' ''jobs'' ''status'',
      CreateTable ''settings'' settings_columns]"

definition column_names :: "db_table \<Rightarrow> string list" where
  "column_names tb = map cl_name (tb_columns tb)"

text \<open>
  What SQLite documents of the three statements: the first two do nothing when the name exists; a column can be
  added under a new name, if it is neither a key nor unique, and if it is optional or has a default, which the
  rows of the table get.
\<close>

definition default_cell :: "column \<Rightarrow> cell" where
  "default_cell c = (case cl_default c of None \<Rightarrow> Null | Some v \<Rightarrow> v)"

definition duplicate_column :: string where
  "duplicate_column = ''duplicate column name''"

definition addable :: "column \<Rightarrow> bool" where
  "addable c \<longleftrightarrow> \<not> cl_key c \<and> \<not> cl_unique c \<and> (cl_not_null c \<longrightarrow> default_cell c \<noteq> Null)"

definition widen :: "column \<Rightarrow> db_table \<Rightarrow> db_table" where
  "widen c tb = \<lparr>tb_columns = tb_columns tb @ [c], tb_rows = map (\<lambda>r. r @ [default_cell c]) (tb_rows tb)\<rparr>"

fun exec_stmt :: "stmt \<Rightarrow> (sql_db, string, unit) op" where
  "exec_stmt (CreateTable t cs) d =
     (case sd_tables d t of
        Some _ \<Rightarrow> (Inr (), d)
      | None \<Rightarrow> (Inr (), d\<lparr>sd_tables := (sd_tables d)(t \<mapsto> \<lparr>tb_columns = cs, tb_rows = []\<rparr>)\<rparr>))"
| "exec_stmt (CreateIndex i t c) d =
     (if i \<in> set (sd_indexes d) then (Inr (), d)
      else case sd_tables d t of
          None \<Rightarrow> (Inl (''no such table: '' @ t), d)
        | Some tb \<Rightarrow>
            if c \<in> set (column_names tb) then (Inr (), d\<lparr>sd_indexes := sd_indexes d @ [i]\<rparr>)
            else (Inl (''no such column: '' @ c), d))"
| "exec_stmt (AddColumn t c) d =
     (case sd_tables d t of
        None \<Rightarrow> (Inl (''no such table: '' @ t), d)
      | Some tb \<Rightarrow>
          if cl_name c \<in> set (column_names tb) then (Inl (duplicate_column @ '': '' @ cl_name c), d)
          else if \<not> addable c then (Inl ''cannot add the column'', d)
          else (Inr (), d\<lparr>sd_tables := (sd_tables d)(t \<mapsto> widen c tb)\<rparr>))"

definition db_exec :: "stmt \<Rightarrow> (sql_db, string, unit) op" where
  "db_exec st d =
     (let d' = d\<lparr>sd_faults := tl (sd_faults d)\<rparr>
      in case sd_faults d of Some e # _ \<Rightarrow> (Inl e, d') | _ \<Rightarrow> exec_stmt st d')"

fun exec_script :: "stmt list \<Rightarrow> (sql_db, string, unit) op" where
  "exec_script [] = ret ()"
| "exec_script (st # sts) = andthen (db_exec st) (\<lambda>_. exec_script sts)"

subsection \<open>Migration\<close>

definition add_column :: "string \<Rightarrow> column \<Rightarrow> (sql_db, string, unit) op" where
  "add_column t c d =
     (case db_exec (AddColumn t c) d of
        (Inl e, d') \<Rightarrow> (if \<not> sublist duplicate_column e then Inl e else Inr (), d')
      | (Inr u, d') \<Rightarrow> (Inr (), d'))"

fun add_columns :: "string \<Rightarrow> column list \<Rightarrow> (sql_db, string, unit) op" where
  "add_columns t [] = ret ()"
| "add_columns t (c # cs) = andthen (add_column t c) (\<lambda>_. add_columns t cs)"

definition libraries_added :: "column list" where
  "libraries_added =
     [preset ''auto_scan_interval'' (IntV 21600),
      preset ''watch_enabled'' (IntV 1),
      preset ''last_scan_finished_at'' (IntV 0)]"

definition jobs_added :: "column list" where
  "jobs_added =
     [preset ''attempts'' (IntV 0),
      optional ''file_size'' IntegerT,
      optional ''file_mtime'' IntegerT]"

definition migrate :: "(sql_db, string, unit) op" where
  "migrate =
     andthen (exec_script schema_script) (\<lambda>_.
     andthen (add_columns ''libraries'' libraries_added) (\<lambda>_.
     add_columns ''jobs'' jobs_added))"

text \<open>\<open>sql_open\<close> is the driver's answer to the data source, \<open>None\<close> when it opens it; one connection serves all calls.\<close>

definition data_source :: "string \<Rightarrow> string" where
  "data_source p = ''file:'' @ p @
     ''?_pragma=busy_timeout(5000)&_pragma=journal_mode(WAL)&_pragma=foreign_keys(1)''"

definition open_store :: "(string \<Rightarrow> string option) \<Rightarrow> string \<Rightarrow> (sql_db, string, unit) op" where
  "open_store sql_open p = andthen (no_err (sql_open (data_source p))) (\<lambda>_. migrate)"

subsection \<open>Result columns\<close>

text \<open>The Go variable a column is scanned into; a bool takes the integers 0 and 1.\<close>

datatype dest = ToInt | ToText | ToBool | ToNullInt

fun scan_cell :: "dest \<Rightarrow> cell \<Rightarrow> bool" where
  "scan_cell ToInt v = (case v of IntV i \<Rightarrow> in_i64 i | _ \<Rightarrow> False)"
| "scan_cell ToText v = (v \<noteq> Null)"
| "scan_cell ToBool v = (v = IntV 0 \<or> v = IntV 1)"
| "scan_cell ToNullInt v = (case v of Null \<Rightarrow> True | IntV i \<Rightarrow> in_i64 i | TextV _ \<Rightarrow> False)"

definition cell_at :: "db_table \<Rightarrow> cell list \<Rightarrow> string \<Rightarrow> cell option" where
  "cell_at tb row n = map_of (zip (column_names tb) row) n"

definition scan_row :: "db_table \<Rightarrow> (string \<times> dest) list \<Rightarrow> cell list \<Rightarrow> bool" where
  "scan_row tb sel row \<longleftrightarrow>
     (\<forall>(n, k) \<in> set sel. case cell_at tb row n of None \<Rightarrow> False | Some v \<Rightarrow> scan_cell k v)"

definition library_select :: "(string \<times> dest) list" where
  "library_select =
     [(''id'', ToInt), (''name'', ToText), (''path'', ToText), (''kind'', ToText), (''hardlink_policy'', ToText),
      (''auto_scan_interval'', ToInt), (''watch_enabled'', ToBool), (''last_scan_finished_at'', ToInt)]"

text \<open>The sixth result of this query is the length of \<^verbatim>\<open>probe_json\<close>, an integer whatever the text.\<close>

definition file_meta_select :: "(string \<times> dest) list" where
  "file_meta_select =
     [(''id'', ToInt), (''size'', ToInt), (''mtime'', ToInt), (''nlink'', ToInt), (''sidecar_summary'', ToText)]"

definition file_list_select :: "(string \<times> dest) list" where
  "file_list_select =
     [(''id'', ToInt), (''library_id'', ToInt), (''path'', ToText), (''size'', ToInt), (''mtime'', ToInt),
      (''nlink'', ToInt), (''kind'', ToText), (''series'', ToText), (''season'', ToInt), (''episode'', ToText),
      (''title'', ToText), (''video_codec'', ToText), (''audio_summary'', ToText), (''sub_summary'', ToText),
      (''sidecar_summary'', ToText)]"

definition file_select :: "(string \<times> dest) list" where
  "file_select = file_list_select @ [(''probe_json'', ToText)]"

definition sidecar_select :: "(string \<times> dest) list" where
  "sidecar_select =
     [(''id'', ToInt), (''media_file_id'', ToInt), (''path'', ToText), (''name'', ToText), (''lang'', ToText),
      (''hi'', ToBool), (''forced'', ToBool), (''ext'', ToText), (''size'', ToInt)]"

definition job_list_select :: "(string \<times> dest) list" where
  "job_list_select =
     [(''id'', ToInt), (''type'', ToText), (''media_file_id'', ToNullInt), (''file_path'', ToText),
      (''payload_json'', ToText), (''status'', ToText), (''attempts'', ToInt), (''log'', ToText),
      (''bytes_saved'', ToInt), (''created_at'', ToInt), (''finished_at'', ToInt)]"

definition job_select :: "(string \<times> dest) list" where
  "job_select = job_list_select @ [(''file_size'', ToNullInt), (''file_mtime'', ToNullInt)]"

definition claim_select :: "(string \<times> dest) list" where
  "claim_select =
     [(''id'', ToInt), (''type'', ToText), (''media_file_id'', ToNullInt), (''file_path'', ToText),
      (''payload_json'', ToText), (''attempts'', ToInt), (''created_at'', ToInt), (''file_size'', ToNullInt),
      (''file_mtime'', ToNullInt)]"

definition created_select :: "(string \<times> dest) list" where
  "created_select = [(''id'', ToInt), (''file_size'', ToNullInt), (''file_mtime'', ToNullInt)]"

definition selects :: "(string \<times> (string \<times> dest) list) list" where
  "selects =
     [(''libraries'', library_select), (''media_files'', file_meta_select), (''media_files'', file_list_select),
      (''media_files'', file_select), (''sidecars'', sidecar_select), (''jobs'', job_list_select),
      (''jobs'', job_select), (''jobs'', claim_select), (''jobs'', created_select)]"

end
