(* ===== verification/SchemaProps.thy ===== *)
theory SchemaProps
  imports Schema
begin

text \<open>
  Opening a database of this program or of an older one: every step keeps the rows, each in the types of its
  columns, and after a migration that succeeds every query finds its columns and can scan every row.
\<close>

subsection \<open>Types of rows\<close>

text \<open>The columns read into a Go bool, which the program writes as 0 and 1.\<close>

definition bool_columns :: "string \<Rightarrow> string list" where
  "bool_columns t = (if t = ''libraries'' then [''watch_enabled''] else if t = ''sidecars'' then [''hi'', ''forced''] else [])"

definition cell_fits :: "string \<Rightarrow> column \<Rightarrow> cell \<Rightarrow> bool" where
  "cell_fits t c v \<longleftrightarrow>
     (case v of
        Null \<Rightarrow> \<not> cl_not_null c \<and> \<not> (cl_key c \<and> cl_type c = IntegerT)
      | IntV i \<Rightarrow> cl_type c = IntegerT \<and> in_i64 i
      | TextV s \<Rightarrow> cl_type c = TextT) \<and>
     (cl_name c \<in> set (bool_columns t) \<longrightarrow> v = IntV 0 \<or> v = IntV 1)"

definition typed_table :: "string \<Rightarrow> db_table \<Rightarrow> bool" where
  "typed_table t tb \<longleftrightarrow> distinct (column_names tb) \<and> (\<forall>r \<in> set (tb_rows tb). list_all2 (cell_fits t) (tb_columns tb) r)"

text \<open>A database of this or of an older version: only columns added later can be missing.\<close>

definition added :: "string \<Rightarrow> column list" where
  "added t = (if t = ''libraries'' then libraries_added else if t = ''jobs'' then jobs_added else [])"

definition known_table :: "string \<Rightarrow> db_table \<Rightarrow> bool" where
  "known_table t tb \<longleftrightarrow> (\<forall>(t', cs) \<in> set tables. t' = t \<longrightarrow>
     (\<forall>c \<in> set (cs @ added t). c \<in> set (tb_columns tb) \<or> c \<in> set (added t) \<and> cl_name c \<notin> set (column_names tb)))"

definition sound_db :: "sql_db \<Rightarrow> bool" where
  "sound_db d \<longleftrightarrow> (\<forall>t tb. sd_tables d t = Some tb \<longrightarrow> typed_table t tb \<and> known_table t tb)"

definition has_column :: "sql_db \<Rightarrow> string \<Rightarrow> column \<Rightarrow> bool" where
  "has_column d t c \<longleftrightarrow> (\<exists>tb. sd_tables d t = Some tb \<and> c \<in> set (tb_columns tb))"

definition current :: "sql_db \<Rightarrow> bool" where
  "current d \<longleftrightarrow> (\<forall>(t, cs) \<in> set tables. \<forall>c \<in> set (cs @ added t). has_column d t c)"

text \<open>No row is lost and no cell changes; the cells added are the defaults of their columns.\<close>

definition grown :: "column list \<Rightarrow> db_table \<Rightarrow> db_table" where
  "grown cs tb = \<lparr>tb_columns = tb_columns tb @ cs, tb_rows = map (\<lambda>r. r @ map default_cell cs) (tb_rows tb)\<rparr>"

definition grows :: "sql_db \<Rightarrow> sql_db \<Rightarrow> bool" where
  "grows d d' \<longleftrightarrow> (\<forall>t tb. sd_tables d t = Some tb \<longrightarrow> (\<exists>cs. sd_tables d' t = Some (grown cs tb)))"

lemma grown_grown: "grown cs' (grown cs tb) = grown (cs @ cs') tb"
  by (simp add: grown_def)

lemma grown_Nil [simp]: "grown [] tb = tb"
  by (simp add: grown_def)

lemma widen_grown: "widen c tb = grown [c] tb"
  by (simp add: widen_def grown_def)

text \<open>What a step of the migration respects.\<close>

definition evolves :: "sql_db \<Rightarrow> sql_db \<Rightarrow> bool" where
  "evolves d d' \<longleftrightarrow> grows d d' \<and> set (sd_faults d') \<subseteq> set (sd_faults d) \<and>
     (sound_db d \<longrightarrow> sound_db d')"

lemma grows_refl: "grows d d"
  unfolding grows_def by (metis grown_Nil)

lemma grows_trans: "grows d e \<Longrightarrow> grows e f \<Longrightarrow> grows d f"
  unfolding grows_def by (metis grown_grown)

interpretation evo: frame evolves
proof
  show "evolves d d" for d by (simp add: evolves_def grows_refl)
  show "evolves d f" if "evolves d e" "evolves e f" for d e f
    using that grows_trans by (auto simp: evolves_def)
qed

lemma has_column_grows: "grows d d' \<Longrightarrow> has_column d t c \<Longrightarrow> has_column d' t c"
  by (force simp: grows_def has_column_def grown_def)

lemma dom_grows: "grows d d' \<Longrightarrow> sd_tables d t \<noteq> None \<Longrightarrow> sd_tables d' t \<noteq> None"
  by (auto simp: grows_def)

subsection \<open>Single statements\<close>

lemma fits_default:
  assumes "(t, cs) \<in> set tables" "c \<in> set (added t)"
  shows "cell_fits t c (default_cell c) \<and> addable c"
proof -
  have "\<forall>c \<in> set libraries_added. cell_fits ''libraries'' c (default_cell c) \<and> addable c"
    "\<forall>c \<in> set jobs_added. cell_fits ''jobs'' c (default_cell c) \<and> addable c"
    by (simp_all add: libraries_added_def jobs_added_def preset_def needed_def optional_def default_cell_def
        addable_def cell_fits_def bool_columns_def)
  with assms show ?thesis by (auto simp: added_def split: if_splits)
qed

lemma column_name [simp]:
  "cl_name (optional n t) = n" "cl_name (needed n t) = n" "cl_name (preset n v) = n" "cl_name (row_key n t) = n"
  by (simp_all add: optional_def needed_def preset_def row_key_def)

lemma declared_distinct: "(t, cs) \<in> set tables \<Longrightarrow> distinct (map cl_name cs)"
  by (auto simp: tables_def libraries_columns_def media_files_columns_def sidecars_columns_def jobs_columns_def
      settings_columns_def)

lemma added_declared:
  assumes "(t, cs) \<in> set tables" "c \<in> set (added t)" "cl_name c \<in> set (map cl_name cs)"
  shows "c \<in> set cs"
proof -
  have "set libraries_added \<subseteq> set libraries_columns" by (simp add: libraries_added_def libraries_columns_def)
  moreover have "set (map cl_name jobs_added) \<inter> set (map cl_name jobs_columns) = {}"
    by (simp add: jobs_added_def jobs_columns_def)
  ultimately show ?thesis using assms by (auto simp: added_def tables_def split: if_splits)
qed

lemma added_distinct: "distinct (map cl_name (added t))"
  by (simp add: added_def libraries_added_def jobs_added_def)

lemma tables_unique: "(t, cs) \<in> set tables \<Longrightarrow> (t, cs') \<in> set tables \<Longrightarrow> cs' = cs"
  by (auto simp: tables_def)

text \<open>The statements of the script and of the loops over added columns.\<close>

fun declared :: "stmt \<Rightarrow> bool" where
  "declared (CreateTable t cs) \<longleftrightarrow> (t, cs) \<in> set tables"
| "declared (CreateIndex i t c) \<longleftrightarrow> True"
| "declared (AddColumn t c) \<longleftrightarrow> t \<in> fst ` set tables \<and> c \<in> set (added t)"

text \<open>A table is created or widened.\<close>

lemma put_evolves:
  assumes "sd_tables d t = None \<or> (\<exists>tb cs. sd_tables d t = Some tb \<and> x = grown cs tb)"
    and "sound_db d \<Longrightarrow> typed_table t x \<and> known_table t x"
  shows "evolves d (d\<lparr>sd_tables := (sd_tables d)(t \<mapsto> x)\<rparr>)"
  using assms grows_refl [of d] by (auto simp: evolves_def grows_def sound_db_def)

lemma create_evolves:
  assumes "(t, cs) \<in> set tables" "sd_tables d t = None"
  shows "evolves d (d\<lparr>sd_tables := (sd_tables d)(t \<mapsto> \<lparr>tb_columns = cs, tb_rows = []\<rparr>)\<rparr>)"
proof (rule put_evolves)
  show "typed_table t \<lparr>tb_columns = cs, tb_rows = []\<rparr> \<and> known_table t \<lparr>tb_columns = cs, tb_rows = []\<rparr>"
    using declared_distinct [OF assms(1)] tables_unique [OF assms(1)] added_declared [OF assms(1)]
    by (fastforce simp: typed_table_def known_table_def column_names_def)
qed (simp add: assms(2))

lemma add_evolves:
  assumes "(t, cs) \<in> set tables" "c \<in> set (added t)" "sd_tables d t = Some tb" "cl_name c \<notin> set (column_names tb)"
  shows "evolves d (d\<lparr>sd_tables := (sd_tables d)(t \<mapsto> widen c tb)\<rparr>)"
proof (rule put_evolves)
  assume "sound_db d"
  then have s: "typed_table t tb" "known_table t tb" using assms(3) by (auto simp: sound_db_def)
  have "typed_table t (widen c tb)"
    using s(1) assms(4) fits_default [OF assms(1,2)]
    by (auto simp: typed_table_def widen_def column_names_def intro: list_all2_appendI)
  moreover have "k \<in> set (tb_columns (widen c tb)) \<or> k \<in> set (added t) \<and> cl_name k \<notin> set (column_names (widen c tb))"
    if "k \<in> set (tb_columns tb) \<or> k \<in> set (added t) \<and> cl_name k \<notin> set (column_names tb)" for k
    using that assms(2) added_distinct [of t] by (auto simp: widen_def column_names_def distinct_map dest: inj_onD)
  ultimately show "typed_table t (widen c tb) \<and> known_table t (widen c tb)"
    using s(2) by (fastforce simp: known_table_def)
qed (use assms(3) in \<open>auto simp: widen_grown\<close>)

lemma stmt_evolves: "declared st \<Longrightarrow> keeps evolves (exec_stmt st)"
proof (rule keepsI)
  fix d r d'
  assume st: "declared st" and run: "exec_stmt st d = (r, d')"
  have same: "evolves d (d\<lparr>sd_indexes := ix\<rparr>)" for ix
    using grows_refl [of d] by (simp add: evolves_def grows_def sound_db_def)
  show "evolves d d'"
  proof (cases st)
    case (CreateTable t cs)
    with st run show ?thesis by (auto simp: evo.frame_refl create_evolves split: option.splits)
  next
    case (CreateIndex i t c)
    with run show ?thesis by (auto simp: evo.frame_refl same split: option.splits if_splits)
  next
    case (AddColumn t c)
    with st run show ?thesis
      by (auto simp: evo.frame_refl split: option.splits if_splits intro: add_evolves)
  qed
qed

lemma exec_evolves: "declared st \<Longrightarrow> keeps evolves (db_exec st)"
proof (rule keepsI)
  fix d r d'
  assume st: "declared st" and run: "db_exec st d = (r, d')"
  let ?d = "d\<lparr>sd_faults := tl (sd_faults d)\<rparr>"
  have "evolves d ?d" using grows_refl [of d] by (cases "sd_faults d") (auto simp: evolves_def grows_def sound_db_def)
  moreover have "evolves ?d d'"
    using run keepsD [OF stmt_evolves [OF st], of ?d r d']
    by (auto simp: db_exec_def Let_def evo.frame_refl split: list.splits option.splits)
  ultimately show "evolves d d'" by (rule evo.frame_trans)
qed

lemma script_evolves: "\<forall>st \<in> set sts. declared st \<Longrightarrow> keeps evolves (exec_script sts)"
  by (induction sts) (auto intro!: evo.keeps_intros exec_evolves)

lemma add_column_evolves: "declared (AddColumn t c) \<Longrightarrow> keeps evolves (add_column t c)"
proof (rule keepsI)
  fix d r d'
  assume k: "declared (AddColumn t c)" and run: "add_column t c d = (r, d')"
  obtain r1 d1 where x: "db_exec (AddColumn t c) d = (r1, d1)" by fastforce
  with run have "d' = d1" by (auto simp: add_column_def split: sum.splits)
  with keepsD [OF exec_evolves [OF k] x] show "evolves d d'" by simp
qed

lemma add_columns_evolves: "t \<in> fst ` set tables \<Longrightarrow> set cs \<subseteq> set (added t) \<Longrightarrow> keeps evolves (add_columns t cs)"
  by (induction cs) (simp_all add: evo.keeps_ret evo.keeps_andthen add_column_evolves)

lemma schema_declared: "\<forall>st \<in> set schema_script. declared st"
  by (simp add: schema_script_def tables_def)

lemma loops_declared:
  "''libraries'' \<in> fst ` set tables" "''jobs'' \<in> fst ` set tables"
  "added ''libraries'' = libraries_added" "added ''jobs'' = jobs_added"
  by (simp_all add: tables_def added_def)

lemma migrate_evolves: "keeps evolves migrate"
  unfolding migrate_def
  by (intro evo.keeps_intros script_evolves schema_declared add_columns_evolves) (simp_all add: loops_declared)

subsection \<open>A migration that succeeds\<close>

text \<open>Only the error of a column that exists says so: the driver has no other error with these words.\<close>

definition honest_faults :: "sql_db \<Rightarrow> bool" where
  "honest_faults d \<longleftrightarrow> (\<forall>e. Some e \<in> set (sd_faults d) \<longrightarrow> \<not> sublist duplicate_column e)"

lemma honest_evolves: "evolves d d' \<Longrightarrow> honest_faults d \<Longrightarrow> honest_faults d'"
  by (auto simp: evolves_def honest_faults_def)

lemma script_creates:
  assumes "exec_script sts d = (Inr (), d')" "\<forall>st \<in> set sts. declared st" "CreateTable t cs \<in> set sts"
  shows "sd_tables d' t \<noteq> None"
  using assms
proof (induction sts arbitrary: d)
  case (Cons st sts)
  then obtain d1 where st: "db_exec st d = (Inr (), d1)" and r: "exec_script sts d1 = (Inr (), d')"
    by (auto simp: andthen_Inr_iff)
  have "evolves d1 d'" using keepsD [OF script_evolves r] Cons.prems(2) by simp
  moreover have "sd_tables d1 t \<noteq> None" if "st = CreateTable t cs"
    using st that by (auto simp: db_exec_def Let_def split: list.splits option.splits)
  ultimately show ?case
    using Cons.IH [OF r] Cons.prems(2,3) dom_grows [of d1 d' t] by (auto simp: evolves_def)
qed simp

lemma known_column:
  assumes "sound_db d" "(t, cs) \<in> set tables" "sd_tables d t = Some tb" "c \<in> set (cs @ added t)"
  shows "c \<in> set (tb_columns tb) \<or> c \<in> set (added t) \<and> cl_name c \<notin> set (column_names tb)"
proof -
  have "known_table t tb" using assms(1,3) by (simp add: sound_db_def)
  from bspec [OF this [unfolded known_table_def] assms(2)] assms(4) show ?thesis by simp
qed

lemma add_column_has:
  assumes run: "add_column t c d = (Inr (), d')" and t: "(t, cs) \<in> set tables" "c \<in> set (added t)"
    and d: "sound_db d" "honest_faults d" "sd_tables d t \<noteq> None"
  shows "has_column d' t c"
proof (cases "\<exists>e fs. sd_faults d = Some e # fs")
  case True
  then obtain e fs where e: "sd_faults d = Some e # fs" by blast
  with d(2) have "\<not> sublist duplicate_column e" by (simp add: honest_faults_def)
  with run e show ?thesis by (simp add: add_column_def db_exec_def Let_def)
next
  case False
  obtain tb where tb: "sd_tables d t = Some tb" using d(3) by blast
  let ?d = "d\<lparr>sd_faults := tl (sd_faults d)\<rparr>"
  have ex: "db_exec (AddColumn t c) d = exec_stmt (AddColumn t c) ?d"
    using False by (auto simp: db_exec_def Let_def split: list.splits option.splits)
  show ?thesis
  proof (cases "cl_name c \<in> set (column_names tb)")
    case True
    then have "c \<in> set (tb_columns tb)" using known_column [OF d(1) t(1) tb, of c] t(2) by auto
    moreover have "sd_tables d' = sd_tables d" using run True tb by (auto simp: add_column_def ex split: if_splits)
    ultimately show ?thesis using tb by (simp add: has_column_def)
  next
    case False
    then have "d' = ?d\<lparr>sd_tables := (sd_tables d)(t \<mapsto> widen c tb)\<rparr>"
      using run tb fits_default [OF t] by (simp add: add_column_def ex)
    then show ?thesis by (simp add: has_column_def widen_def)
  qed
qed

lemma add_columns_has:
  assumes "add_columns t ks d = (Inr (), d')" "(t, cs) \<in> set tables" "set ks \<subseteq> set (added t)"
    and "sound_db d" "honest_faults d" "sd_tables d t \<noteq> None" "c \<in> set ks"
  shows "has_column d' t c"
  using assms
proof (induction ks arbitrary: d)
  case (Cons k ks)
  then obtain d1 where k: "add_column t k d = (Inr (), d1)" and r: "add_columns t ks d1 = (Inr (), d')"
    by (auto simp: andthen_Inr_iff)
  have t: "t \<in> fst ` set tables" using Cons.prems(2) by force
  have e: "evolves d d1" using keepsD [OF add_column_evolves k] t Cons.prems(3) by simp
  have e': "evolves d1 d'" using keepsD [OF add_columns_evolves [OF t] r] Cons.prems(3) by simp
  show ?case
  proof (cases "c = k")
    case True
    then show ?thesis
      using add_column_has [OF k Cons.prems(2) _ Cons.prems(4-6)] Cons.prems(3) has_column_grows e'
      by (auto simp: evolves_def)
  next
    case False
    have "sd_tables d1 t \<noteq> None" using e Cons.prems(6) dom_grows by (auto simp: evolves_def)
    with False Cons.IH [OF r Cons.prems(2)] Cons.prems e honest_evolves [OF e] show ?thesis
      by (auto simp: evolves_def)
  qed
qed simp

lemma migrate_current:
  assumes run: "migrate d = (Inr (), d')" and d: "sound_db d" "honest_faults d"
  shows "current d'"
proof -
  from run obtain d1 d2 where s: "exec_script schema_script d = (Inr (), d1)"
    and l: "add_columns ''libraries'' libraries_added d1 = (Inr (), d2)"
    and j: "add_columns ''jobs'' jobs_added d2 = (Inr (), d')"
    by (auto simp: migrate_def andthen_Inr_iff)
  have e1: "evolves d d1" using keepsD [OF script_evolves s] schema_declared by simp
  have e2: "evolves d1 d2" using keepsD [OF add_columns_evolves l] loops_declared by simp
  have e3: "evolves d2 d'" using keepsD [OF add_columns_evolves j] loops_declared by simp
  note g = e1 e2 e3 [unfolded evolves_def]
  have s1: "sound_db d1" "honest_faults d1" "sound_db d2" "honest_faults d2" "sound_db d'"
    using d e1 e2 e3 honest_evolves by (auto simp: evolves_def)
  have ex: "sd_tables d1 t \<noteq> None" if "(t, cs) \<in> set tables" for t cs
    using script_creates [OF s schema_declared, of t cs] that by (auto simp: schema_script_def tables_def)
  then have ex2: "sd_tables d2 t \<noteq> None" if "(t, cs) \<in> set tables" for t cs
    using that e2 dom_grows unfolding evolves_def by blast
  have ad: "has_column d' t c" if "(t, cs) \<in> set tables" "c \<in> set (added t)" for t cs c
  proof (cases "t = ''libraries''")
    case True
    then have "has_column d2 t c"
      using add_columns_has [of t libraries_added d1 d2 cs c] l that s1 ex by (simp add: loops_declared)
    then show ?thesis using e3 has_column_grows by (auto simp: evolves_def)
  next
    case False
    then have "t = ''jobs''" using that(2) by (auto simp: added_def split: if_splits)
    then show ?thesis
      using add_columns_has [of t jobs_added d2 d' cs c] j that s1 ex2 by (simp add: loops_declared)
  qed
  have "has_column d' t c" if t: "(t, cs) \<in> set tables" "c \<in> set cs" for t cs c
  proof -
    obtain tb where tb: "sd_tables d' t = Some tb" using ex2 [OF t(1)] e3 dom_grows unfolding evolves_def by blast
    from known_column [OF s1(5) t(1) tb, of c] t(2) ad [OF t(1), of c] tb show ?thesis
      by (auto simp: has_column_def)
  qed
  with ad show ?thesis by (auto simp: current_def)
qed

text \<open>On a current database every query finds its columns, and no row makes its scan fail.\<close>

definition dest_of :: "string \<Rightarrow> column \<Rightarrow> dest \<Rightarrow> bool" where
  "dest_of t c k \<longleftrightarrow>
     (case k of
        ToInt \<Rightarrow> cl_type c = IntegerT \<and> (cl_not_null c \<or> cl_key c)
      | ToText \<Rightarrow> cl_type c = TextT \<and> cl_not_null c
      | ToBool \<Rightarrow> cl_name c \<in> set (bool_columns t)
      | ToNullInt \<Rightarrow> cl_type c = IntegerT)"

lemma scan_fits: "cell_fits t c v \<Longrightarrow> dest_of t c k \<Longrightarrow> scan_cell k v"
  by (cases k; cases v) (auto simp: cell_fits_def dest_of_def)

definition serves :: "string \<times> (string \<times> dest) list \<Rightarrow> bool" where
  "serves q = (case q of (t, sel) \<Rightarrow>
     case map_of tables t of None \<Rightarrow> False
     | Some cs \<Rightarrow> list_all (\<lambda>(n, k). list_ex (\<lambda>c. cl_name c = n \<and> dest_of t c k) (cs @ added t)) sel)"

lemma selects_served: "list_all serves selects"
  by code_simp

lemma cell_at_nth:
  assumes "distinct (column_names tb)" "i < length (tb_columns tb)" "length row = length (tb_columns tb)"
  shows "cell_at tb row (cl_name (tb_columns tb ! i)) = Some (row ! i)"
  using assms map_of_zip_nth [of "column_names tb" row i] by (simp add: cell_at_def column_names_def)

lemma scan_current:
  assumes c: "current d" "sound_db d" and q: "(t, sel) \<in> set selects"
    and tb: "sd_tables d t = Some tb" "row \<in> set (tb_rows tb)"
  shows "scan_row tb sel row"
proof -
  have tt: "distinct (column_names tb)" "list_all2 (cell_fits t) (tb_columns tb) row"
    using c(2) tb by (auto simp: sound_db_def typed_table_def)
  from selects_served q have "serves (t, sel)" by (simp add: list_all_iff)
  then obtain cs where cs: "map_of tables t = Some cs"
    and all: "\<forall>(n, k) \<in> set sel. \<exists>c \<in> set (cs @ added t). cl_name c = n \<and> dest_of t c k"
    by (auto simp: serves_def list_all_iff list_ex_iff split: option.splits)
  have in_t: "(t, cs) \<in> set tables" using cs by (rule map_of_SomeD)
  have "\<exists>v. cell_at tb row n = Some v \<and> scan_cell k v" if "(n, k) \<in> set sel" for n k
  proof -
    from all that obtain x where x: "x \<in> set (cs @ added t)" "cl_name x = n" "dest_of t x k" by blast
    then have "x \<in> set (tb_columns tb)" using c(1) in_t tb(1) by (force simp: current_def has_column_def)
    then obtain i where i: "i < length (tb_columns tb)" "tb_columns tb ! i = x" by (auto simp: in_set_conv_nth)
    have "cell_fits t x (row ! i)" using list_all2_nthD [OF tt(2) i(1)] i(2) by simp
    then have "scan_cell k (row ! i)" using x(3) by (rule scan_fits)
    moreover have "cell_at tb row n = Some (row ! i)"
      using cell_at_nth [OF tt(1) i(1)] list_all2_lengthD [OF tt(2)] i(2) x(2) by simp
    ultimately show ?thesis by blast
  qed
  then show ?thesis by (fastforce simp: scan_row_def)
qed

subsection \<open>A migration without faults\<close>

text \<open>Indexes come after their tables, on columns of the first version.\<close>

fun ready :: "string set \<Rightarrow> stmt list \<Rightarrow> bool" where
  "ready T [] \<longleftrightarrow> True"
| "ready T (CreateTable t cs # sts) \<longleftrightarrow> (t, cs) \<in> set tables \<and> ready (insert t T) sts"
| "ready T (CreateIndex i t n # sts) \<longleftrightarrow>
     t \<in> T \<and> (\<exists>(t', cs) \<in> set tables. t' = t \<and> (\<exists>c \<in> set cs. cl_name c = n \<and> c \<notin> set (added t))) \<and> ready T sts"
| "ready T (AddColumn t c # sts) \<longleftrightarrow> False"

lemma schema_ready: "ready {} schema_script"
  by (simp add: schema_script_def tables_def media_files_columns_def sidecars_columns_def jobs_columns_def
      added_def libraries_added_def jobs_added_def)
    (simp add: preset_def needed_def optional_def)

lemma script_runs:
  assumes "ready T sts" "sound_db d" "sd_faults d = []" "\<forall>t \<in> T. sd_tables d t \<noteq> None"
  shows "\<exists>d'. exec_script sts d = (Inr (), d')"
  using assms
proof (induction T sts arbitrary: d rule: ready.induct)
  case (2 T t cs sts)
  obtain d1 where x: "db_exec (CreateTable t cs) d = (Inr (), d1)" "sd_tables d1 t \<noteq> None"
    using 2(4) by (cases "sd_tables d t") (auto simp: db_exec_def Let_def)
  have e: "evolves d d1" using keepsD [OF exec_evolves x(1)] 2(2) by simp
  have "\<exists>d'. exec_script sts d1 = (Inr (), d')"
  proof (rule 2(1))
    show "sound_db d1" "sd_faults d1 = []" using e 2(3,4) by (auto simp: evolves_def)
    show "\<forall>s \<in> insert t T. sd_tables d1 s \<noteq> None" using x(2) 2(5) e dom_grows unfolding evolves_def by blast
  qed (use 2(2) in simp)
  with x(1) show ?case by (auto simp: andthen_Inr_iff)
next
  case (3 T i t n sts)
  from 3(2) obtain cs c where c: "(t, cs) \<in> set tables" "c \<in> set cs" "cl_name c = n" "c \<notin> set (added t)" by auto
  obtain tb where tb: "sd_tables d t = Some tb" using 3(2,5) by auto
  from known_column [OF 3(3) c(1) tb, of c] c(2,4) have "c \<in> set (tb_columns tb)" by auto
  then have "n \<in> set (column_names tb)" using c(3) by (auto simp: column_names_def)
  with tb 3(4) obtain d1 where x: "db_exec (CreateIndex i t n) d = (Inr (), d1)" "sd_tables d1 = sd_tables d"
    by (cases "i \<in> set (sd_indexes d)") (auto simp: db_exec_def Let_def)
  have e: "evolves d d1" using keepsD [OF exec_evolves x(1)] by simp
  have "\<exists>d'. exec_script sts d1 = (Inr (), d')"
    by (rule 3(1)) (use 3(2-5) e x(2) in \<open>auto simp: evolves_def\<close>)
  with x(1) show ?case by (auto simp: andthen_Inr_iff)
qed auto

lemma add_columns_runs:
  assumes "sound_db d" "sd_faults d = []" "(t, cs) \<in> set tables" "sd_tables d t \<noteq> None" "set ks \<subseteq> set (added t)"
  shows "\<exists>d'. add_columns t ks d = (Inr (), d')"
  using assms
proof (induction ks arbitrary: d)
  case (Cons k ks)
  have k: "declared (AddColumn t k)" using Cons.prems(3,5) by force
  obtain tb where "sd_tables d t = Some tb" using Cons.prems(4) by blast
  moreover have "sublist duplicate_column (duplicate_column @ '': '' @ cl_name k)" by (simp add: prefix_imp_sublist)
  ultimately obtain d1 where x: "add_column t k d = (Inr (), d1)"
    using Cons.prems(2,5) fits_default [OF Cons.prems(3), of k]
    by (cases "cl_name k \<in> set (column_names tb)") (auto simp: add_column_def db_exec_def Let_def)
  have e: "evolves d d1" using keepsD [OF add_column_evolves [OF k] x] .
  have "\<exists>d'. add_columns t ks d1 = (Inr (), d')"
    by (rule Cons.IH) (use Cons.prems e dom_grows in \<open>auto simp: evolves_def\<close>)
  with x show ?case by (auto simp: andthen_Inr_iff)
qed simp

lemma migrate_runs:
  assumes d: "sound_db d" "sd_faults d = []"
  shows "\<exists>d'. migrate d = (Inr (), d')"
proof -
  obtain d1 where s: "exec_script schema_script d = (Inr (), d1)" using script_runs [OF schema_ready d] by auto
  have e1: "evolves d d1" using keepsD [OF script_evolves s] schema_declared by simp
  have t: "(''libraries'', libraries_columns) \<in> set tables" "(''jobs'', jobs_columns) \<in> set tables"
    by (simp_all add: tables_def)
  have ex: "sd_tables d1 ''libraries'' \<noteq> None" "sd_tables d1 ''jobs'' \<noteq> None"
    using script_creates [OF s schema_declared] by (auto simp: schema_script_def)
  have d1: "sound_db d1" "sd_faults d1 = []" using e1 d by (auto simp: evolves_def)
  obtain d2 where l: "add_columns ''libraries'' libraries_added d1 = (Inr (), d2)"
    using add_columns_runs [OF d1 t(1) ex(1)] loops_declared by auto
  have e2: "evolves d1 d2" using keepsD [OF add_columns_evolves l] loops_declared by simp
  have d2: "sound_db d2" "sd_faults d2 = []" using e2 d1 by (auto simp: evolves_def)
  obtain d3 where j: "add_columns ''jobs'' jobs_added d2 = (Inr (), d3)"
    using add_columns_runs [OF d2 t(2), of jobs_added] dom_grows [OF _ ex(2), of d2] e2 by (auto simp: evolves_def loops_declared)
  from s l j show ?thesis by (auto simp: migrate_def andthen_Inr_iff)
qed

subsection \<open>The property\<close>

text \<open>
  C40: opening a database of this or of an older version keeps every row with its cells, each of the type of its
  column, whether the migration succeeds or fails on the way, so that it can be repeated. When it succeeds every
  declared column exists with its type and every query of the store finds its columns and scans every row into its
  Go variables without an error; without an outside fault it does succeed.
\<close>

theorem migrated_rows_scan:
  assumes "sound_db d" "honest_faults d" "open_store sql_open p d = (res, d')"
  shows "sound_db d' \<and> grows d d' \<and>
    (res = Inr () \<longrightarrow> current d' \<and> (\<forall>(t, sel) \<in> set selects. \<exists>tb. sd_tables d' t = Some tb \<and>
       (\<forall>row \<in> set (tb_rows tb). scan_row tb sel row))) \<and>
    (sql_open (data_source p) = None \<longrightarrow> sd_faults d = [] \<longrightarrow> res = Inr ())"
proof -
  have "keeps evolves (open_store sql_open p)"
    unfolding open_store_def by (intro evo.keeps_intros migrate_evolves)
  from keepsD [OF this assms(3)] assms(1) have s: "sound_db d'" "grows d d'" by (simp_all add: evolves_def)
  have m: "migrate d = (res, d')" if "sql_open (data_source p) = None"
    using assms(3) that by (simp add: open_store_def andthen_def no_err_def ret_def)
  have c: "current d'" if "res = Inr ()"
  proof (rule migrate_current [OF _ assms(1,2)])
    show "migrate d = (Inr (), d')" using assms(3) that m by (auto simp: open_store_def andthen_Inr_iff no_err_Inr)
  qed
  have ex: "\<exists>tb. sd_tables d' t = Some tb" if "res = Inr ()" "(t, sel) \<in> set selects" for t sel
  proof -
    have "list_all (\<lambda>q. map_of tables (fst q) \<notin> {None, Some []}) selects" by code_simp
    then have "map_of tables t \<notin> {None, Some []}" using that(2) by (force simp: list_all_iff)
    then obtain c cs where "map_of tables t = Some (c # cs)" by (cases "map_of tables t") (auto simp: neq_Nil_conv)
    then have "(t, c # cs) \<in> set tables" by (rule map_of_SomeD)
    with c [OF that(1)] show ?thesis by (force simp: current_def has_column_def)
  qed
  have "res = Inr ()" if "sql_open (data_source p) = None" "sd_faults d = []"
    using m [OF that(1)] migrate_runs [OF assms(1) that(2)] by auto
  with s c ex scan_current show ?thesis by blast
qed

text \<open>A database of the first version: a queue of one finished job and no other table.\<close>

definition old_job :: "cell list" where
  "old_job = [IntV 1, TextV ''remux'', Null, TextV ''/m/a.mkv'', TextV ''{}'', TextV ''done'', TextV '''', IntV 9,
     IntV 5, IntV 6]"

definition old_jobs :: db_table where
  "old_jobs = \<lparr>tb_columns = jobs_columns, tb_rows = [old_job]\<rparr>"

definition old_db :: sql_db where
  "old_db = \<lparr>sd_tables = [''jobs'' \<mapsto> old_jobs], sd_indexes = [], sd_faults = []\<rparr>"

lemma old_db_sound: "sound_db old_db"
proof -
  have "list_all2 (cell_fits ''jobs'') jobs_columns old_job"
    by (simp add: jobs_columns_def old_job_def)
      (simp add: cell_fits_def bool_columns_def row_key_def needed_def optional_def preset_def)
  then have "typed_table ''jobs'' old_jobs"
    using declared_distinct [of "''jobs''" jobs_columns]
    by (simp add: old_jobs_def typed_table_def column_names_def tables_def)
  moreover have "known_table ''jobs'' old_jobs"
    using added_declared [of "''jobs''" jobs_columns]
    by (auto simp: known_table_def tables_def old_jobs_def column_names_def)
  ultimately show ?thesis by (simp add: sound_db_def old_db_def)
qed

theorem migrated_rows_scan_witness:
  "\<exists>d tb cells. open_store (\<lambda>_. None) ''/c/muxprune.db'' old_db = (Inr (), d) \<and> sd_tables d ''jobs'' = Some tb \<and>
     tb_rows tb = [old_job @ cells] \<and> scan_row tb job_select (old_job @ cells)"
proof -
  obtain r d where run: "open_store (\<lambda>_. None) ''/c/muxprune.db'' old_db = (r, d)" by fastforce
  have h: "honest_faults old_db" "sd_faults old_db = []" by (simp_all add: honest_faults_def old_db_def)
  note m = migrated_rows_scan [OF old_db_sound h(1) run]
  have r: "r = Inr ()" using m h(2) by simp
  have "grows old_db d" "sd_tables old_db ''jobs'' = Some old_jobs" using m by (blast, simp add: old_db_def)
  then obtain cs where tb: "sd_tables d ''jobs'' = Some (grown cs old_jobs)" unfolding grows_def by blast
  have "(''jobs'', job_select) \<in> set selects" by (simp add: selects_def)
  with m r tb have "\<forall>row \<in> set (tb_rows (grown cs old_jobs)). scan_row (grown cs old_jobs) job_select row" by fastforce
  with run r tb show ?thesis by (auto simp: grown_def old_jobs_def)
qed

end
