(* ===== verification/Watcher.thy ===== *)
theory Watcher
  imports Scanner
begin

text \<open>
  \<^verbatim>\<open>internal/watch/watcher.go\<close>: the watcher of one library, which follows its directories and asks for a
  scan once things have been quiet for a while. The package \<^verbatim>\<open>fsnotify\<close> is a parameter: functions on a
  state of its own. A \<^verbatim>\<open>time.Timer\<close> is a number; it is armed with a deadline, and once the deadline has
  passed its function runs in a goroutine of its own, which may be late.
\<close>

subsection \<open>What the watcher uses\<close>

record 'k fsnotify =
  fn_new :: "'k \<Rightarrow> (string + nat) \<times> 'k"
  fn_add :: "nat \<Rightarrow> path \<Rightarrow> 'k \<Rightarrow> string option \<times> 'k"
  fn_remove :: "nat \<Rightarrow> path \<Rightarrow> 'k \<Rightarrow> 'k"
  fn_list :: "nat \<Rightarrow> 'k \<Rightarrow> path list"
  fn_close :: "nat \<Rightarrow> 'k \<Rightarrow> 'k"

text \<open>What the file system answers: the identity of a file, whether \<^verbatim>\<open>Lstat\<close> finds a directory, the tree
  below it, and the type of the file system (\<^verbatim>\<open>Statfs\<close>).\<close>

record fs_view =
  fv_stat :: "path \<Rightarrow> nat option"
  fv_is_dir :: "path \<Rightarrow> bool"
  fv_tree :: "path \<Rightarrow> wnode option"
  fv_magic :: "path \<Rightarrow> int option"

record fs_event =
  fe_name :: path
  fe_create :: bool
  fe_gone :: bool

definition trim_prefix :: "string \<Rightarrow> string \<Rightarrow> string" where
  "trim_prefix s p = (if prefix p s then drop (length p) s else s)"

definition is_relevant_file :: "string \<Rightarrow> bool" where
  "is_relevant_file name \<longleftrightarrow>
     \<not> prefix ''.'' name \<and>
     (is_video name \<or> is_subtitle_ext (trim_prefix (to_lower (file_ext name)) ''.''))"

subsection \<open>State\<close>

record watcher =
  wt_lib :: int
  wt_root :: path
  wt_debounce :: int
  wt_limit :: int
  wt_handle :: nat
  wt_info :: "nat option"
  wt_started :: bool
  wt_ended :: bool
  wt_dead :: bool
  wt_watches :: int
  wt_degraded :: bool
  wt_timer :: "nat option"
  wt_armed :: "(nat \<times> int) list"
  wt_next_timer :: nat
  wt_firing :: nat

text \<open>A watcher, the state of \<^verbatim>\<open>fsnotify\<close>, and the statuses reported so far.\<close>

record 'k watching =
  wg_w :: watcher
  wg_k :: 'k
  wg_out :: "(int \<times> string) list"

definition default_watch_limit :: int where "default_watch_limit = 8192"

definition new_lib_watcher :: "int \<Rightarrow> path \<Rightarrow> int \<Rightarrow> watcher" where
  "new_lib_watcher lib rt debounce =
     \<lparr>wt_lib = lib, wt_root = rt, wt_debounce = (if debounce \<le> 0 then 10 * 1000000000 else debounce),
      wt_limit = default_watch_limit, wt_handle = 0, wt_info = None, wt_started = False, wt_ended = False,
      wt_dead = False, wt_watches = 0, wt_degraded = False, wt_timer = None, wt_armed = [], wt_next_timer = 0,
      wt_firing = 0\<rparr>"

definition on_watcher :: "(watcher \<Rightarrow> watcher) \<Rightarrow> 'k watching \<Rightarrow> 'k watching" where
  "on_watcher f s = s\<lparr>wg_w := f (wg_w s)\<rparr>"

definition report :: "string \<Rightarrow> 'k watching \<Rightarrow> 'k watching" where
  "report msg s = s\<lparr>wg_out := wg_out s @ [(wt_lib (wg_w s), msg)]\<rparr>"

definition watch_list :: "'k fsnotify \<Rightarrow> 'k watching \<Rightarrow> path list" where
  "watch_list fn s = fn_list fn (wt_handle (wg_w s)) (wg_k s)"

definition watch_path :: "'k fsnotify \<Rightarrow> path \<Rightarrow> 'k watching \<Rightarrow> string option \<times> 'k watching" where
  "watch_path fn p s = (case fn_add fn (wt_handle (wg_w s)) p (wg_k s) of (e, k) \<Rightarrow> (e, s\<lparr>wg_k := k\<rparr>))"

definition unwatch_path :: "'k fsnotify \<Rightarrow> path \<Rightarrow> 'k watching \<Rightarrow> 'k watching" where
  "unwatch_path fn p s = s\<lparr>wg_k := fn_remove fn (wt_handle (wg_w s)) p (wg_k s)\<rparr>"

definition close_watch :: "'k fsnotify \<Rightarrow> 'k watching \<Rightarrow> 'k watching" where
  "close_watch fn s = s\<lparr>wg_k := fn_close fn (wt_handle (wg_w s)) (wg_k s)\<rparr>"

subsection \<open>Directories\<close>

text \<open>The answer says whether the walk goes on below; \<open>known\<close> is the caller's map.\<close>

definition add_watch :: "'k fsnotify \<Rightarrow> path \<Rightarrow> path list \<times> 'k watching \<Rightarrow> bool \<times> path list \<times> 'k watching" where
  "add_watch fn p ks =
     (case ks of (known, s) \<Rightarrow>
      let w = wg_w s in
      if p \<notin> set known \<and> 0 < wt_limit w \<and> wt_limit w \<le> wt_watches w then
        (False, known,
         (if wt_degraded w then s else report ''watch-limit'' (on_watcher (\<lambda>w. w\<lparr>wt_degraded := True\<rparr>) s)))
      else case watch_path fn p s of
        (None, s1) \<Rightarrow>
          if p \<in> set known then (True, known, s1)
          else (True, p # known, on_watcher (\<lambda>w. w\<lparr>wt_watches := wt_watches w + 1\<rparr>) s1)
      | (Some e, s1) \<Rightarrow> (True, known, s1))"

text \<open>\<^verbatim>\<open>filepath.WalkDir\<close>: only directories matter; the name of a root given with a separator at its end is
  \<open>rt\<close> itself.\<close>

fun add_node :: "'k fsnotify \<Rightarrow> path option \<Rightarrow> path \<Rightarrow> wnode \<Rightarrow> path list \<times> 'k watching \<Rightarrow> path list \<times> 'k watching"
  and add_nodes :: "'k fsnotify \<Rightarrow> path \<Rightarrow> wnode list \<Rightarrow> path list \<times> 'k watching \<Rightarrow> path list \<times> 'k watching" where
  "add_node fn rt p (WFile name link info) ks = ks"
| "add_node fn rt p (WDir name unreadable kids) ks =
     (if rt = None \<and> prefix ''.'' name then ks
      else case add_watch fn (case rt of Some r \<Rightarrow> r | None \<Rightarrow> p) ks of
        (True, ks') \<Rightarrow> add_nodes fn p kids ks'
      | (False, ks') \<Rightarrow> ks')"
| "add_nodes fn p [] ks = ks"
| "add_nodes fn p (k # kids) ks =
     add_nodes fn p kids (add_node fn None (path_join p (case k of WFile n _ _ \<Rightarrow> n | WDir n _ _ \<Rightarrow> n)) k ks)"

definition add_recursive :: "'k fsnotify \<Rightarrow> fs_view \<Rightarrow> path \<Rightarrow> 'k watching \<Rightarrow> 'k watching" where
  "add_recursive fn fv rt s =
     (let known = watch_list fn s;
          s1 = on_watcher (\<lambda>w. w\<lparr>wt_watches := int (length (remdups known))\<rparr>) s in
      case fv_tree fv rt of
        None \<Rightarrow> s1
      | Some t \<Rightarrow> snd (add_node fn (Some rt) (walk_root rt) t (known, s1)))"

subsection \<open>The timer\<close>

definition schedule :: "int \<Rightarrow> watcher \<Rightarrow> watcher" where
  "schedule now w =
     (case wt_timer w of
        Some i \<Rightarrow> w\<lparr>wt_armed := (i, now + wt_debounce w) # filter (\<lambda>(j, _). j \<noteq> i) (wt_armed w)\<rparr>
      | None \<Rightarrow> w\<lparr>wt_timer := Some (wt_next_timer w), wt_next_timer := Suc (wt_next_timer w),
                  wt_armed := (wt_next_timer w, now + wt_debounce w) # wt_armed w\<rparr>)"

text \<open>The runtime: the function of an armed timer starts once its deadline has passed.\<close>

definition expire :: "nat \<Rightarrow> int \<Rightarrow> watcher \<Rightarrow> watcher option" where
  "expire i now w =
     (case map_of (wt_armed w) i of
        Some deadline \<Rightarrow>
          if deadline \<le> now
          then Some (w\<lparr>wt_armed := filter (\<lambda>(j, _). j \<noteq> i) (wt_armed w), wt_firing := Suc (wt_firing w)\<rparr>)
          else None
      | None \<Rightarrow> None)"

text \<open>\<open>fire\<close> runs; the answer says whether it asks for a scan.\<close>

definition fire :: "watcher \<Rightarrow> (bool \<times> watcher) option" where
  "fire w =
     (case wt_firing w of
        0 \<Rightarrow> None
      | Suc n \<Rightarrow> Some (\<not> wt_ended w \<and> \<not> wt_dead w, w\<lparr>wt_timer := None, wt_firing := n\<rparr>))"

definition stop :: "watcher \<Rightarrow> watcher" where
  "stop w =
     (case wt_timer w of
        Some i \<Rightarrow> w\<lparr>wt_timer := None, wt_armed := filter (\<lambda>(j, _). j \<noteq> i) (wt_armed w),
                    wt_ended := wt_ended w \<or> wt_started w\<rparr>
      | None \<Rightarrow> w\<lparr>wt_ended := wt_ended w \<or> wt_started w\<rparr>)"

subsection \<open>The life of a watcher\<close>

definition start :: "'k fsnotify \<Rightarrow> fs_view \<Rightarrow> 'k watching \<Rightarrow> string option \<times> 'k watching" where
  "start fn fv s =
     (case fn_new fn (wg_k s) of
        (Inl e, k) \<Rightarrow> (Some e, s\<lparr>wg_k := k\<rparr>)
      | (Inr h, k) \<Rightarrow>
          let s1 = on_watcher (\<lambda>w. w\<lparr>wt_handle := h, wt_started := True\<rparr>) (s\<lparr>wg_k := k\<rparr>); rt = wt_root (wg_w s) in
          (case watch_path fn rt s1 of
             (Some e, s2) \<Rightarrow>
               (Some e, on_watcher (\<lambda>w. w\<lparr>wt_ended := True\<rparr>) (close_watch fn (report (''error: '' @ e) s2)))
           | (None, s2) \<Rightarrow> (None, add_recursive fn fv rt (on_watcher (\<lambda>w. w\<lparr>wt_info := fv_stat fv rt\<rparr>) s2))))"

definition watching_root :: "'k fsnotify \<Rightarrow> fs_view \<Rightarrow> 'k watching \<Rightarrow> bool" where
  "watching_root fn fv s \<longleftrightarrow>
     (case fv_stat fv (wt_root (wg_w s)) of
        Some cur \<Rightarrow> wt_info (wg_w s) = Some cur \<and> wt_root (wg_w s) \<in> set (watch_list fn s)
      | None \<Rightarrow> False)"

definition died :: "string \<Rightarrow> 'k watching \<Rightarrow> 'k watching" where
  "died reason s =
     (if wt_ended (wg_w s) then s
      else report (''error: '' @ reason) (on_watcher (\<lambda>w. w\<lparr>wt_dead := True\<rparr>) s))"

fun unwatch_all :: "'k fsnotify \<Rightarrow> path list \<Rightarrow> 'k watching \<Rightarrow> 'k watching" where
  "unwatch_all fn [] s = s"
| "unwatch_all fn (p # ps) s = unwatch_all fn ps (unwatch_path fn p s)"

definition forget_tree :: "'k fsnotify \<Rightarrow> path \<Rightarrow> 'k watching \<Rightarrow> 'k watching" where
  "forget_tree fn p s =
     (let s1 = unwatch_path fn p s in unwatch_all fn (filter (prefix (p @ [sep])) (watch_list fn s1)) s1)"

definition handle_event :: "'k fsnotify \<Rightarrow> fs_view \<Rightarrow> int \<Rightarrow> fs_event \<Rightarrow> 'k watching \<Rightarrow> 'k watching" where
  "handle_event fn fv now ev s =
     (let name = base_name (fe_name ev); s1 = (if fe_gone ev then forget_tree fn (fe_name ev) s else s) in
      if fe_create ev \<and> fv_is_dir fv (fe_name ev) then
        (if prefix ''.'' name then s1 else on_watcher (schedule now) (add_recursive fn fv (fe_name ev) s1))
      else if is_relevant_file name \<or> (fe_gone ev \<and> \<not> prefix ''.'' name) then on_watcher (schedule now) s1
      else s1)"

text \<open>What the loop receives: the end of its context, or a value (\<open>None\<close> when closed) of one of the two
  channels. The answer says whether the loop goes on.\<close>

datatype loop_event = Done | Event "fs_event option" | Error "string option option"

definition resync :: "'k fsnotify \<Rightarrow> fs_view \<Rightarrow> int \<Rightarrow> 'k watching \<Rightarrow> bool \<times> 'k watching" where
  "resync fn fv now s =
     (let s1 = report ''reconnecting'' s in
      case watch_path fn (wt_root (wg_w s1)) s1 of
        (Some e, s2) \<Rightarrow> (False, close_watch fn (died (''re-add root failed: '' @ e) s2))
      | (None, s2) \<Rightarrow>
          let s3 = on_watcher (\<lambda>w. w\<lparr>wt_watches := 0, wt_degraded := False\<rparr>) s2;
              s4 = on_watcher (schedule now) (add_recursive fn fv (wt_root (wg_w s3)) s3) in
          (True, if wt_degraded (wg_w s4) then s4 else report ''watching'' s4))"

definition loop_step :: "'k fsnotify \<Rightarrow> fs_view \<Rightarrow> int \<Rightarrow> loop_event \<Rightarrow> 'k watching \<Rightarrow> bool \<times> 'k watching" where
  "loop_step fn fv now ev s =
     (case ev of
        Done \<Rightarrow> (False, close_watch fn s)
      | Event None \<Rightarrow> (False, close_watch fn (died ''watcher event stream closed'' s))
      | Event (Some e) \<Rightarrow> (True, handle_event fn fv now e s)
      | Error None \<Rightarrow> (False, close_watch fn (died ''watcher error stream closed'' s))
      | Error (Some None) \<Rightarrow> (True, s)
      | Error (Some (Some _)) \<Rightarrow> resync fn fv now s)"

end
