(* ===== verification/Monitor.thy ===== *)
theory Monitor
  imports Watcher Payload "HOL-Library.AList"
begin

text \<open>
  \<^verbatim>\<open>internal/watch/monitor.go\<close>, \<^verbatim>\<open>fsdetect.go\<close> and \<^verbatim>\<open>startMonitor\<close> of \<^verbatim>\<open>cmd/muxprune/main.go\<close>: scans that
  are due by the clock, and one watcher for each library that wants one. The watchers of a monitor
  share the state of \<^verbatim>\<open>fsnotify\<close>. One call sees one state of the file system.
\<close>

subsection \<open>Local file systems\<close>

definition is_network_fs_type :: "int \<Rightarrow> bool" where
  "is_network_fs_type magic \<longleftrightarrow> magic \<in> {0x6969, 0x517B, 0xFE534D42, 0xFF534D42, 0x65735546}"

definition is_local_fs :: "fs_view \<Rightarrow> path \<Rightarrow> bool" where
  "is_local_fs fv p = (case fv_magic fv p of Some m \<Rightarrow> \<not> is_network_fs_type m | None \<Rightarrow> False)"

subsection \<open>Scans by the clock\<close>

definition due_for_scan :: "library \<Rightarrow> int \<Rightarrow> bool" where
  "due_for_scan lib now =
     (if lb_interval lib \<le> 0 then False
      else if lb_last_scan lib = 0 then True
      else lb_interval lib \<le> now - lb_last_scan lib)"

text \<open>The callback that \<^verbatim>\<open>startMonitor\<close> gives to the monitor: an error of a query counts as no.\<close>

definition enqueue_scan :: "int \<Rightarrow> store \<Rightarrow> store" where
  "enqueue_scan lib s =
     (case is_scan_queued lib s of
        (Inr True, s1) \<Rightarrow> s1
      | (_, s1) \<Rightarrow>
          (case get_library lib s1 of
             (Inr (Some l), s2) \<Rightarrow> snd (create_job ''scan_library'' 0 (lb_path l) (enc_scan lib) s2)
           | (_, s2) \<Rightarrow> s2))"

definition tick_library :: "int \<Rightarrow> library \<Rightarrow> store \<Rightarrow> store" where
  "tick_library now lib s =
     (if \<not> due_for_scan lib now then s
      else case is_scan_active (lb_id lib) s of
        (Inr False, s1) \<Rightarrow> enqueue_scan (lb_id lib) s1
      | (_, s1) \<Rightarrow> s1)"

definition tick :: "int \<Rightarrow> store \<Rightarrow> store" where
  "tick now s =
     (case list_libraries s of
        (Inl e, s1) \<Rightarrow> s1
      | (Inr libs, s1) \<Rightarrow> fold (tick_library now) libs s1)"

subsection \<open>State\<close>

record 'k monitor =
  mo_global :: bool
  mo_debounce :: int
  mo_started :: bool
  mo_watchers :: "(int \<times> watcher) list"
  mo_statuses :: "int \<Rightarrow> string option"
  mo_catchup :: "int \<Rightarrow> bool"
  mo_kernel :: 'k

definition new_monitor :: "bool \<Rightarrow> int \<Rightarrow> 'k \<Rightarrow> 'k monitor" where
  "new_monitor disabled debounce k =
     \<lparr>mo_global = \<not> disabled, mo_debounce = (if debounce \<le> 0 then 10 * 1000000000 else debounce), mo_started = False,
      mo_watchers = [], mo_statuses = (\<lambda>_. None), mo_catchup = (\<lambda>_. False), mo_kernel = k\<rparr>"

definition set_status :: "int \<Rightarrow> string \<Rightarrow> 'k monitor \<Rightarrow> 'k monitor" where
  "set_status lib st m = m\<lparr>mo_statuses := (mo_statuses m)(lib \<mapsto> st)\<rparr>"

definition should_watch :: "fs_view \<Rightarrow> 'k monitor \<Rightarrow> library \<Rightarrow> bool" where
  "should_watch fv m lib \<longleftrightarrow> lb_watch lib \<and> mo_global m \<and> is_local_fs fv (lb_path lib)"

definition status_of :: "'k monitor \<Rightarrow> int \<Rightarrow> string" where
  "status_of m lib = (case mo_statuses m lib of Some s \<Rightarrow> s | None \<Rightarrow> '''')"

text \<open>A watcher at work on the monitor's state; \<open>stop\<close> also ends its loop, which closes its handle.\<close>

definition open_watching :: "watcher \<Rightarrow> 'k monitor \<Rightarrow> 'k watching" where
  "open_watching w m = \<lparr>wg_w = w, wg_k = mo_kernel m, wg_out = []\<rparr>"

definition stop_watcher :: "'k fsnotify \<Rightarrow> watcher \<Rightarrow> 'k monitor \<Rightarrow> 'k monitor" where
  "stop_watcher fn w m =
     (if wt_started (stop w) then m\<lparr>mo_kernel := fn_close fn (wt_handle w) (mo_kernel m)\<rparr> else m)"

definition take_watching :: "'k watching \<Rightarrow> 'k monitor \<Rightarrow> 'k monitor" where
  "take_watching s m =
     fold (\<lambda>(lib, st). set_status lib st) (wg_out s) (m\<lparr>mo_kernel := wg_k s\<rparr>)"

subsection \<open>Reconcile\<close>

text \<open>The library with an id; of several the map keeps the last.\<close>

definition wanted :: "library list \<Rightarrow> int \<Rightarrow> library option" where
  "wanted libs i = List.find (\<lambda>l. lb_id l = i) (rev libs)"

definition keep_watcher :: "fs_view \<Rightarrow> 'k monitor \<Rightarrow> library list \<Rightarrow> int \<times> watcher \<Rightarrow> bool" where
  "keep_watcher fv m libs iw =
     (case wanted libs (fst iw) of
        None \<Rightarrow> False
      | Some lib \<Rightarrow> should_watch fv m lib \<and> wt_root (snd iw) = lb_path lib)"

definition drop_unwanted :: "'k fsnotify \<Rightarrow> fs_view \<Rightarrow> library list \<Rightarrow> 'k monitor \<Rightarrow> 'k monitor" where
  "drop_unwanted fn fv libs m =
     (let gone = filter (Not \<circ> keep_watcher fv m libs) (mo_watchers m);
          caught = (\<lambda>i. mo_catchup m i \<or> (i \<in> fst ` set gone \<and> wanted libs i \<noteq> None));
          known = (\<lambda>i. mo_statuses m i \<noteq> None \<and> wanted libs i = None) in
      fold (\<lambda>(_, w). stop_watcher fn w) gone
        (m\<lparr>mo_watchers := filter (keep_watcher fv m libs) (mo_watchers m),
           mo_statuses := (\<lambda>i. if known i then None else mo_statuses m i),
           mo_catchup := (\<lambda>i. if known i then False else caught i)\<rparr>))"

definition start_watcher :: "'k fsnotify \<Rightarrow> fs_view \<Rightarrow> int \<Rightarrow> library \<Rightarrow> 'k monitor \<Rightarrow> 'k monitor" where
  "start_watcher fn fv now lib m =
     (case start fn fv (open_watching (new_lib_watcher (lb_id lib) (lb_path lib) (mo_debounce m)) m) of
        (Some e, s) \<Rightarrow> set_status (lb_id lib) (''error: '' @ e) (take_watching s m)
      | (None, s) \<Rightarrow>
          let m1 = take_watching s m;
              w = (if mo_catchup m1 (lb_id lib) then schedule now (wg_w s) else wg_w s);
              m2 = m1\<lparr>mo_watchers := AList.update (lb_id lib) w (mo_watchers m1),
                      mo_catchup := (mo_catchup m1)(lb_id lib := False)\<rparr> in
          set_status (lb_id lib) (if wt_degraded w then ''watch-limit'' else ''watching'') m2)"

definition reconcile_library :: "'k fsnotify \<Rightarrow> fs_view \<Rightarrow> int \<Rightarrow> library \<Rightarrow> 'k monitor \<Rightarrow> 'k monitor" where
  "reconcile_library fn fv now lib m =
     (if \<not> lb_watch lib then set_status (lb_id lib) ''disabled'' m
      else if \<not> mo_global m then set_status (lb_id lib) ''polling'' m
      else if \<not> is_local_fs fv (lb_path lib) then set_status (lb_id lib) ''polling'' m
      else case map_of (mo_watchers m) (lb_id lib) of
        None \<Rightarrow> start_watcher fn fv now lib m
      | Some w \<Rightarrow>
          if \<not> wt_dead w \<and> watching_root fn fv (open_watching w m) then m
          else start_watcher fn fv now lib
            ((stop_watcher fn w m)
               \<lparr>mo_watchers := AList.delete (lb_id lib) (mo_watchers m), mo_catchup := (mo_catchup m)(lb_id lib := True)\<rparr>))"

definition reconcile :: "'k fsnotify \<Rightarrow> fs_view \<Rightarrow> int \<Rightarrow> store \<Rightarrow> 'k monitor \<Rightarrow> store \<times> 'k monitor" where
  "reconcile fn fv now s m =
     (case list_libraries s of
        (Inl e, s1) \<Rightarrow> (s1, m)
      | (Inr libs, s1) \<Rightarrow>
          if \<not> mo_started m then (s1, m)
          else (s1, fold (reconcile_library fn fv now) libs (drop_unwanted fn fv libs m)))"

definition stop_all :: "'k fsnotify \<Rightarrow> 'k monitor \<Rightarrow> 'k monitor" where
  "stop_all fn m = fold (\<lambda>(_, w). stop_watcher fn w) (mo_watchers m) (m\<lparr>mo_watchers := []\<rparr>)"

text \<open>\<^verbatim>\<open>Start\<close>: the first reconciliation and tick, and what each tick of its clock repeats.\<close>

definition monitor_round :: "'k fsnotify \<Rightarrow> fs_view \<Rightarrow> int \<Rightarrow> store \<times> 'k monitor \<Rightarrow> store \<times> 'k monitor" where
  "monitor_round fn fv now sm =
     (case reconcile fn fv now (fst sm) (snd sm) of (s, m) \<Rightarrow> (tick (now div 1000000000) s, m))"

definition monitor_start :: "'k fsnotify \<Rightarrow> fs_view \<Rightarrow> int \<Rightarrow> store \<times> 'k monitor \<Rightarrow> store \<times> 'k monitor" where
  "monitor_start fn fv now sm = monitor_round fn fv now (fst sm, (snd sm)\<lparr>mo_started := True\<rparr>)"

end
