(* ===== verification/WatchProps.thy ===== *)
theory WatchProps
  imports Monitor
begin

text \<open>
  The properties of the watchers and of the monitor: the bound on watched directories, changes that
  reach a scan, what a reconciliation leaves, and scans by the clock.
\<close>

subsection \<open>What is relied on of \<^verbatim>\<open>fsnotify\<close>\<close>

text \<open>
  A new watcher watches nothing; \<^verbatim>\<open>Add\<close> adds its path or fails and changes nothing; \<^verbatim>\<open>Remove\<close> and
  \<^verbatim>\<open>Close\<close> add nothing.
\<close>

definition fsnotify_ok :: "'k fsnotify \<Rightarrow> bool" where
  "fsnotify_ok fn \<longleftrightarrow>
     (\<forall>k h k'. fn_new fn k = (Inr h, k') \<longrightarrow> fn_list fn h k' = []) \<and>
     (\<forall>h p k k'. fn_add fn h p k = (None, k') \<longrightarrow> set (fn_list fn h k') = insert p (set (fn_list fn h k))) \<and>
     (\<forall>h p k e k'. fn_add fn h p k = (Some e, k') \<longrightarrow> set (fn_list fn h k') = set (fn_list fn h k)) \<and>
     (\<forall>h p k. set (fn_list fn h (fn_remove fn h p k)) \<subseteq> set (fn_list fn h k)) \<and>
     (\<forall>h k. set (fn_list fn h (fn_close fn h k)) \<subseteq> set (fn_list fn h k))"

lemma watch_path_list:
  assumes "fsnotify_ok fn" "watch_path fn p s = (r, s')"
  shows "set (watch_list fn s') = (if r = None then insert p (set (watch_list fn s)) else set (watch_list fn s))"
    "wg_w s' = wg_w s"
  using assms by (auto simp: fsnotify_ok_def watch_path_def watch_list_def split: prod.splits)

subsection \<open>The number of watches\<close>

text \<open>Besides its root a watcher watches at most as many directories as its limit allows.\<close>

definition below_limit :: "'k fsnotify \<Rightarrow> 'k watching \<Rightarrow> bool" where
  "below_limit fn s \<longleftrightarrow> wt_limit (wg_w s) = default_watch_limit \<and>
     int (card (set (watch_list fn s) - {wt_root (wg_w s)})) \<le> wt_limit (wg_w s)"

text \<open>The counter and the caller's map during a walk.\<close>

definition in_step :: "'k fsnotify \<Rightarrow> path list \<times> 'k watching \<Rightarrow> bool" where
  "in_step fn ks \<longleftrightarrow> below_limit fn (snd ks) \<and> set (fst ks) = set (watch_list fn (snd ks)) \<and>
     wt_watches (wg_w (snd ks)) = int (card (set (fst ks)))"

definition same_watch :: "watcher \<Rightarrow> watcher \<Rightarrow> bool" where
  "same_watch w w' \<longleftrightarrow> wt_root w' = wt_root w \<and> wt_handle w' = wt_handle w \<and> wt_limit w' = wt_limit w"

lemma below_limit_mono:
  assumes "below_limit fn s" "same_watch (wg_w s) (wg_w s')" "set (watch_list fn s') - {wt_root (wg_w s)} \<subseteq> set (watch_list fn s)"
  shows "below_limit fn s'"
proof -
  have "card (set (watch_list fn s') - {wt_root (wg_w s)}) \<le> card (set (watch_list fn s) - {wt_root (wg_w s)})"
    by (rule card_mono) (use assms(3) in auto)
  with assms show ?thesis by (auto simp: below_limit_def same_watch_def)
qed

lemma add_watch_in_step:
  assumes "fsnotify_ok fn" "in_step fn ks" "add_watch fn p ks = (b, ks')"
  shows "in_step fn ks' \<and> same_watch (wg_w (snd ks)) (wg_w (snd ks'))"
proof -
  obtain known s where ks: "ks = (known, s)" by fastforce
  show ?thesis
  proof (cases "p \<notin> set known \<and> wt_limit (wg_w s) \<le> wt_watches (wg_w s)")
    case True
    have "0 < wt_limit (wg_w s)" using assms(2) ks by (simp add: in_step_def below_limit_def default_watch_limit_def)
    with True assms(3) ks have ks': "ks' = (known, if wt_degraded (wg_w s) then s
        else report ''watch-limit'' (on_watcher (\<lambda>w. w\<lparr>wt_degraded := True\<rparr>) s))"
      by (simp add: add_watch_def Let_def)
    show ?thesis
      using assms(2) by (cases "wt_degraded (wg_w s)")
        (simp_all add: ks ks' in_step_def below_limit_def same_watch_def on_watcher_def report_def watch_list_def)
  next
    case False
    obtain r s1 where w: "watch_path fn p s = (r, s1)" by fastforce
    note l = watch_path_list [OF assms(1) w]
    show ?thesis
    proof (cases "r = None \<and> p \<notin> set known")
      case no: False
      then have "ks' = (known, s1) \<and> set (watch_list fn s1) = set (watch_list fn s)"
        using assms(2,3) ks False w l by (auto simp: add_watch_def in_step_def Let_def split: option.splits if_splits)
      with assms(2) ks l show ?thesis by (simp add: in_step_def below_limit_def same_watch_def)
    next
      case True
      then have ks': "ks' = (p # known, on_watcher (\<lambda>w. w\<lparr>wt_watches := wt_watches w + 1\<rparr>) s1)"
        using assms(3) ks False w by (auto simp: add_watch_def Let_def)
      have less: "wt_watches (wg_w s) < wt_limit (wg_w s)" using False True by simp
      have "int (card (insert p (set known) - {wt_root (wg_w s)})) \<le> int (card (insert p (set known)))"
        by (simp add: card_Diff1_le)
      also have "\<dots> = wt_watches (wg_w s) + 1" using assms(2) ks True by (simp add: in_step_def)
      finally have "int (card (insert p (set known) - {wt_root (wg_w s)})) \<le> wt_limit (wg_w s)" using less by simp
      with assms(2) ks ks' l True show ?thesis
        by (auto simp: in_step_def below_limit_def same_watch_def on_watcher_def watch_list_def)
    qed
  qed
qed

lemma same_watch_refl [simp]: "same_watch w w"
  by (simp add: same_watch_def)

lemma same_watch_trans: "same_watch u v \<Longrightarrow> same_watch v w \<Longrightarrow> same_watch u w"
  by (simp add: same_watch_def)

lemma add_nodes_in_step:
  "fsnotify_ok fn \<Longrightarrow> in_step fn ks \<Longrightarrow>
     in_step fn (add_node fn rt p nd ks) \<and> same_watch (wg_w (snd ks)) (wg_w (snd (add_node fn rt p nd ks)))"
  "fsnotify_ok fn \<Longrightarrow> in_step fn ks \<Longrightarrow>
     in_step fn (add_nodes fn p nds ks) \<and> same_watch (wg_w (snd ks)) (wg_w (snd (add_nodes fn p nds ks)))"
proof (induction fn rt p nd ks and fn p nds ks rule: add_node_add_nodes.induct)
  case (2 fn rt p name unreadable kids ks)
  let ?q = "case rt of Some r \<Rightarrow> r | None \<Rightarrow> p"
  obtain b ks' where a: "add_watch fn ?q ks = (b, ks')" by (cases "add_watch fn ?q ks")
  note st = add_watch_in_step [OF "2.prems" a]
  show ?case
  proof (cases "rt = None \<and> prefix ''.'' name")
    case False
    then have "in_step fn (add_nodes fn p kids ks') \<and> same_watch (wg_w (snd ks')) (wg_w (snd (add_nodes fn p kids ks')))" if b
      using "2.IH" [OF _ a [symmetric]] "2.prems"(1) st that by auto
    with st a False show ?thesis by (cases b) (auto intro: same_watch_trans)
  qed (use 2 in simp)
next
  case (4 fn p k kids ks)
  then show ?case by (auto intro: same_watch_trans)
qed simp_all

lemma add_recursive_below:
  assumes "fsnotify_ok fn" "below_limit fn s"
  shows "below_limit fn (add_recursive fn fv rt s) \<and> same_watch (wg_w s) (wg_w (add_recursive fn fv rt s))"
proof -
  let ?known = "watch_list fn s"
  let ?s1 = "on_watcher (\<lambda>w. w\<lparr>wt_watches := int (length (remdups ?known))\<rparr>) s"
  have i: "in_step fn (?known, ?s1)" and same: "same_watch (wg_w s) (wg_w ?s1)"
    using assms(2) by (simp_all add: in_step_def below_limit_def on_watcher_def watch_list_def same_watch_def length_remdups_card_conv)
  show ?thesis
  proof (cases "fv_tree fv rt")
    case None
    with i same show ?thesis by (simp add: add_recursive_def in_step_def Let_def)
  next
    case (Some t)
    with add_nodes_in_step(1) [OF assms(1) i, of "Some rt" "walk_root rt" t] same show ?thesis
      by (auto simp: add_recursive_def in_step_def Let_def intro: same_watch_trans)
  qed
qed

lemma below_limit_watcher:
  "same_watch (wg_w s) (f (wg_w s)) \<Longrightarrow> below_limit fn (on_watcher f s) = below_limit fn s"
  by (simp add: below_limit_def same_watch_def on_watcher_def watch_list_def)

lemma below_limit_report [simp]: "below_limit fn (report msg s) = below_limit fn s"
  by (simp add: below_limit_def report_def watch_list_def)

lemma same_watch_schedule [simp]: "same_watch w (schedule now w)"
  by (simp add: same_watch_def schedule_def split: option.split)

lemma below_limit_died [simp]: "below_limit fn (died reason s) = below_limit fn s"
  by (simp add: died_def below_limit_watcher same_watch_def)

lemma below_limit_close: "fsnotify_ok fn \<Longrightarrow> below_limit fn s \<Longrightarrow> below_limit fn (close_watch fn s)"
  by (rule below_limit_mono [of fn s]) (fastforce simp: close_watch_def fsnotify_ok_def watch_list_def)+

lemma below_limit_unwatch: "fsnotify_ok fn \<Longrightarrow> below_limit fn s \<Longrightarrow> below_limit fn (unwatch_path fn p s)"
  by (rule below_limit_mono [of fn s]) (fastforce simp: unwatch_path_def fsnotify_ok_def watch_list_def)+

lemma below_limit_unwatch_all: "fsnotify_ok fn \<Longrightarrow> below_limit fn s \<Longrightarrow> below_limit fn (unwatch_all fn ps s)"
  by (induction fn ps s rule: unwatch_all.induct) (auto intro: below_limit_unwatch)

lemma below_limit_root:
  assumes "fsnotify_ok fn" "below_limit fn s" "watch_path fn (wt_root (wg_w s)) s = (r, s')"
  shows "below_limit fn s' \<and> wg_w s' = wg_w s"
proof -
  note l = watch_path_list [OF assms(1,3)]
  then have "below_limit fn s'" using assms(2) by (intro below_limit_mono [OF assms(2)]) auto
  with l show ?thesis by simp
qed

lemma handle_event_below:
  assumes "fsnotify_ok fn" "below_limit fn s"
  shows "below_limit fn (handle_event fn fv now ev s)"
proof -
  let ?s1 = "if fe_gone ev then forget_tree fn (fe_name ev) s else s"
  have b: "below_limit fn ?s1"
    using assms by (auto simp: forget_tree_def Let_def intro: below_limit_unwatch below_limit_unwatch_all)
  have "below_limit fn (handle_event fn fv now ev s)" if "s1 = ?s1" "below_limit fn s1" for s1
    using that(2) add_recursive_below [OF assms(1) that(2)]
    by (simp add: handle_event_def Let_def below_limit_watcher that(1) [symmetric])
  with b show ?thesis by blast
qed

lemma resync_below:
  assumes "fsnotify_ok fn" "below_limit fn s"
  shows "below_limit fn (snd (resync fn fv now s))"
proof -
  obtain r s2 where w: "watch_path fn (wt_root (wg_w (report ''reconnecting'' s))) (report ''reconnecting'' s) = (r, s2)"
    by fastforce
  have b: "below_limit fn s2" using below_limit_root [OF assms(1) _ w] assms(2) by simp
  show ?thesis
  proof (cases r)
    case None
    let ?s3 = "on_watcher (\<lambda>w. w\<lparr>wt_watches := 0, wt_degraded := False\<rparr>) s2"
    have "below_limit fn ?s3" using b by (simp add: below_limit_watcher same_watch_def)
    from add_recursive_below [OF assms(1) this] None w show ?thesis
      by (simp add: resync_def Let_def below_limit_watcher)
  next
    case (Some e)
    with w b below_limit_close [OF assms(1)] show ?thesis by (simp add: resync_def Let_def)
  qed
qed

lemma loop_step_below: "fsnotify_ok fn \<Longrightarrow> below_limit fn s \<Longrightarrow> below_limit fn (snd (loop_step fn fv now ev s))"
  by (simp add: loop_step_def below_limit_close handle_event_below resync_below split: loop_event.split option.split)

fun loop_run :: "'k fsnotify \<Rightarrow> (fs_view \<times> int \<times> loop_event) list \<Rightarrow> 'k watching \<Rightarrow> 'k watching" where
  "loop_run fn [] s = s"
| "loop_run fn ((fv, now, ev) # es) s = (case loop_step fn fv now ev s of (go, s') \<Rightarrow> if go then loop_run fn es s' else s')"

lemma loop_run_below: "fsnotify_ok fn \<Longrightarrow> below_limit fn s \<Longrightarrow> below_limit fn (loop_run fn es s)"
proof (induction fn es s rule: loop_run.induct)
  case (2 fn fv now ev es s)
  obtain go s' where l: "loop_step fn fv now ev s = (go, s')" by fastforce
  have "below_limit fn s'" using loop_step_below [OF "2.prems", of fv now ev] l by simp
  with 2 l show ?case by (cases go) auto
qed simp

text \<open>
  C36: a watcher that has started never watches more than its limit of 8192 directories besides the
  library's root, whatever events and errors \<^verbatim>\<open>fsnotify\<close> delivers and whatever trees appear: also when
  its counter is reset after an error and everything is added again.
\<close>

theorem watch_limit_kept:
  assumes "fsnotify_ok fn" "start fn fv \<lparr>wg_w = new_lib_watcher lib rt debounce, wg_k = k, wg_out = []\<rparr> = (None, s)"
  shows "card (set (watch_list fn (loop_run fn es s)) - {wt_root (wg_w (loop_run fn es s))}) \<le> 8192"
proof -
  let ?w = "new_lib_watcher lib rt debounce"
  obtain h k1 where h: "fn_new fn k = (Inr h, k1)"
    using assms(2) by (auto simp: start_def split: prod.splits sum.splits)
  let ?s1 = "on_watcher (\<lambda>w. w\<lparr>wt_handle := h, wt_started := True\<rparr>) \<lparr>wg_w = ?w, wg_k = k1, wg_out = []\<rparr>"
  have b: "below_limit fn ?s1"
    using assms(1) h by (simp add: below_limit_def fsnotify_ok_def watch_list_def on_watcher_def new_lib_watcher_def default_watch_limit_def)
  obtain r s2 where w: "watch_path fn (wt_root (wg_w ?s1)) ?s1 = (r, s2)" by fastforce
  have b2: "below_limit fn s2" using below_limit_root [OF assms(1) b w] by simp
  have rt: "wt_root (wg_w ?s1) = rt" by (simp add: on_watcher_def new_lib_watcher_def)
  then have "r = None" "s = add_recursive fn fv rt (on_watcher (\<lambda>w. w\<lparr>wt_info := fv_stat fv rt\<rparr>) s2)"
    using assms(2) h w by (auto simp: start_def Let_def new_lib_watcher_def split: option.splits)
  have "below_limit fn (on_watcher (\<lambda>w. w\<lparr>wt_info := fv_stat fv rt\<rparr>) s2)" using b2 by (simp add: below_limit_watcher same_watch_def)
  then have "below_limit fn s" using add_recursive_below [OF assms(1)] \<open>s = _\<close> by simp
  then have "below_limit fn (loop_run fn es s)" by (rule loop_run_below [OF assms(1)])
  then show ?thesis by (simp add: below_limit_def default_watch_limit_def)
qed

text \<open>A concrete \<^verbatim>\<open>fsnotify\<close>: each handle has its list of paths.\<close>

definition demo_fsnotify :: "(nat \<times> (nat \<Rightarrow> path list)) fsnotify" where
  "demo_fsnotify = \<lparr>fn_new = (\<lambda>(n, f). (Inr n, (Suc n, f(n := [])))),
     fn_add = (\<lambda>h p (n, f). if p = '''' then (Some ''no path'', (n, f)) else (None, (n, f(h := List.insert p (f h))))),
     fn_remove = (\<lambda>h p (n, f). (n, f(h := remove1 p (f h)))),
     fn_list = (\<lambda>h (n, f). f h),
     fn_close = (\<lambda>h (n, f). (n, f(h := [])))\<rparr>"

lemma demo_fsnotify_ok: "fsnotify_ok demo_fsnotify"
  unfolding fsnotify_ok_def demo_fsnotify_def
  by (auto split: prod.splits if_splits dest: set_mp [OF set_remove1_subset])

definition demo_view :: fs_view where
  "demo_view = \<lparr>fv_stat = (\<lambda>p. if p = ''/tv'' then Some 7 else None), fv_is_dir = (\<lambda>_. False),
     fv_tree = (\<lambda>p. if p = ''/tv'' then Some (WDir ''tv'' False [WDir ''show'' False [], WDir ''.trash'' False [], WFile ''a.mkv'' False (Inl Missing)]) else None),
     fv_magic = (\<lambda>_. Some 0xEF53)\<rparr>"

definition demo_watching :: "(nat \<times> (nat \<Rightarrow> path list)) watching" where
  "demo_watching = \<lparr>wg_w = new_lib_watcher 1 ''/tv'' 0, wg_k = (0, \<lambda>_. []), wg_out = []\<rparr>"

lemma demo_start:
  "fst (start demo_fsnotify demo_view demo_watching) = None \<and>
   watch_list demo_fsnotify (snd (start demo_fsnotify demo_view demo_watching)) = [''/tv/show'', ''/tv'']"
  by code_simp

lemma watch_limit_kept_witness:
  "let s = snd (start demo_fsnotify demo_view demo_watching);
       t = loop_run demo_fsnotify [(demo_view, 5, Error (Some (Some ''overflow''))), (demo_view, 9, Done)] s in
     card (set (watch_list demo_fsnotify t) - {wt_root (wg_w t)}) \<le> 8192"
proof -
  obtain s where s: "start demo_fsnotify demo_view \<lparr>wg_w = new_lib_watcher 1 ''/tv'' 0, wg_k = (0, \<lambda>_. []), wg_out = []\<rparr> = (None, s)"
    using demo_start by (metis demo_watching_def prod.collapse)
  show ?thesis
    unfolding Let_def demo_watching_def s snd_conv by (rule watch_limit_kept [OF demo_fsnotify_ok s])
qed

subsection \<open>Changes reach a scan\<close>

datatype timer_event = Change | Expire nat | Fire | Stop | Die

text \<open>What an event does to a watcher, and whether it asks for a scan; \<open>None\<close>: it cannot happen.\<close>

fun timer_step :: "int \<Rightarrow> timer_event \<Rightarrow> watcher \<Rightarrow> (bool \<times> watcher) option" where
  "timer_step now Change w = Some (False, schedule now w)"
| "timer_step now (Expire i) w = map_option (Pair False) (expire i now w)"
| "timer_step now Fire w = fire w"
| "timer_step now Stop w = Some (False, stop w)"
| "timer_step now Die w = Some (False, if wt_ended w then w else w\<lparr>wt_dead := True\<rparr>)"

fun timer_run :: "(int \<times> timer_event) list \<Rightarrow> watcher \<Rightarrow> (nat \<times> watcher) option" where
  "timer_run [] w = Some (0, w)"
| "timer_run ((now, e) # es) w =
     (case timer_step now e w of
        None \<Rightarrow> None
      | Some (b, w') \<Rightarrow> map_option (\<lambda>(n, w''). (if b then Suc n else n, w'')) (timer_run es w'))"

definition alive :: "watcher \<Rightarrow> bool" where
  "alive w \<longleftrightarrow> \<not> wt_ended w \<and> \<not> wt_dead w"

definition timers_ok :: "watcher \<Rightarrow> bool" where
  "timers_ok w \<longleftrightarrow> distinct (map fst (wt_armed w)) \<and> (\<forall>(i, d) \<in> set (wt_armed w). i < wt_next_timer w) \<and>
     (\<forall>i. wt_timer w = Some i \<longrightarrow> i < wt_next_timer w)"

text \<open>A scan is on its way, at the latest when \<open>by_time\<close> has come.\<close>

definition coming :: "int \<Rightarrow> watcher \<Rightarrow> bool" where
  "coming by_time w \<longleftrightarrow> 0 < wt_firing w \<or> (\<exists>(i, d) \<in> set (wt_armed w). d \<le> by_time)"

lemma timers_ok_new: "timers_ok (new_lib_watcher lib rt debounce)"
  by (simp add: timers_ok_def new_lib_watcher_def)

lemma distinct_fst_filter: "distinct (map fst xs) \<Longrightarrow> distinct (map fst (filter P xs))"
  by (induction xs) auto

lemma timer_step_ok:
  assumes "timers_ok w" "timer_step now e w = Some (b, w')"
  shows "timers_ok w'"
  using assms
  by (cases e)
     (fastforce simp: timers_ok_def schedule_def expire_def fire_def stop_def distinct_fst_filter
       split: option.splits if_splits nat.splits)+

lemma schedule_coming: "coming (now + wt_debounce w) (schedule now w)"
  by (auto simp: coming_def schedule_def split: option.split)

definition undisturbed :: "int \<Rightarrow> int \<Rightarrow> (int \<times> timer_event) list \<Rightarrow> bool" where
  "undisturbed debounce t es \<longleftrightarrow>
     (\<forall>(now, e) \<in> set es. e \<noteq> Stop \<and> e \<noteq> Die \<and> (e = Change \<longrightarrow> now + debounce \<le> t))"

lemma timer_step_alive:
  assumes "timer_step now e w = Some (b, w')" "e \<noteq> Stop" "e \<noteq> Die" "alive w"
  shows "alive w' \<and> wt_debounce w' = wt_debounce w"
  using assms
  by (cases e) (auto simp: alive_def schedule_def expire_def fire_def split: option.splits if_splits nat.splits)

lemma timer_step_coming:
  assumes "timer_step now e w = Some (b, w')" "e \<noteq> Stop" "e \<noteq> Die" "alive w" "coming t w"
    "e = Change \<longrightarrow> now + wt_debounce w \<le> t"
  shows "b \<or> coming t w'"
proof (cases e)
  case Change
  then have "w' = schedule now w" using assms(1) by simp
  with schedule_coming [of now w] assms(6) Change show ?thesis by (fastforce simp: coming_def)
next
  case (Expire i)
  then have "0 < wt_firing w'" using assms(1) by (auto simp: expire_def split: option.splits if_splits)
  then show ?thesis by (simp add: coming_def)
next
  case Fire
  with assms(1,4) show ?thesis by (auto simp: fire_def alive_def split: nat.splits)
qed (use assms(2,3) in simp_all)

lemma timer_run_alive:
  "timer_run es w = Some (n, w') \<Longrightarrow> undisturbed (wt_debounce w) t es \<Longrightarrow> alive w \<Longrightarrow> timers_ok w \<Longrightarrow>
     alive w' \<and> timers_ok w' \<and> (n = 0 \<longrightarrow> coming t w \<longrightarrow> coming t w')"
proof (induction es arbitrary: w n)
  case (Cons x es)
  obtain now e where x: "x = (now, e)" by fastforce
  obtain b w1 where s: "timer_step now e w = Some (b, w1)"
    using Cons.prems(1) x by (auto split: option.splits)
  obtain k where r: "timer_run es w1 = Some (k, w')" "n = (if b then Suc k else k)"
    using Cons.prems(1) x s by (auto split: option.splits)
  have e: "e \<noteq> Stop" "e \<noteq> Die" "e = Change \<longrightarrow> now + wt_debounce w \<le> t"
    using Cons.prems(2) x by (auto simp: undisturbed_def)
  note st = timer_step_alive [OF s e(1,2) Cons.prems(3)] timer_step_coming [OF s e(1,2) Cons.prems(3) _ e(3)]
  have rest: "undisturbed (wt_debounce w1) t es" using Cons.prems(2) st(1) by (simp add: undisturbed_def)
  from Cons.IH [OF r(1) rest] st timer_step_ok [OF Cons.prems(4) s] r(2) show ?case by auto
qed simp

lemma timer_run_ok: "timer_run es w = Some (n, w') \<Longrightarrow> timers_ok w \<Longrightarrow> timers_ok w'"
proof (induction es arbitrary: w n)
  case (Cons x es)
  then show ?case by (cases x) (fastforce dest: timer_step_ok split: option.splits)
qed simp

text \<open>
  C28: a change is never lost. After any history, a change seen by a live watcher leads to a scan: as
  long as the watcher is neither stopped nor dead, either a scan has been asked for since, or the timer
  and its function alone will ask for one as soon as the debounce time after the last change is over.
  This holds also when a change arrives while an expired timer's function is still waiting to run.
\<close>

theorem change_reaches_scan:
  assumes "timer_run before (new_lib_watcher lib rt debounce) = Some (k, w)" "alive w"
    "timer_run ((now, Change) # es) w = Some (n, w')" "undisturbed (wt_debounce w) t ((now, Change) # es)"
  shows "0 < n \<or> (\<exists>soon w''. timer_run soon w' = Some (1, w'') \<and> soon \<in> {[(t, Fire)]} \<union> {[(t, Expire i), (t, Fire)] | i. True})"
proof (cases "n = 0")
  case True
  let ?w1 = "schedule now w"
  have r: "timer_run es ?w1 = Some (n, w')" using assms(3) by (auto split: option.splits)
  have w: "timers_ok w" by (rule timer_run_ok [OF assms(1) timers_ok_new])
  have s: "timer_step now Change w = Some (False, ?w1)" by simp
  have al: "alive ?w1" "wt_debounce ?w1 = wt_debounce w" using timer_step_alive [OF s _ _ assms(2)] by auto
  have "coming (now + wt_debounce w) ?w1" by (rule schedule_coming)
  then have c: "coming t ?w1" using assms(4) by (fastforce simp: coming_def undisturbed_def)
  have u: "undisturbed (wt_debounce ?w1) t es" using assms(4) al(2) by (simp add: undisturbed_def)
  from timer_run_alive [OF r u al(1) timer_step_ok [OF w s]] c True
  have w': "alive w'" "timers_ok w'" "coming t w'" by simp_all
  show ?thesis
  proof (cases "wt_firing w'")
    case (Suc m)
    then have "timer_run [(t, Fire)] w' = Some (1, w'\<lparr>wt_timer := None, wt_firing := m\<rparr>)"
      using w'(1) by (simp add: fire_def alive_def)
    then show ?thesis by blast
  next
    case 0
    then obtain i d where i: "(i, d) \<in> set (wt_armed w')" "d \<le> t" using w'(3) by (auto simp: coming_def)
    have "map_of (wt_armed w') i = Some d" using i(1) w'(2) by (simp add: timers_ok_def)
    then have "\<exists>w''. timer_run [(t, Expire i), (t, Fire)] w' = Some (1, w'')"
      using i(2) w'(1) by (simp add: expire_def fire_def alive_def)
    then show ?thesis by blast
  qed
qed simp

lemma change_reaches_scan_witness:
  "\<exists>n w'. timer_run [(20, Change), (25, Change)] (new_lib_watcher 1 ''/tv'' 10) = Some (n, w') \<and>
     (0 < n \<or> (\<exists>soon w''. timer_run soon w' = Some (1, w'') \<and>
        soon \<in> {[(35, Fire)]} \<union> {[(35, Expire i), (35, Fire)] | i. True}))"
proof -
  have b: "timer_run [] (new_lib_watcher 1 ''/tv'' 10) = Some (0, new_lib_watcher 1 ''/tv'' 10)" by simp
  have a: "alive (new_lib_watcher 1 ''/tv'' 10)" by (simp add: alive_def new_lib_watcher_def)
  obtain n w' where r: "timer_run [(20, Change), (25, Change)] (new_lib_watcher 1 ''/tv'' 10) = Some (n, w')" by simp
  have u: "undisturbed (wt_debounce (new_lib_watcher 1 ''/tv'' 10)) 35 [(20, Change), (25, Change)]"
    by (simp add: undisturbed_def new_lib_watcher_def)
  from change_reaches_scan [OF b a r u] r show ?thesis by blast
qed

end
