(* ===== verification/MonitorProps.thy ===== *)
theory MonitorProps
  imports WatchProps JobProps
begin

text \<open>
  The properties of the monitor: what one tick of the clock queues, and what a reconciliation leaves.
\<close>

subsection \<open>Scans by the clock\<close>

definition active_job :: "job \<Rightarrow> bool" where
  "active_job j \<longleftrightarrow> jb_status j \<in> {''queued'', ''running''}"

text \<open>The scans of one library that are queued or running, and whether a scan of everything is.\<close>

definition lib_scans :: "int \<Rightarrow> db \<Rightarrow> job list" where
  "lib_scans i d = filter (\<lambda>j. jb_type j = ''scan_library'' \<and> active_job j \<and> json_int ''library_id'' (jb_payload j) = Some i) (db_jobs d)"

definition full_scan :: "db \<Rightarrow> bool" where
  "full_scan d \<longleftrightarrow> (\<exists>j \<in> set (db_jobs d). jb_type j = ''scan_all'' \<and> active_job j)"

lemma sql_calm: "s_faults s = [] \<Longrightarrow> sql f s = (case f (s_db s) of None \<Rightarrow> (Inl SqlError, s) | Some (a, d) \<Rightarrow> (Inr a, s\<lparr>s_db := d\<rparr>))"
  by (simp add: sql_def sql_fault_def)

lemma query_calm: "s_faults s = [] \<Longrightarrow> query f s = (Inr (f (s_db s)), s)"
  by (simp add: query_def sql_calm)

lemma count_where_some: "0 < count_where P rows \<longleftrightarrow> (\<exists>r \<in> set rows. P r)"
  using count_where_0 [of P rows] by (auto simp del: count_where_0)

lemma scan_in_status_calm:
  "s_faults s = [] \<Longrightarrow> scan_in_status i sts s =
     (Inr ((\<exists>j \<in> set (db_jobs (s_db s)). jb_type j = ''scan_all'' \<and> jb_status j \<in> set sts) \<or>
        (\<exists>j \<in> set (db_jobs (s_db s)). jb_type j = ''scan_library'' \<and> jb_status j \<in> set sts \<and>
           json_int ''library_id'' (jb_payload j) = Some i)), s)"
  by (auto simp: scan_in_status_def andthen_def query_calm ret_def count_where_some)

lemma is_scan_active_calm:
  "s_faults s = [] \<Longrightarrow> is_scan_active i s = (Inr (full_scan (s_db s) \<or> lib_scans i (s_db s) \<noteq> []), s)"
  by (auto simp: is_scan_active_def scan_in_status_calm full_scan_def lib_scans_def active_job_def filter_empty_conv)

lemma is_scan_queued_calm:
  assumes "s_faults s = []" "\<not> full_scan (s_db s)" "lib_scans i (s_db s) = []"
  shows "is_scan_queued i s = (Inr False, s)"
  using assms
  by (auto simp: is_scan_queued_def scan_in_status_calm full_scan_def lib_scans_def active_job_def filter_empty_conv)

text \<open>The job that a due library gets.\<close>

definition scan_job :: "library \<Rightarrow> store \<Rightarrow> job" where
  "scan_job lib s = set_jb_id (next_id jb_id (db_jobs (s_db s)))
     (new_job ''scan_library'' 0 (lb_path lib) (enc_scan (lb_id lib)) (s_now s) (s_db s))"

lemma scan_job_fields:
  "jb_type (scan_job lib s) = ''scan_library''" "jb_status (scan_job lib s) = ''queued''"
  "jb_payload (scan_job lib s) = enc_scan (lb_id lib)"
  by (simp_all add: scan_job_def set_jb_id_def new_job_def)

definition wants_scan :: "int \<Rightarrow> library \<Rightarrow> db \<Rightarrow> bool" where
  "wants_scan now lib d \<longleftrightarrow> due_for_scan lib now \<and> \<not> full_scan d \<and> lib_scans (lb_id lib) d = []"

lemma tick_library_calm:
  assumes "s_faults s = []" "lib_row (lb_id lib) (s_db s) = Some lib"
  shows "tick_library now lib s =
     (if wants_scan now lib (s_db s) then s\<lparr>s_db := (s_db s)\<lparr>db_jobs := db_jobs (s_db s) @ [scan_job lib s]\<rparr>\<rparr> else s)"
proof (cases "wants_scan now lib (s_db s)")
  case True
  then have w: "due_for_scan lib now" "\<not> full_scan (s_db s)" "lib_scans (lb_id lib) (s_db s) = []"
    by (simp_all add: wants_scan_def)
  have "create_job ''scan_library'' 0 (lb_path lib) (enc_scan (lb_id lib)) s =
      (Inr (scan_job lib s), s\<lparr>s_db := (s_db s)\<lparr>db_jobs := db_jobs (s_db s) @ [scan_job lib s]\<rparr>\<rparr>)"
    using assms(1) by (simp add: create_job_def sql_calm insert_row_def scan_job_def)
  with True w assms show ?thesis
    by (simp add: tick_library_def is_scan_active_calm enqueue_scan_def is_scan_queued_calm get_library_def query_calm)
next
  case False
  with assms show ?thesis by (auto simp: tick_library_def is_scan_active_calm wants_scan_def)
qed

lemma scans_after_job:
  assumes "in_i64 (lb_id lib)"
  shows "lib_scans i (d\<lparr>db_jobs := db_jobs d @ [scan_job lib s]\<rparr>) =
      lib_scans i d @ (if i = lb_id lib then [scan_job lib s] else [])"
    "full_scan (d\<lparr>db_jobs := db_jobs d @ [scan_job lib s]\<rparr>) = full_scan d"
  using assms dec_enc_scan [of "lb_id lib"]
  by (auto simp: lib_scans_def full_scan_def scan_job_fields active_job_def dec_scan_def)

text \<open>What a tick adds: scans of libraries, and nothing else.\<close>

definition adds_scans :: "store \<Rightarrow> store \<Rightarrow> bool" where
  "adds_scans s s' \<longleftrightarrow> s_faults s' = s_faults s \<and> s_db s' = (s_db s)\<lparr>db_jobs := db_jobs (s_db s')\<rparr> \<and>
     (\<exists>new. db_jobs (s_db s') = db_jobs (s_db s) @ new \<and>
        (\<forall>j \<in> set new. jb_type j = ''scan_library'' \<and> jb_status j = ''queued'' \<and> jb_file j = None))"

lemma adds_scans_libs: "adds_scans s s' \<Longrightarrow> db_libs (s_db s') = db_libs (s_db s)"
  by (cases "s_db s'") (simp add: adds_scans_def)

lemma adds_scans_trans: "adds_scans s t \<Longrightarrow> adds_scans t u \<Longrightarrow> adds_scans s u"
  unfolding adds_scans_def by (auto intro!: db.equality)

lemma tick_library_adds:
  assumes "s_faults s = []" "lib_row (lb_id lib) (s_db s) = Some lib"
  shows "adds_scans s (tick_library now lib s)"
  by (simp add: tick_library_calm [OF assms] adds_scans_def scan_job_fields)
     (simp add: scan_job_def set_jb_id_def new_job_def)

lemma tick_library_scans:
  assumes "s_faults s = []" "lib_row (lb_id lib) (s_db s) = Some lib" "in_i64 (lb_id lib)"
  shows "length (lib_scans i (s_db (tick_library now lib s))) =
      (if i = lb_id lib \<and> wants_scan now lib (s_db s) then 1 else length (lib_scans i (s_db s)))"
    "full_scan (s_db (tick_library now lib s)) = full_scan (s_db s)"
  using scans_after_job [OF assms(3)]
  by (auto simp: tick_library_calm [OF assms(1,2)] wants_scan_def)

lemma tick_libraries:
  assumes "s_faults s = []" "distinct (map lb_id libs)" "\<forall>lib \<in> set libs. lib_row (lb_id lib) (s_db s) = Some lib \<and> in_i64 (lb_id lib)"
  shows "adds_scans s (fold (tick_library now) libs s) \<and>
    (\<forall>i. i \<notin> lb_id ` set libs \<longrightarrow> length (lib_scans i (s_db (fold (tick_library now) libs s))) = length (lib_scans i (s_db s))) \<and>
    (\<forall>lib \<in> set libs. length (lib_scans (lb_id lib) (s_db (fold (tick_library now) libs s))) =
       (if wants_scan now lib (s_db s) then 1 else length (lib_scans (lb_id lib) (s_db s))))"
  using assms
proof (induction libs arbitrary: s)
  case Nil
  then show ?case by (simp add: adds_scans_def)
next
  case (Cons l libs)
  let ?s = "tick_library now l s"
  have l: "lib_row (lb_id l) (s_db s) = Some l" "in_i64 (lb_id l)" using Cons.prems(3) by simp_all
  have a: "adds_scans s ?s" by (rule tick_library_adds [OF Cons.prems(1) l(1)])
  then have same: "s_faults ?s = []" "db_libs (s_db ?s) = db_libs (s_db s)"
    using Cons.prems(1) by (simp_all add: adds_scans_libs) (simp_all add: adds_scans_def)
  note sc = tick_library_scans [OF Cons.prems(1) l, where now = now]
  have other: "wants_scan now lib (s_db ?s) = wants_scan now lib (s_db s)" if "lb_id lib \<noteq> lb_id l" for lib
    using sc(1) [of "lb_id lib"] sc(2) that by (auto simp: wants_scan_def)
  have "\<forall>lib \<in> set libs. lib_row (lb_id lib) (s_db ?s) = Some lib \<and> in_i64 (lb_id lib)"
    using Cons.prems(3) same(2) by (simp add: lib_row_def)
  note ih = Cons.IH [OF same(1) _ this]
  let ?t = "fold (tick_library now) libs ?s"
  have d: "distinct (map lb_id libs)" "lb_id l \<notin> lb_id ` set libs" using Cons.prems(2) by auto
  have "adds_scans s ?t" using ih d(1) a by (blast intro: adds_scans_trans)
  moreover have "length (lib_scans i (s_db ?t)) = length (lib_scans i (s_db s))" if "i \<notin> lb_id ` set (l # libs)" for i
    using ih d(1) sc(1) [of i] that by simp
  moreover have "length (lib_scans (lb_id lib) (s_db ?t)) =
      (if wants_scan now lib (s_db s) then 1 else length (lib_scans (lb_id lib) (s_db s)))" if "lib \<in> set (l # libs)" for lib
  proof (cases "lib = l")
    case True
    then show ?thesis using ih d sc(1) [of "lb_id l"] by simp
  next
    case False
    then have "lib \<in> set libs" "lb_id lib \<noteq> lb_id l" using that d(2) by (auto simp: image_iff)
    then show ?thesis using ih d(1) other [of lib] sc(1) [of "lb_id lib"] by simp
  qed
  ultimately show ?case by simp
qed

text \<open>
  C33: with no failing statement, one tick of the clock gives every library that is due and has no scan
  queued or running exactly one scan, gives nothing to the others or while a scan of everything is
  pending, and changes nothing else in the database: however often the clock ticks, scans do not pile
  up.
\<close>

theorem tick_scans_due_once:
  assumes "s_faults s = []" "db_ok (s_db s)" "\<forall>lib \<in> set (db_libs (s_db s)). in_i64 (lb_id lib)"
  shows "adds_scans s (tick now s) \<and>
    (\<forall>lib \<in> set (db_libs (s_db s)). length (lib_scans (lb_id lib) (s_db (tick now s))) =
       (if wants_scan now lib (s_db s) then 1 else length (lib_scans (lb_id lib) (s_db s)))) \<and>
    tick now (tick now s) = tick now s"
proof -
  let ?libs = "sort_key lb_name (db_libs (s_db s))"
  have t: "tick now r = fold (tick_library now) (sort_key lb_name (db_libs (s_db r))) r" if "s_faults r = []" for r
    using that by (simp add: tick_def list_libraries_def query_calm)
  have k: "keys_ok lb_id (db_libs (s_db s))" by (rule db_okD(1) [OF assms(2)])
  have d: "distinct (map lb_id (db_libs (s_db s)))" using k by (simp add: keys_ok_def strict_sorted_iff)
  have d': "distinct (map lb_id ?libs)"
    using d mset_eq_imp_distinct_iff [of "map lb_id ?libs" "map lb_id (db_libs (s_db s))"] by simp
  have rows: "\<forall>lib \<in> set ?libs. lib_row (lb_id lib) (s_db s) = Some lib \<and> in_i64 (lb_id lib)"
    using find_row_eq [OF k] assms(3) by (auto simp: lib_row_def)
  note f = tick_libraries [OF assms(1) d' rows, of now]
  let ?s = "tick now s"
  have a: "adds_scans s ?s" using f t [OF assms(1)] by simp
  then have same: "s_faults ?s = []" "db_libs (s_db ?s) = db_libs (s_db s)"
    using assms(1) by (simp_all add: adds_scans_libs) (simp_all add: adds_scans_def)
  have sc: "\<forall>lib \<in> set (db_libs (s_db s)). length (lib_scans (lb_id lib) (s_db ?s)) =
       (if wants_scan now lib (s_db s) then 1 else length (lib_scans (lb_id lib) (s_db s)))"
    using f t [OF assms(1)] by simp
  have full: "full_scan (s_db ?s) = full_scan (s_db s)"
    using a by (auto simp: adds_scans_def full_scan_def)
  have none: "\<not> wants_scan now lib (s_db ?s)" if "lib \<in> set (db_libs (s_db s))" for lib
  proof
    assume w: "wants_scan now lib (s_db ?s)"
    then have "length (lib_scans (lb_id lib) (s_db ?s)) = 0" "\<not> full_scan (s_db s)" "due_for_scan lib now"
      using full by (simp_all add: wants_scan_def)
    with bspec [OF sc that] show False by (simp add: wants_scan_def split: if_splits)
  qed
  have "fold (tick_library now) libs ?s = ?s" if "set libs \<subseteq> set (db_libs (s_db s))" for libs
    using that
  proof (induction libs)
    case (Cons l libs)
    have "lib_row (lb_id l) (s_db ?s) = Some l" using rows Cons.prems same(2) by (simp add: lib_row_def)
    then have "tick_library now l ?s = ?s" using none [of l] Cons.prems by (simp add: tick_library_calm [OF same(1)])
    with Cons show ?case by simp
  qed simp
  then have "tick now ?s = ?s" using t [OF same(1)] same(2) by simp
  with a sc show ?thesis by blast
qed

definition demo_shows :: "bool \<Rightarrow> library" where
  "demo_shows watch = \<lparr>lb_id = 1, lb_name = ''Shows'', lb_path = ''/tv'', lb_kind = ''series'', lb_policy = ''skip'',
     lb_interval = 3600, lb_watch = watch, lb_last_scan = 0\<rparr>"

definition demo_libraries :: store where
  "demo_libraries = \<lparr>s_db = \<lparr>db_libs = [demo_shows True], db_files = [], db_sidecars = [], db_jobs = [], db_settings = []\<rparr>,
     s_faults = [], s_now = 5000\<rparr>"

lemma tick_scans_due_once_witness:
  "length (lib_scans 1 (s_db (tick 5000 demo_libraries))) = 1 \<and> tick 5000 (tick 5000 demo_libraries) = tick 5000 demo_libraries"
proof -
  have f: "s_faults demo_libraries = []" "db_ok (s_db demo_libraries)"
    by (simp_all add: demo_libraries_def demo_shows_def db_ok_def keys_ok_def)
  have l: "db_libs (s_db demo_libraries) = [demo_shows True]" by (simp add: demo_libraries_def)
  have "wants_scan 5000 (demo_shows True) (s_db demo_libraries)"
    by (simp add: wants_scan_def due_for_scan_def full_scan_def lib_scans_def demo_libraries_def demo_shows_def)
  with tick_scans_due_once [OF f, of 5000] l show ?thesis by (simp add: demo_shows_def)
qed

subsection \<open>Reconciliation\<close>

text \<open>What the calls of one watcher leave as they are, and whom they report about.\<close>

definition about :: "int \<Rightarrow> (int \<times> string) list \<Rightarrow> bool" where
  "about i out \<longleftrightarrow> list_all (\<lambda>(lib, _). lib = i) out"

lemma about_simps [simp]: "about i []" "about i (x # xs) \<longleftrightarrow> fst x = i \<and> about i xs" "about i (xs @ ys) \<longleftrightarrow> about i xs \<and> about i ys"
  by (auto simp: about_def)

definition same_lib :: "'k watching \<Rightarrow> 'k watching \<Rightarrow> bool" where
  "same_lib s s' \<longleftrightarrow> wt_lib (wg_w s') = wt_lib (wg_w s) \<and> wt_root (wg_w s') = wt_root (wg_w s) \<and>
     wt_dead (wg_w s') = wt_dead (wg_w s) \<and>
     (about (wt_lib (wg_w s)) (wg_out s) \<longrightarrow> about (wt_lib (wg_w s)) (wg_out s'))"

lemma same_lib_refl [simp]: "same_lib s s"
  by (simp add: same_lib_def)










text \<open>What a call for library \<open>i\<close> leaves: the setting, and the watchers and statuses of the others.\<close>

definition only_lib :: "int \<Rightarrow> 'k monitor \<Rightarrow> 'k monitor \<Rightarrow> bool" where
  "only_lib i m m' \<longleftrightarrow> mo_global m' = mo_global m \<and>
     (\<forall>j. j \<noteq> i \<longrightarrow> map_of (mo_watchers m') j = map_of (mo_watchers m) j \<and> mo_statuses m' j = mo_statuses m j)"

lemma only_lib_refl [simp]: "only_lib i m m"
  by (simp add: only_lib_def)




lemma set_statuses_watchers: "mo_watchers (fold (\<lambda>(lib, st). set_status lib st) out m) = mo_watchers m"
  by (induction out arbitrary: m) (simp_all add: set_status_def split_beta)


lemma take_watching_watchers [simp]: "mo_watchers (take_watching s m) = mo_watchers m"
  by (simp add: take_watching_def set_statuses_watchers)

lemma stop_watcher_simps [simp]:
  "mo_watchers (stop_watcher fn w m) = mo_watchers m" "mo_global (stop_watcher fn w m) = mo_global m"
  "mo_statuses (stop_watcher fn w m) = mo_statuses m" "mo_catchup (stop_watcher fn w m) = mo_catchup m"
  by (simp_all add: stop_watcher_def)

lemma stop_watchers_simps [simp]:
  "mo_watchers (fold (\<lambda>(_, w). stop_watcher fn w) ws m) = mo_watchers m"
  "mo_global (fold (\<lambda>(_, w). stop_watcher fn w) ws m) = mo_global m"
  "mo_statuses (fold (\<lambda>(_, w). stop_watcher fn w) ws m) = mo_statuses m"
  by (induction ws arbitrary: m) (simp_all add: split_beta)











end
