(* ===== verification/Handlers.thy ===== *)
theory Handlers
  imports Security RunnerSteps FileList
begin

text \<open>
  \<^verbatim>\<open>internal/api/server.go\<close>: what the handlers behind the front door do with the machine, and what
  they answer. A handler ends with a status and an error, or with a status, a value (what is encoded
  as JSON) and what it tells the other parts. This theory has the shared plumbing and the handlers of
  the folder picker, the libraries and the scans.
\<close>

subsection \<open>Replies\<close>

text \<open>The runner is woken, the monitor reconciles, an event goes to the hub.\<close>

datatype effect = Wake | Reconcile | Publish string json

type_synonym 'a request = "(machine, nat \<times> api_err, 'a) op"
type_synonym 'a handler = "(nat \<times> 'a \<times> effect list) request"

text \<open>What the server has: the engine and its texts, the environment's settings, what the operating system
  lists, the monitor's statuses.\<close>

record server =
  sv_engine :: engine_env
  sv_text :: err_texts
  sv_unmarshal :: "string \<Rightarrow> probe_result option"
  sv_browse_roots :: "path list"
  sv_default_interval :: int
  sv_home :: "path option"
  sv_read_dir :: "world \<Rightarrow> path \<Rightarrow> (string \<times> bool) list option"
  sv_watch_status :: "int \<Rightarrow> string"

definition reject :: "nat \<Rightarrow> string \<Rightarrow> 'a request" where
  "reject code msg = fail (code, ClientError msg)"

definition reply :: "nat \<Rightarrow> 'a \<Rightarrow> effect list \<Rightarrow> 'a handler" where
  "reply code a effs = ret (code, a, effs)"

definition db_call :: "server \<Rightarrow> nat \<Rightarrow> 'a store_op \<Rightarrow> 'a request" where
  "db_call sv code = on_store (\<lambda>e. (code, InternalError (et_store (sv_text sv) e)))"

definition world_call :: "(world \<Rightarrow> 'a \<times> world) \<Rightarrow> 'a request" where
  "world_call f m = (case on_world f m of (a, m') \<Rightarrow> (Inr a, m'))"

text \<open>The status and, for an error, the message that is sent.\<close>

definition answer :: "(nat \<times> api_err) + (nat \<times> 'a \<times> effect list) \<Rightarrow> nat \<times> (string + 'a)" where
  "answer r = (case r of Inl (code, e) \<Rightarrow> (case write_err code e of (c, msg) \<Rightarrow> (c, Inl msg)) | Inr (code, a, _) \<Rightarrow> (code, Inr a))"

definition path_id :: "string \<Rightarrow> int request" where
  "path_id s = (case parse_int s of
      (n, None) \<Rightarrow> if n \<le> 0 then reject 400 ''invalid id'' else ret n
    | (_, Some _) \<Rightarrow> reject 400 ''invalid id'')"

text \<open>A body: a JSON value, something that is none, or more than ten megabytes.\<close>

datatype body = Json json | NotJson string | TooLarge

definition decode :: "(json \<Rightarrow> 'a option) \<Rightarrow> body \<Rightarrow> 'a request" where
  "decode d b =
     (case b of
        Json j \<Rightarrow> (case d j of Some a \<Rightarrow> ret a | None \<Rightarrow> fail (400, InternalError ''json: cannot unmarshal''))
      | NotJson msg \<Rightarrow> fail (400, InternalError msg)
      | TooLarge \<Rightarrow> fail (400, BodyTooLarge))"

definition handle_stats :: "server \<Rightarrow> stats handler" where
  "handle_stats sv = andthen (db_call sv 500 stats) (\<lambda>st. reply 200 st [])"

subsection \<open>The folder picker\<close>

record listing =
  ls_current :: path
  ls_parent :: path
  ls_dirs :: "string list"

definition browse_parent :: "path \<Rightarrow> path" where
  "browse_parent p = (if dir_name p \<noteq> p then dir_name p else '''')"

definition effective_browse_roots :: "server \<Rightarrow> machine \<Rightarrow> path list \<times> machine" where
  "effective_browse_roots sv m =
     (if sv_browse_roots sv \<noteq> [] then (sv_browse_roots sv, m)
      else case on_store id list_libraries m of (r, m1) \<Rightarrow>
        let libs = (case r of Inr ls \<Rightarrow> map lb_path ls | Inl _ \<Rightarrow> []) in
        (case on_world (default_browse_roots (sv_home sv)) m1 of (ds, m2) \<Rightarrow> (libs @ ds, m2)))"

definition resolved_browse_roots :: "server \<Rightarrow> machine \<Rightarrow> path list \<times> machine" where
  "resolved_browse_roots sv m =
     (case effective_browse_roots sv m of (rs, m1) \<Rightarrow> on_world (unique_roots rs []) m1)"

definition listing_of :: "path \<Rightarrow> string list \<Rightarrow> listing" where
  "listing_of p dirs = \<lparr>ls_current = p, ls_parent = browse_parent p, ls_dirs = dirs\<rparr>"

definition handle_browse :: "server \<Rightarrow> string \<Rightarrow> listing handler" where
  "handle_browse sv p0 m0 =
     (case on_world (real_path (clean (if p0 = '''' then ''/'' else p0))) m0 of (p, m1) \<Rightarrow>
      case resolved_browse_roots sv m1 of (roots, m) \<Rightarrow>
        if \<not> path_allowed p roots then
          (if root_children p roots \<noteq> [] then reply 200 (listing_of p (root_children p roots)) [] m
           else reject 403 ''path is outside the allowed roots'' m)
        else case sv_read_dir sv (m_world m) p of
          None \<Rightarrow> reject 400 ''path is not an accessible directory'' m
        | Some entries \<Rightarrow>
            reply 200 (listing_of p (sort (map fst (filter (\<lambda>(name, is_dir). is_dir \<and> \<not> prefix ''.'' name) entries)))) [] m)"

subsection \<open>Libraries\<close>

type_synonym library_view = "library \<times> string"

definition library_view :: "server \<Rightarrow> library \<Rightarrow> library_view" where
  "library_view sv l = (l, sv_watch_status sv (lb_id l))"

definition handle_list_libraries :: "server \<Rightarrow> library_view list handler" where
  "handle_list_libraries sv =
     andthen (db_call sv 500 list_libraries) (\<lambda>libs. reply 200 (map (library_view sv) libs) [])"

record library_request =
  lq_name :: string
  lq_path :: path
  lq_kind :: string
  lq_policy :: string
  lq_interval :: "int option"
  lq_watch :: "bool option"

definition dec_library :: "json \<Rightarrow> library_request option" where
  "dec_library j = Option.bind (dec_fields j) (\<lambda>kvs.
     Option.bind (dec_field ''name'' dec_str kvs) (\<lambda>n.
     Option.bind (dec_field ''path'' dec_str kvs) (\<lambda>p.
     Option.bind (dec_field ''kind'' dec_str kvs) (\<lambda>k.
     Option.bind (dec_field ''hardlink_policy'' dec_str kvs) (\<lambda>h.
     Option.bind (dec_field ''auto_scan_interval'' (dec_ptr dec_int) kvs) (\<lambda>i.
     Option.bind (dec_field ''watch_enabled'' (dec_ptr dec_bool) kvs) (\<lambda>w.
     Some \<lparr>lq_name = n, lq_path = p, lq_kind = k, lq_policy = h, lq_interval = i, lq_watch = w\<rparr>)))))))"

definition sanitize_interval :: "int \<Rightarrow> int" where
  "sanitize_interval secs = (if secs \<le> 0 then 0 else if secs < 60 then 60 else secs)"

definition library_kinds :: "string list" where "library_kinds = [''tv'', ''movie'', ''other'']"
definition link_policies :: "string list" where "link_policies = [''skip'', ''proceed'']"

definition decode_library_req :: "body \<Rightarrow> library_request request" where
  "decode_library_req b =
     andthen (decode dec_library b) (\<lambda>q.
     if \<not> is_abs (lq_path q) then reject 400 ''path must be absolute''
     else andthen (world_call (real_path (clean (lq_path q)))) (\<lambda>p.
       let q1 = q\<lparr>lq_path := p, lq_name := (if lq_name q = '''' then base_name p else lq_name q),
                  lq_kind := (if lq_kind q \<in> set library_kinds then lq_kind q else ''other''),
                  lq_policy := (if lq_policy q \<in> set link_policies then lq_policy q else ''skip'')\<rparr> in
       andthen (world_call (os_stat p)) (\<lambda>st.
       case st of
         Some (_, nd) \<Rightarrow> if in_kind nd = Dir then ret q1 else reject 400 ''path is not an accessible directory''
       | None \<Rightarrow> reject 400 ''path is not an accessible directory'')))"

definition library_path_allowed :: "server \<Rightarrow> path \<Rightarrow> machine \<Rightarrow> bool \<times> machine" where
  "library_path_allowed sv p m =
     (if sv_browse_roots sv = [] then (True, m)
      else case on_world (real_path p) m of (rp, m1) \<Rightarrow>
           case on_world (unique_roots (sv_browse_roots sv) []) m1 of (roots, m2) \<Rightarrow> (path_allowed rp roots, m2))"

definition allowed_library :: "server \<Rightarrow> body \<Rightarrow> library_request request" where
  "allowed_library sv b =
     andthen (decode_library_req b) (\<lambda>q.
     andthen (\<lambda>m. case library_path_allowed sv (lq_path q) m of (ok, m') \<Rightarrow> (Inr ok, m')) (\<lambda>ok.
     if \<not> ok then reject 403 ''library path is outside the allowed roots'' else ret q))"

definition handle_add_library :: "server \<Rightarrow> body \<Rightarrow> library_view handler" where
  "handle_add_library sv b =
     andthen (allowed_library sv b) (\<lambda>q.
     let l = \<lparr>lb_id = 0, lb_name = lq_name q, lb_path = lq_path q, lb_kind = lq_kind q, lb_policy = lq_policy q,
              lb_interval = sanitize_interval (case lq_interval q of Some i \<Rightarrow> i | None \<Rightarrow> sv_default_interval sv),
              lb_watch = (case lq_watch q of Some w \<Rightarrow> w | None \<Rightarrow> True), lb_last_scan = 0\<rparr> in
     andthen (db_call sv 400 (add_library l)) (\<lambda>i.
     reply 201 (library_view sv (l\<lparr>lb_id := i\<rparr>)) [Reconcile]))"

text \<open>A moved library is scanned; errors of that are dropped.\<close>

definition rescan_moved :: "library \<Rightarrow> machine \<Rightarrow> effect list \<times> machine" where
  "rescan_moved l m =
     (case on_store id (is_scan_queued (lb_id l)) m of
        (Inr False, m1) \<Rightarrow>
          (case on_store id (create_job ''scan_library'' 0 (lb_path l) (enc_scan (lb_id l))) m1 of
             (Inr _, m2) \<Rightarrow> ([Wake], m2)
           | (Inl _, m2) \<Rightarrow> ([], m2))
      | (_, m1) \<Rightarrow> ([], m1))"

definition changed_library :: "int \<Rightarrow> library \<Rightarrow> library_request \<Rightarrow> library" where
  "changed_library i old q =
     \<lparr>lb_id = i, lb_name = lq_name q, lb_path = lq_path q, lb_kind = lq_kind q, lb_policy = lq_policy q,
      lb_interval = (case lq_interval q of Some n \<Rightarrow> sanitize_interval n | None \<Rightarrow> lb_interval old),
      lb_watch = (case lq_watch q of Some w \<Rightarrow> w | None \<Rightarrow> lb_watch old), lb_last_scan = lb_last_scan old\<rparr>"

definition handle_update_library :: "server \<Rightarrow> string \<Rightarrow> body \<Rightarrow> library_view handler" where
  "handle_update_library sv pid b =
     andthen (path_id pid) (\<lambda>i.
     andthen (db_call sv 500 (get_library i)) (\<lambda>existing.
     case existing of
       None \<Rightarrow> reject 404 ''library not found''
     | Some old \<Rightarrow>
         andthen (allowed_library sv b) (\<lambda>q.
         andthen (world_call (real_path (lb_path old))) (\<lambda>rp.
         let l = changed_library i old (if rp = lq_path q then q\<lparr>lq_path := lb_path old\<rparr> else q) in
         andthen (db_call sv 400 (update_library l)) (\<lambda>_.
         andthen (\<lambda>m. if lb_path l \<noteq> lb_path old then (case rescan_moved l m of (e, m') \<Rightarrow> (Inr e, m')) else (Inr [], m)) (\<lambda>effs.
         reply 200 (library_view sv l) (effs @ [Reconcile])))))))"

definition handle_delete_library :: "server \<Rightarrow> string \<Rightarrow> unit handler" where
  "handle_delete_library sv pid =
     andthen (path_id pid) (\<lambda>i.
     andthen (db_call sv 500 (delete_library i)) (\<lambda>_. reply 200 () [Reconcile]))"

subsection \<open>Scans\<close>

definition handle_scan_library :: "server \<Rightarrow> string \<Rightarrow> unit handler" where
  "handle_scan_library sv pid =
     andthen (path_id pid) (\<lambda>i m.
     case db_call sv 404 (get_library i) m of
       (Inr (Some lib), m1) \<Rightarrow>
         andthen (db_call sv 500 (is_scan_active (lb_id lib))) (\<lambda>active.
         if active then reject 409 ''scan already running or queued for this library''
         else andthen (db_call sv 500 (create_job ''scan_library'' 0 (lb_path lib) (enc_scan (lb_id lib)))) (\<lambda>_.
           reply 202 () [Wake])) m1
     | (_, m1) \<Rightarrow> reject 404 ''library not found'' m1)"

definition handle_scan_all :: "server \<Rightarrow> unit handler" where
  "handle_scan_all sv =
     andthen (db_call sv 500 is_scan_all_active) (\<lambda>active.
     if active then reject 409 ''scan all already queued or running''
     else andthen (db_call sv 500 (create_job ''scan_all'' 0 ''all libraries'' (JObj []))) (\<lambda>_. reply 202 () [Wake]))"

text \<open>The webhook of Sonarr and Radarr: the first library that holds the imported folder is scanned.\<close>

definition dec_webhook :: "json \<Rightarrow> (string \<times> string) option" where
  "dec_webhook j = Option.bind (dec_fields j) (\<lambda>kvs.
     Option.bind (dec_field ''eventType'' dec_str kvs) (\<lambda>_.
     Option.bind (dec_field ''series'' (\<lambda>s. Option.bind (dec_fields s) (dec_field ''path'' dec_str)) kvs) (\<lambda>sp.
     Option.bind (dec_field ''movie'' (\<lambda>s. Option.bind (dec_fields s) (dec_field ''folderPath'' dec_str)) kvs) (\<lambda>mp.
     Some (sp, mp)))))"

datatype webhook_reply = Ignored | ScanStarted string | NoLibrary

definition handle_arr_webhook :: "server \<Rightarrow> body \<Rightarrow> webhook_reply handler" where
  "handle_arr_webhook sv b =
     andthen (decode dec_webhook b) (\<lambda>(series, movie).
     let target = (if series = '''' then movie else series) in
     if target = '''' then reply 200 Ignored []
     else
       andthen (db_call sv 500 list_libraries) (\<lambda>libs.
       andthen (world_call (real_path (clean target))) (\<lambda>resolved.
       case List.find (\<lambda>l. api_path_within target (lb_path l) \<or> api_path_within resolved (lb_path l)) libs of
         None \<Rightarrow> reply 200 NoLibrary []
       | Some lib \<Rightarrow>
           andthen (db_call sv 500 (is_scan_queued (lb_id lib))) (\<lambda>active m.
           if active then reply 202 (ScanStarted (lb_name lib)) [] m
           else case on_store id (create_job ''scan_library'' 0 (lb_path lib) (enc_scan (lb_id lib))) m of
             (_, m1) \<Rightarrow> reply 202 (ScanStarted (lb_name lib)) [Wake] m1))))"

end
