(* ===== verification/Hub.thy ===== *)
theory Hub
  imports Handlers
begin

text \<open>
  \<^verbatim>\<open>internal/api/hub.go\<close>: the fan-out of events to the subscribers of the event stream. A subscriber is
  a channel of 64 messages, here a number with its queue; a message for a full channel is dropped. The
  lock of the hub makes each call one step, and so is the receive of a subscriber's loop.
\<close>

record hub =
  hb_subs :: "nat \<Rightarrow> string list option"
  hb_next :: nat

definition new_hub :: hub where
  "new_hub = \<lparr>hb_subs = (\<lambda>_. None), hb_next = 0\<rparr>"

definition channel_size :: nat where "channel_size = 64"

definition sse_message :: "string \<Rightarrow> string \<Rightarrow> string" where
  "sse_message event data = ''event: '' @ event @ [CHR 0x0A] @ ''data: '' @ data @ [CHR 0x0A, CHR 0x0A]"

definition offer :: "string \<Rightarrow> string list \<Rightarrow> string list" where
  "offer msg q = (if length q < channel_size then q @ [msg] else q)"

text \<open>\<open>marshal\<close> is \<^verbatim>\<open>json.Marshal\<close>; what it cannot encode is not sent.\<close>

definition notify :: "(json \<Rightarrow> string option) \<Rightarrow> string \<Rightarrow> json \<Rightarrow> hub \<Rightarrow> hub" where
  "notify marshal event data h =
     (case marshal data of
        None \<Rightarrow> h
      | Some b \<Rightarrow> h\<lparr>hb_subs := (\<lambda>i. map_option (offer (sse_message event b)) (hb_subs h i))\<rparr>)"

definition subscribe :: "hub \<Rightarrow> nat \<times> hub" where
  "subscribe h = (hb_next h, h\<lparr>hb_subs := (hb_subs h)(hb_next h \<mapsto> []), hb_next := Suc (hb_next h)\<rparr>)"

definition unsubscribe :: "nat \<Rightarrow> hub \<Rightarrow> hub" where
  "unsubscribe i h = h\<lparr>hb_subs := (hb_subs h)(i := None)\<rparr>"

text \<open>The subscriber's loop receives the oldest message and writes it.\<close>

definition receive :: "nat \<Rightarrow> hub \<Rightarrow> string option \<times> hub" where
  "receive i h =
     (case hb_subs h i of
        Some (msg # q) \<Rightarrow> (Some msg, h\<lparr>hb_subs := (hb_subs h)(i \<mapsto> q)\<rparr>)
      | _ \<Rightarrow> (None, h))"

subsection \<open>Order and bound\<close>

datatype hub_event = Notify string json | Join | Leave nat | Receive nat

fun hub_step :: "(json \<Rightarrow> string option) \<Rightarrow> hub_event \<Rightarrow> hub \<Rightarrow> hub" where
  "hub_step enc (Notify event data) h = notify enc event data h"
| "hub_step enc Join h = snd (subscribe h)"
| "hub_step enc (Leave i) h = unsubscribe i h"
| "hub_step enc (Receive i) h = snd (receive i h)"

text \<open>What is sent, and what one subscriber writes, along a run.\<close>

fun published :: "(json \<Rightarrow> string option) \<Rightarrow> hub_event list \<Rightarrow> string list" where
  "published enc [] = []"
| "published enc (Notify event data # es) =
     (case enc data of Some b \<Rightarrow> sse_message event b # published enc es | None \<Rightarrow> published enc es)"
| "published enc (_ # es) = published enc es"

fun written :: "(json \<Rightarrow> string option) \<Rightarrow> nat \<Rightarrow> hub_event list \<Rightarrow> hub \<Rightarrow> string list" where
  "written enc i [] h = []"
| "written enc i (e # es) h =
     (case (e, receive i h) of
        (Receive j, (Some msg, h')) \<Rightarrow> if j = i then msg # written enc i es h' else written enc i es (hub_step enc e h)
      | _ \<Rightarrow> written enc i es (hub_step enc e h))"

definition waiting :: "nat \<Rightarrow> hub \<Rightarrow> string list" where
  "waiting i h = (case hb_subs h i of Some q \<Rightarrow> q | None \<Rightarrow> [])"

definition hub_ok :: "hub \<Rightarrow> bool" where
  "hub_ok h \<longleftrightarrow> (\<forall>i. hb_next h \<le> i \<longrightarrow> hb_subs h i = None) \<and> (\<forall>i q. hb_subs h i = Some q \<longrightarrow> length q \<le> channel_size)"

lemma hub_step_ok: "hub_ok h \<Longrightarrow> hub_ok (hub_step enc e h)"
  by (cases e)
     (fastforce simp: hub_ok_def notify_def subscribe_def unsubscribe_def receive_def offer_def
       split: option.splits list.splits if_splits)+

lemma written_Cons:
  "written enc i (e # es) h =
     (if e = Receive i then (case waiting i h of msg # _ \<Rightarrow> [msg] | [] \<Rightarrow> []) else []) @ written enc i es (hub_step enc e h)"
  by (cases e) (auto simp: receive_def waiting_def split: option.splits list.splits)

text \<open>One step, seen by a subscriber that was there before.\<close>

lemma step_view:
  assumes "hub_ok h" "i < hb_next h"
  shows "i < hb_next (hub_step enc e h) \<and>
    subseq ((if e = Receive i then (case waiting i h of msg # _ \<Rightarrow> [msg] | [] \<Rightarrow> []) else []) @ waiting i (hub_step enc e h))
      (waiting i h @ published enc [e])"
proof (cases e)
  case (Notify event data)
  then show ?thesis
    using assms(2) by (auto simp: notify_def waiting_def offer_def split: option.splits)
next
  case Join
  then show ?thesis using assms(2) by (auto simp: subscribe_def waiting_def)
next
  case (Leave j)
  then show ?thesis using assms(2) by (auto simp: unsubscribe_def waiting_def)
next
  case (Receive j)
  then show ?thesis using assms(2) by (auto simp: receive_def waiting_def split: option.splits list.splits)
qed

lemma published_append: "published enc (es @ fs) = published enc es @ published enc fs"
  by (induction enc es rule: published.induct) (auto split: option.splits)

lemma hub_run:
  assumes "hub_ok h" "i < hb_next h"
  shows "subseq (written enc i es h @ waiting i (fold (hub_step enc) es h)) (waiting i h @ published enc es) \<and>
    length (waiting i (fold (hub_step enc) es h)) \<le> channel_size"
  using assms
proof (induction es arbitrary: h)
  case Nil
  then show ?case by (auto simp: waiting_def hub_ok_def split: option.split)
next
  case (Cons e es)
  let ?h = "hub_step enc e h"
  let ?got = "if e = Receive i then (case waiting i h of msg # _ \<Rightarrow> [msg] | [] \<Rightarrow> []) else []"
  note v = step_view [OF Cons.prems, of enc e]
  have ih: "subseq (written enc i es ?h @ waiting i (fold (hub_step enc) es ?h)) (waiting i ?h @ published enc es)"
    "length (waiting i (fold (hub_step enc) es ?h)) \<le> channel_size"
    using Cons.IH [OF hub_step_ok [OF Cons.prems(1)]] v by simp_all
  have "subseq (?got @ written enc i es ?h @ waiting i (fold (hub_step enc) es ?h)) (?got @ waiting i ?h @ published enc es)"
    by (rule list_emb_append_mono [OF subseq_order.order_refl ih(1)])
  moreover have "subseq ((?got @ waiting i ?h) @ published enc es) ((waiting i h @ published enc [e]) @ published enc es)"
    by (rule list_emb_append_mono [OF conjunct2 [OF v] subseq_order.order_refl])
  ultimately have "subseq (?got @ written enc i es ?h @ waiting i (fold (hub_step enc) es ?h))
      (waiting i h @ published enc ([e] @ es))"
    unfolding published_append append_assoc by (rule subseq_order.order_trans)
  with ih(2) show ?case by (simp add: written_Cons del: written.simps)
qed

text \<open>
  C37: a subscriber of the event stream sees the events of the time after it joined in the order in which
  they were published, each at most once; a slow one loses events but never has more than 64 waiting;
  and neither what the others do nor how slow they are changes that.
\<close>

theorem events_in_order:
  assumes "hub_ok h" "subscribe h = (i, h')"
  shows "subseq (written enc i es h' @ waiting i (fold (hub_step enc) es h')) (published enc es) \<and>
    length (waiting i (fold (hub_step enc) es h')) \<le> channel_size"
proof -
  have "hub_ok h'" using hub_step_ok [OF assms(1), of _ Join] assms(2) by simp
  moreover have "i < hb_next h'" "waiting i h' = []" using assms(2) by (auto simp: subscribe_def waiting_def)
  ultimately show ?thesis using hub_run [of h' i enc es] by simp
qed

definition demo_event :: hub_event where
  "demo_event = Notify ''job'' (JObj [])"

lemma events_in_order_witness:
  "\<exists>i h'. subscribe new_hub = (i, h') \<and>
     length (waiting i (fold (hub_step (\<lambda>_. Some ''{}'')) (replicate 70 demo_event) h')) \<le> 64"
proof -
  obtain i h' where s: "subscribe new_hub = (i, h')" by fastforce
  have "hub_ok new_hub" by (simp add: hub_ok_def new_hub_def)
  from events_in_order [OF this s, of "\<lambda>_. Some ''{}''" "replicate 70 demo_event"] s show ?thesis
    by (auto simp: channel_size_def)
qed

end
