(* ===== verification/FileHandlers.thy ===== *)
theory FileHandlers
  imports Handlers
begin

text \<open>
  The handlers of \<^verbatim>\<open>internal/api/server.go\<close> that read files and turn requests into jobs: one file's
  removal, metadata, order and merge, a batch over many files by language, and the job queue itself.
\<close>

subsection \<open>Limits\<close>

definition max_batch_file_ids :: nat where "max_batch_file_ids = 1000"
definition max_stream_indexes :: nat where "max_stream_indexes = 100"
definition max_metadata_edits :: nat where "max_metadata_edits = 100"
definition max_external_files :: nat where "max_external_files = 100"
definition max_track_order :: nat where "max_track_order = 1000"
definition max_sidecar_deletes :: nat where "max_sidecar_deletes = 1000"

subsection \<open>Files\<close>

text \<open>The parameters of a query; a number that does not parse keeps the value of \<^verbatim>\<open>ParseInt\<close>.\<close>

definition param :: "string \<Rightarrow> (string \<times> string) list \<Rightarrow> string" where
  "param k q = (case map_of q k of Some v \<Rightarrow> v | None \<Rightarrow> '''')"

definition handle_list_files :: "server \<Rightarrow> (string \<times> string) list \<Rightarrow> (nat \<times> media_file list) handler" where
  "handle_list_files sv q =
     andthen (db_call sv 500 (list_files
       \<lparr>ff_library = fst (parse_int (param ''library'' q)), ff_query = param ''q'' q, ff_kind = param ''kind'' q,
        ff_limit = fst (parse_int (param ''limit'' q)), ff_offset = fst (parse_int (param ''offset'' q)),
        ff_sort = param ''sort'' q, ff_order = param ''order'' q, ff_hardlinks = param ''hardlinks'' q,
        ff_subs = param ''subs'' q\<rparr>)) (\<lambda>(files, total). reply 200 (total, files) [])"

definition no_probe :: probe_result where
  "no_probe = \<lparr>pr_path = '''', pr_format = '''', pr_duration = 0, pr_size = 0, pr_streams = []\<rparr>"

text \<open>\<^verbatim>\<open>loadDetail\<close>: the record with what was probed; the errors of the database and of the JSON are not told apart.\<close>

definition load_detail :: "server \<Rightarrow> int \<Rightarrow> machine \<Rightarrow> (string + (media_file \<times> probe_result) option) \<times> machine" where
  "load_detail sv i m =
     (case on_store id (get_file i) m of
        (Inl e, m1) \<Rightarrow> (Inl (et_store (sv_text sv) e), m1)
      | (Inr None, m1) \<Rightarrow> (Inr None, m1)
      | (Inr (Some f), m1) \<Rightarrow>
          if mf_probe f = '''' then (Inr (Some (f, no_probe)), m1)
          else case sv_unmarshal sv (mf_probe f) of
            None \<Rightarrow> (Inl ''probe json'', m1)
          | Some res \<Rightarrow> (Inr (Some (f, res)), m1))"

definition detail :: "server \<Rightarrow> int \<Rightarrow> (media_file \<times> probe_result) request" where
  "detail sv i m =
     (case load_detail sv i m of
        (Inl e, m1) \<Rightarrow> fail (500, InternalError e) m1
      | (Inr None, m1) \<Rightarrow> reject 404 ''file not found'' m1
      | (Inr (Some d), m1) \<Rightarrow> ret d m1)"

definition handle_get_file :: "server \<Rightarrow> string \<Rightarrow> (media_file \<times> stream list \<times> string) handler" where
  "handle_get_file sv pid =
     andthen (path_id pid) (\<lambda>i.
     andthen (detail sv i) (\<lambda>(f, res). reply 200 (f, pr_streams res, pr_format res) []))"

subsection \<open>The file that was loaded\<close>

record expect_file =
  xp_size :: "int option"
  xp_mtime :: "int option"

definition dec_expect :: "(string \<times> json) list \<Rightarrow> expect_file option" where
  "dec_expect kvs =
     Option.bind (dec_field ''expect_size'' (dec_ptr dec_int) kvs) (\<lambda>s.
     Option.bind (dec_field ''expect_mtime'' (dec_ptr dec_int) kvs) (\<lambda>t.
     Some \<lparr>xp_size = s, xp_mtime = t\<rparr>))"

definition file_changed :: "expect_file \<Rightarrow> media_file \<Rightarrow> bool" where
  "file_changed e f \<longleftrightarrow>
     (case xp_size e of Some s \<Rightarrow> s \<noteq> mf_size f | None \<Rightarrow> False) \<or> (case xp_mtime e of Some t \<Rightarrow> t \<noteq> mf_mtime f | None \<Rightarrow> False)"

definition file_changed_msg :: string where
  "file_changed_msg = ''file changed since it was loaded; reload it and re-select tracks''"

text \<open>What every request for a change of one file starts with, once its body is accepted.\<close>

definition fresh_detail :: "server \<Rightarrow> int \<Rightarrow> expect_file \<Rightarrow> (media_file \<times> probe_result) request" where
  "fresh_detail sv i e =
     andthen (detail sv i) (\<lambda>(f, res). if file_changed e f then reject 409 file_changed_msg else ret (f, res))"

subsection \<open>Removing tracks and sidecars\<close>

record file_job_request =
  fj_expect :: expect_file
  fj_audio :: "int list"
  fj_subs :: "int list"
  fj_sidecars :: "int list"
  fj_hardlink :: bool
  fj_last_audio :: bool
  fj_dry_run :: bool

definition dec_file_job :: "json \<Rightarrow> file_job_request option" where
  "dec_file_job j = Option.bind (dec_fields j) (\<lambda>kvs.
     Option.bind (dec_expect kvs) (\<lambda>e.
     Option.bind (dec_field ''remove_audio'' (dec_list dec_int) kvs) (\<lambda>a.
     Option.bind (dec_field ''remove_subs'' (dec_list dec_int) kvs) (\<lambda>s.
     Option.bind (dec_field ''delete_sidecars'' (dec_list dec_int) kvs) (\<lambda>d.
     Option.bind (dec_field ''allow_hardlink'' dec_bool kvs) (\<lambda>h.
     Option.bind (dec_field ''allow_last_audio'' dec_bool kvs) (\<lambda>l.
     Option.bind (dec_field ''dry_run'' dec_bool kvs) (\<lambda>r.
     Some \<lparr>fj_expect = e, fj_audio = a, fj_subs = s, fj_sidecars = d, fj_hardlink = h, fj_last_audio = l, fj_dry_run = r\<rparr>))))))))"

text \<open>The sidecars named must all belong to the file; the first that does not ends the request.\<close>

fun own_rows :: "server \<Rightarrow> int \<Rightarrow> int list \<Rightarrow> sidecar list \<Rightarrow> (machine, api_err, sidecar list) op" where
  "own_rows sv fid [] acc = ret acc"
| "own_rows sv fid (i # is) acc =
     andthen (on_store (\<lambda>e. InternalError (et_store (sv_text sv) e)) (get_sidecar i)) (\<lambda>sc.
     case sc of
       None \<Rightarrow> fail (ClientError (''sidecar '' @ itoa i @ '' does not belong to file '' @ itoa fid))
     | Some r \<Rightarrow>
         if sc_file r \<noteq> fid then fail (ClientError (''sidecar '' @ itoa i @ '' does not belong to file '' @ itoa fid))
         else own_rows sv fid is (acc @ [r]))"

text \<open>The jobs created before an error are part of the result.\<close>

fun queue_sidecars :: "server \<Rightarrow> media_file \<Rightarrow> sidecar list \<Rightarrow> job list \<Rightarrow> machine \<Rightarrow> (job list \<times> api_err option) \<times> machine" where
  "queue_sidecars sv f [] js m = ((js, None), m)"
| "queue_sidecars sv f (sc # scs) js m =
     (case on_store id (create_job ''delete_sidecar'' (mf_id f) (mf_path f) (enc_sidecar \<lparr>sp_id = sc_id sc, sp_path = sc_path sc\<rparr>)) m of
        (Inl e, m1) \<Rightarrow> ((js, Some (InternalError (et_store (sv_text sv) e))), m1)
      | (Inr j, m1) \<Rightarrow> queue_sidecars sv f scs (js @ [j]) m1)"

definition wants_remux :: "file_job_request \<Rightarrow> bool" where
  "wants_remux q \<longleftrightarrow> fj_audio q \<noteq> [] \<or> fj_subs q \<noteq> []"

definition remux_of :: "file_job_request \<Rightarrow> remux_payload" where
  "remux_of q = \<lparr>rp_audio = fj_audio q, rp_subs = fj_subs q, rp_hardlink = fj_hardlink q, rp_last_audio = fj_last_audio q\<rparr>"

definition enqueue_for_file :: "server \<Rightarrow> media_file \<Rightarrow> file_job_request \<Rightarrow> machine \<Rightarrow> (job list \<times> api_err option) \<times> machine" where
  "enqueue_for_file sv f q m =
     (case own_rows sv (mf_id f) (fj_sidecars q) [] m of
        (Inl e, m1) \<Rightarrow> (([], Some e), m1)
      | (Inr scs, m1) \<Rightarrow>
          if \<not> wants_remux q \<and> scs = [] then (([], Some (ClientError ''nothing to do'')), m1)
          else if wants_remux q then
            (case on_store id (create_job ''remux'' (mf_id f) (mf_path f) (enc_remux (remux_of q))) m1 of
               (Inl e, m2) \<Rightarrow> (([], Some (InternalError (et_store (sv_text sv) e))), m2)
             | (Inr j, m2) \<Rightarrow> queue_sidecars sv f scs [j] m2)
          else queue_sidecars sv f scs [] m1)"

datatype file_job_reply = Preview "engine_result option" "path list" | Queued "job list"

fun preview_sidecars :: "int \<Rightarrow> int list \<Rightarrow> path list \<Rightarrow> machine \<Rightarrow> path list \<times> machine" where
  "preview_sidecars fid [] acc m = (acc, m)"
| "preview_sidecars fid (i # is) acc m =
     (case on_store id (get_sidecar i) m of
        (Inr (Some sc), m1) \<Rightarrow> preview_sidecars fid is (if sc_file sc = fid then acc @ [sc_path sc] else acc) m1
      | (_, m1) \<Rightarrow> preview_sidecars fid is acc m1)"

definition preview_remux :: "server \<Rightarrow> media_file \<Rightarrow> file_job_request \<Rightarrow> engine_result option request" where
  "preview_remux sv f q m =
     (if \<not> wants_remux q then ret None m
      else case (if fj_hardlink q then (True, m)
                 else case hardlink_policy_proceeds (mf_id f) (m_store m) of (b, s) \<Rightarrow> (b, m\<lparr>m_store := s\<rparr>)) of
        (ok, m1) \<Rightarrow>
          (case on_world (remove_tracks (sv_engine sv) (mf_path f) \<lparr>rm_audio = fj_audio q, rm_subs = fj_subs q\<rparr>
              \<lparr>op_allow_hardlink = ok, op_allow_last_audio = fj_last_audio q, op_dry_run = True\<rparr>) m1 of
             (Inl e, m2) \<Rightarrow> reject 400 (et_engine (sv_text sv) e) m2
           | (Inr r, m2) \<Rightarrow> ret (Some r) m2))"

definition handle_file_jobs :: "server \<Rightarrow> string \<Rightarrow> body \<Rightarrow> file_job_reply handler" where
  "handle_file_jobs sv pid b =
     andthen (path_id pid) (\<lambda>i.
     andthen (decode dec_file_job b) (\<lambda>q.
     if max_stream_indexes < length (fj_audio q) \<or> max_stream_indexes < length (fj_subs q)
     then reject 400 ''remove_audio/remove_subs exceed the limit of 100 entries''
     else if max_sidecar_deletes < length (fj_sidecars q) then reject 400 ''delete_sidecars exceeds the limit of 1000 entries''
     else
       andthen (fresh_detail sv i (fj_expect q)) (\<lambda>(f, res).
       if fj_dry_run q then
         andthen (preview_remux sv f q) (\<lambda>r m.
         case preview_sidecars i (fj_sidecars q) [] m of (ps, m1) \<Rightarrow> reply 200 (Preview r ps) [] m1)
       else (\<lambda>m. case enqueue_for_file sv f q m of
           ((_, Some e), m1) \<Rightarrow> fail (400, e) m1
         | ((js, None), m1) \<Rightarrow> reply 201 (Queued js) [Wake] m1))))"

subsection \<open>Metadata, order, merge\<close>

definition only_matroska :: "string \<Rightarrow> probe_result \<Rightarrow> unit request" where
  "only_matroska what res =
     (if is_matroska res then ret () else reject 400 (''file is not a Matroska container; '' @ what @ '' requires MKV''))"

definition queue_one :: "server \<Rightarrow> string \<Rightarrow> media_file \<Rightarrow> json \<Rightarrow> job handler" where
  "queue_one sv ty f payload =
     andthen (db_call sv 500 (create_job ty (mf_id f) (mf_path f) payload)) (\<lambda>j. reply 201 j [Wake])"

definition dec_edit_request :: "json \<Rightarrow> (expect_file \<times> edit_payload) option" where
  "dec_edit_request j = Option.bind (dec_fields j) (\<lambda>kvs.
     Option.bind (dec_expect kvs) (\<lambda>e. Option.bind (dec_edits j) (\<lambda>p. Some (e, p))))"

definition handle_edit_metadata :: "server \<Rightarrow> string \<Rightarrow> body \<Rightarrow> job handler" where
  "handle_edit_metadata sv pid b =
     andthen (path_id pid) (\<lambda>i.
     andthen (decode dec_edit_request b) (\<lambda>(e, p).
     if ep_edits p = [] then reject 400 ''edits required''
     else if max_metadata_edits < length (ep_edits p) then reject 400 ''edits exceeds the limit of 100''
     else andthen (fresh_detail sv i e) (\<lambda>(f, res).
       andthen (only_matroska ''metadata editing'' res) (\<lambda>_. queue_one sv ''edit_metadata'' f (enc_edits p)))))"

definition dec_reorder_request :: "json \<Rightarrow> (expect_file \<times> reorder_payload) option" where
  "dec_reorder_request j = Option.bind (dec_fields j) (\<lambda>kvs.
     Option.bind (dec_expect kvs) (\<lambda>e. Option.bind (dec_reorder j) (\<lambda>p. Some (e, p))))"

text \<open>The indexes in turn: no repetition, a known stream, a stream that mkvmerge can name.\<close>

fun order_ok :: "stream list \<Rightarrow> int list \<Rightarrow> int list \<Rightarrow> string option" where
  "order_ok ss seen [] = None"
| "order_ok ss seen (i # is) =
     (if i \<in> set seen then Some (''duplicate stream index '' @ itoa i @ '' in track order'')
      else case by_idx ss i of
        None \<Rightarrow> Some (''stream index '' @ itoa i @ '' not found'')
      | Some st \<Rightarrow>
          if st_mkv_id st < 0 then Some (''stream index '' @ itoa i @ '' has no mkvmerge track ID'')
          else order_ok ss (i # seen) is)"

definition order_check :: "stream list \<Rightarrow> int list \<Rightarrow> string option" where
  "order_check ss order =
     (if length order \<noteq> expected_count ss
      then Some (''track order must contain exactly '' @ itoa (int (expected_count ss)) @ '' tracks, got '' @ itoa (int (length order)))
      else order_ok ss [] order)"

definition handle_reorder_tracks :: "server \<Rightarrow> string \<Rightarrow> body \<Rightarrow> job handler" where
  "handle_reorder_tracks sv pid b =
     andthen (path_id pid) (\<lambda>i.
     andthen (decode dec_reorder_request b) (\<lambda>(e, p).
     if op_order p = [] then reject 400 ''track_order is required''
     else if max_track_order < length (op_order p) then reject 400 ''track_order exceeds the limit of 1000 entries''
     else andthen (fresh_detail sv i e) (\<lambda>(f, res).
       andthen (only_matroska ''track reordering'' res) (\<lambda>_.
       case order_check (pr_streams res) (op_order p) of
         Some msg \<Rightarrow> reject 400 msg
       | None \<Rightarrow> queue_one sv ''reorder_tracks'' f (enc_reorder p)))))"

definition dec_merge_request :: "json \<Rightarrow> (expect_file \<times> merge_payload) option" where
  "dec_merge_request j = Option.bind (dec_fields j) (\<lambda>kvs.
     Option.bind (dec_expect kvs) (\<lambda>e. Option.bind (dec_merge j) (\<lambda>p. Some (e, p))))"

definition check_external :: "server \<Rightarrow> path \<Rightarrow> path list \<Rightarrow> (machine, api_err, unit) op" where
  "check_external sv target files m =
     (case on_world (validate_external_files (ev_roots (sv_engine sv)) target files) m of
        (Inl e, m1) \<Rightarrow> (Inl (ClientError (et_engine (sv_text sv) e)), m1)
      | (Inr _, m1) \<Rightarrow> (Inr (), m1))"

definition handle_merge_tracks :: "server \<Rightarrow> string \<Rightarrow> body \<Rightarrow> job handler" where
  "handle_merge_tracks sv pid b =
     andthen (path_id pid) (\<lambda>i.
     andthen (decode dec_merge_request b) (\<lambda>(e, p).
     if mp_files p = [] then reject 400 ''external_files is required''
     else if max_external_files < length (mp_files p) then reject 400 ''external_files exceeds the limit of 100''
     else andthen (fresh_detail sv i e) (\<lambda>(f, res).
       andthen (only_matroska ''merging tracks'' res) (\<lambda>_ m.
       case check_external sv (mf_path f) (mp_files p) m of
         (Inl e, m1) \<Rightarrow> fail (400, e) m1
       | (Inr _, m1) \<Rightarrow> queue_one sv ''merge_tracks'' f (enc_merge p) m1))))"

subsection \<open>Batches by language\<close>

record batch_request =
  bq_ids :: "int list"
  bq_remove_audio :: "string list"
  bq_keep_audio :: "string list"
  bq_remove_subs :: "string list"
  bq_all_subs :: bool
  bq_sidecars :: "string list"
  bq_all_sidecars :: bool
  bq_hardlink :: bool
  bq_dry_run :: bool

definition dec_batch :: "json \<Rightarrow> batch_request option" where
  "dec_batch j = Option.bind (dec_fields j) (\<lambda>kvs.
     Option.bind (dec_field ''file_ids'' (dec_list dec_int) kvs) (\<lambda>ids.
     Option.bind (dec_field ''remove_audio_langs'' (dec_list dec_str) kvs) (\<lambda>ra.
     Option.bind (dec_field ''keep_audio_langs'' (dec_list dec_str) kvs) (\<lambda>ka.
     Option.bind (dec_field ''remove_sub_langs'' (dec_list dec_str) kvs) (\<lambda>rs.
     Option.bind (dec_field ''remove_all_subs'' dec_bool kvs) (\<lambda>al.
     Option.bind (dec_field ''delete_sidecar_langs'' (dec_list dec_str) kvs) (\<lambda>ds.
     Option.bind (dec_field ''delete_all_sidecars'' dec_bool kvs) (\<lambda>da.
     Option.bind (dec_field ''allow_hardlink'' dec_bool kvs) (\<lambda>h.
     Option.bind (dec_field ''dry_run'' dec_bool kvs) (\<lambda>r.
     Some \<lparr>bq_ids = ids, bq_remove_audio = ra, bq_keep_audio = ka, bq_remove_subs = rs, bq_all_subs = al,
           bq_sidecars = ds, bq_all_sidecars = da, bq_hardlink = h, bq_dry_run = r\<rparr>))))))))))"

record batch_result =
  br_file :: int
  br_path :: path
  br_audio :: "int list"
  br_subs :: "int list"
  br_sidecars :: "int list"
  br_names :: "string list"
  br_notes :: "string list"
  br_jobs :: nat

definition match_lang :: "string \<Rightarrow> string list \<Rightarrow> bool" where
  "match_lang lang ls \<longleftrightarrow> list_ex (\<lambda>l. equal_fold l (if lang = '''' then ''und'' else lang)) ls"

definition audio_goes :: "batch_request \<Rightarrow> stream \<Rightarrow> bool" where
  "audio_goes q st =
     (if bq_keep_audio q \<noteq> [] then \<not> match_lang (st_lang st) (bq_keep_audio q)
      else if bq_remove_audio q \<noteq> [] then match_lang (st_lang st) (bq_remove_audio q)
      else False)"

definition resolve_batch :: "media_file \<Rightarrow> probe_result \<Rightarrow> batch_request \<Rightarrow> batch_result" where
  "resolve_batch f res q =
     (let audio = streams_of_type res ''audio'';
          out = map st_index (filter (audio_goes q) audio);
          every = length audio \<le> length out \<and> out \<noteq> [];
          scs = filter (\<lambda>sc. bq_all_sidecars q \<or> match_lang (sc_lang sc) (bq_sidecars q)) (mf_sidecars f) in
      \<lparr>br_file = mf_id f, br_path = mf_path f,
       br_audio = (if every then [] else out),
       br_subs = map st_index (filter (\<lambda>st. bq_all_subs q \<or> match_lang (st_lang st) (bq_remove_subs q)) (streams_of_type res ''subtitle'')),
       br_sidecars = map sc_id scs, br_names = map sc_name scs,
       br_notes = (if every then [''audio removal skipped: would remove every audio track''] else []),
       br_jobs = 0\<rparr>)"

definition batch_job :: "batch_request \<Rightarrow> batch_result \<Rightarrow> file_job_request" where
  "batch_job q plan =
     \<lparr>fj_expect = \<lparr>xp_size = None, xp_mtime = None\<rparr>, fj_audio = br_audio plan, fj_subs = br_subs plan,
      fj_sidecars = br_sidecars plan, fj_hardlink = bq_hardlink q, fj_last_audio = False, fj_dry_run = False\<rparr>"

definition batch_file :: "server \<Rightarrow> batch_request \<Rightarrow> int \<Rightarrow> machine \<Rightarrow> batch_result \<times> machine" where
  "batch_file sv q i m =
     (case load_detail sv i m of
        (Inr (Some (f, res)), m1) \<Rightarrow>
          let plan = resolve_batch f res q in
          if bq_dry_run q then (plan, m1)
          else (case enqueue_for_file sv f (batch_job q plan) m1 of
             ((js, err), m2) \<Rightarrow>
               let notes = (case err of
                     None \<Rightarrow> []
                   | Some e \<Rightarrow> if fst (safe_message 500 e) = ''nothing to do'' then [] else [fst (safe_message 500 e)]) in
               (plan\<lparr>br_notes := br_notes plan @ notes, br_jobs := length js\<rparr>, m2))
      | (_, m1) \<Rightarrow>
          (\<lparr>br_file = i, br_path = '''', br_audio = [], br_subs = [], br_sidecars = [], br_names = [],
            br_notes = [''file not found''], br_jobs = 0\<rparr>, m1))"

fun batch_files :: "server \<Rightarrow> batch_request \<Rightarrow> int list \<Rightarrow> machine \<Rightarrow> batch_result list \<times> machine" where
  "batch_files sv q [] m = ([], m)"
| "batch_files sv q (i # is) m =
     (case batch_file sv q i m of (r, m1) \<Rightarrow> case batch_files sv q is m1 of (rs, m2) \<Rightarrow> (r # rs, m2))"

definition handle_batch :: "server \<Rightarrow> body \<Rightarrow> (bool \<times> nat \<times> batch_result list) handler" where
  "handle_batch sv b =
     andthen (decode dec_batch b) (\<lambda>q.
     if bq_ids q = [] then reject 400 ''file_ids required''
     else if max_batch_file_ids < length (bq_ids q) then reject 400 ''file_ids exceeds the limit of 1000''
     else (\<lambda>m. case batch_files sv q (bq_ids q) m of
       (rs, m1) \<Rightarrow> reply 200 (bq_dry_run q, sum_list (map br_jobs rs), rs) (if bq_dry_run q then [] else [Wake]) m1))"

subsection \<open>The queue\<close>

definition handle_list_jobs :: "server \<Rightarrow> (string \<times> string) list \<Rightarrow> (nat \<times> job list) handler" where
  "handle_list_jobs sv q =
     andthen (db_call sv 500 (list_jobs (param ''status'' q) (fst (parse_int (param ''limit'' q))) (fst (parse_int (param ''offset'' q)))))
       (\<lambda>(js, total). reply 200 (total, js) [])"

text \<open>A running job of this process is flagged; a queued one is cancelled in the database.\<close>

definition cancel_queued_job :: "server \<Rightarrow> int \<Rightarrow> store \<Rightarrow> (api_err + unit) \<times> store" where
  "cancel_queued_job sv i s =
     (case get_job i s of
        (r, s1) \<Rightarrow>
          if (case r of Inr (Some j) \<Rightarrow> jb_status j = ''running'' | _ \<Rightarrow> False)
          then (Inl (ClientError ''job is running in another muxprune process; cancel it there''), s1)
          else (case cancel_job i s1 of
             (Inl e, s2) \<Rightarrow> (Inl (InternalError (et_store (sv_text sv) e)), s2)
           | (Inr _, s2) \<Rightarrow> (Inr (), s2)))"

definition handle_cancel_job :: "server \<Rightarrow> string \<Rightarrow> runner \<Rightarrow> ((nat \<times> api_err) + (nat \<times> string \<times> effect list)) \<times> runner" where
  "handle_cancel_job sv pid r =
     (case parse_int pid of
        (i, err) \<Rightarrow>
          if err \<noteq> None \<or> i \<le> 0 then (Inl (400, ClientError ''invalid id''), r)
          else case cancel_running i r of
            (True, r1) \<Rightarrow> (Inr (200, ''cancelling'', []), r1)
          | (False, r1) \<Rightarrow>
              (case cancel_queued_job sv i (ru_store r1) of
                 (Inl e, s) \<Rightarrow> (Inl (400, e), r1\<lparr>ru_store := s\<rparr>)
               | (Inr _, s) \<Rightarrow>
                   (Inr (200, ''cancelled'',
                      [Publish ''job'' (JObj [(''id'', JNum i), (''status'', JStr ''cancelled''), (''log'', JStr ''cancelled by user'')])]),
                    r1\<lparr>ru_store := s\<rparr>)))"

definition handle_retry_job :: "server \<Rightarrow> string \<Rightarrow> job option handler" where
  "handle_retry_job sv pid =
     andthen (path_id pid) (\<lambda>i.
     andthen (db_call sv 400 (retry_job i)) (\<lambda>j. reply 201 j [Wake]))"

definition handle_delete_job :: "server \<Rightarrow> string \<Rightarrow> string handler" where
  "handle_delete_job sv pid =
     andthen (path_id pid) (\<lambda>i.
     andthen (db_call sv 400 (delete_job i)) (\<lambda>_.
     reply 200 ''deleted'' [Publish ''job'' (JObj [(''id'', JNum i), (''action'', JStr ''deleted'')])]))"

end
