(* ===== verification/Mcp.thy ===== *)
theory Mcp
  imports FileHandlers
begin

text \<open>
  \<^verbatim>\<open>internal/api/mcp.go\<close>: the same operations for a language model's client, as tools of the Model
  Context Protocol, over standard input or over event-stream sessions. A message is kept as a value;
  the text of a result is its heading and the value that follows as JSON.
\<close>

subsection \<open>Results of tools\<close>

datatype tool_value =
    NoValue
  | Libraries "library list"
  | Files "media_file list"
  | FileDetail media_file "stream list" string
  | OneJob job
  | ManyJobs "job list"

datatype tool_reply = ToolResult string tool_value | ToolError string

type_synonym tool = "(machine, string, string \<times> tool_value \<times> effect list) op"

definition mcp_err_msg :: "api_err \<Rightarrow> string" where
  "mcp_err_msg e = (case e of ClientError msg \<Rightarrow> msg | _ \<Rightarrow> ''the operation failed; see server logs for details'')"

definition mcp_db :: "server \<Rightarrow> 'a store_op \<Rightarrow> (machine, string, 'a) op" where
  "mcp_db sv = on_store (\<lambda>e. mcp_err_msg (InternalError (et_store (sv_text sv) e)))"

definition tool_result :: "string \<Rightarrow> tool_value \<Rightarrow> effect list \<Rightarrow> tool" where
  "tool_result heading v effs = ret (heading, v, effs)"

text \<open>The arguments: absent is an error of \<^verbatim>\<open>Unmarshal\<close>.\<close>

definition dec_args :: "((string \<times> json) list \<Rightarrow> 'a option) \<Rightarrow> json option \<Rightarrow> 'a option" where
  "dec_args d args = Option.bind args (\<lambda>j. Option.bind (dec_fields j) d)"

text \<open>Where the error is dropped: what does not decode leaves the field as it was, null included.\<close>

definition lenient :: "(json \<Rightarrow> 'a option) \<Rightarrow> 'a \<Rightarrow> string \<Rightarrow> json option \<Rightarrow> 'a" where
  "lenient d zero k args =
     (case args of
        Some (JObj kvs) \<Rightarrow>
          fold (\<lambda>(k', j) acc. if equal_fold k k' \<and> j \<noteq> JNull then (case d j of Some a \<Rightarrow> a | None \<Rightarrow> acc) else acc) kvs zero
      | _ \<Rightarrow> zero)"

definition mcp_limit :: "int \<Rightarrow> int" where
  "mcp_limit n = (if n \<le> 0 then 50 else n)"

subsection \<open>Reading\<close>

definition mcp_list_libraries :: "server \<Rightarrow> tool" where
  "mcp_list_libraries sv = andthen (mcp_db sv list_libraries) (\<lambda>libs. tool_result '''' (Libraries libs) [])"

definition mcp_list_files :: "server \<Rightarrow> json option \<Rightarrow> tool" where
  "mcp_list_files sv args =
     andthen (mcp_db sv (list_files
       \<lparr>ff_library = lenient dec_int 0 ''library_id'' args, ff_query = lenient dec_str '''' ''q'' args,
        ff_kind = lenient dec_str '''' ''kind'' args, ff_limit = mcp_limit (lenient dec_int 0 ''limit'' args),
        ff_offset = lenient dec_int 0 ''offset'' args, ff_sort = lenient dec_str '''' ''sort'' args,
        ff_order = lenient dec_str '''' ''order'' args, ff_hardlinks = lenient dec_str '''' ''hardlinks'' args,
        ff_subs = lenient dec_str '''' ''subs'' args\<rparr>)) (\<lambda>(files, total). tool_result '''' (Files files) [])"

definition mcp_detail :: "server \<Rightarrow> int \<Rightarrow> (machine, string, media_file \<times> probe_result) op" where
  "mcp_detail sv i m =
     (case load_detail sv i m of
        (Inl e, m1) \<Rightarrow> (Inl (mcp_err_msg (InternalError e)), m1)
      | (Inr None, m1) \<Rightarrow> (Inl ''File not found'', m1)
      | (Inr (Some d), m1) \<Rightarrow> (Inr d, m1))"

definition id_arg :: "string \<Rightarrow> string \<Rightarrow> json option \<Rightarrow> (machine, string, int) op" where
  "id_arg k msg args =
     (case dec_args (dec_field k dec_int) args of
        Some i \<Rightarrow> if i = 0 then fail msg else ret i
      | None \<Rightarrow> fail msg)"

definition mcp_get_file :: "server \<Rightarrow> json option \<Rightarrow> tool" where
  "mcp_get_file sv args =
     andthen (id_arg ''id'' ''Invalid or missing file 'id' argument'' args) (\<lambda>i.
     andthen (mcp_detail sv i) (\<lambda>(f, res). tool_result '''' (FileDetail f (pr_streams res) (pr_format res)) []))"

definition mcp_get_job :: "server \<Rightarrow> json option \<Rightarrow> tool" where
  "mcp_get_job sv args =
     andthen (id_arg ''id'' ''Invalid or missing job 'id' argument'' args) (\<lambda>i.
     andthen (mcp_db sv (get_job i)) (\<lambda>j.
     case j of None \<Rightarrow> fail ''Job not found'' | Some j \<Rightarrow> tool_result '''' (OneJob j) []))"

definition mcp_list_jobs :: "server \<Rightarrow> json option \<Rightarrow> tool" where
  "mcp_list_jobs sv args =
     andthen (mcp_db sv (list_jobs (lenient dec_str '''' ''status'' args) (mcp_limit (lenient dec_int 0 ''limit'' args))
         (lenient dec_int 0 ''offset'' args)))
       (\<lambda>(js, total). tool_result '''' (ManyJobs js) [])"

subsection \<open>Queueing\<close>

definition mcp_fresh :: "server \<Rightarrow> int \<Rightarrow> expect_file \<Rightarrow> (machine, string, media_file \<times> probe_result) op" where
  "mcp_fresh sv i e =
     andthen (mcp_detail sv i) (\<lambda>(f, res). if file_changed e f then fail file_changed_msg else ret (f, res))"

definition mcp_queue :: "server \<Rightarrow> string \<Rightarrow> string \<Rightarrow> media_file \<Rightarrow> json \<Rightarrow> (job \<Rightarrow> tool_value) \<Rightarrow> tool" where
  "mcp_queue sv heading ty f payload v =
     andthen (mcp_db sv (create_job ty (mf_id f) (mf_path f) payload)) (\<lambda>j. tool_result heading (v j) [Wake])"

definition dec_strip :: "(string \<times> json) list \<Rightarrow> (int \<times> expect_file \<times> remux_payload) option" where
  "dec_strip kvs =
     Option.bind (dec_field ''file_id'' dec_int kvs) (\<lambda>i.
     Option.bind (dec_expect kvs) (\<lambda>e.
     Option.bind (dec_field ''audio_idx'' (dec_list dec_int) kvs) (\<lambda>a.
     Option.bind (dec_field ''sub_idx'' (dec_list dec_int) kvs) (\<lambda>s.
     Option.bind (dec_field ''allow_hardlink'' dec_bool kvs) (\<lambda>h.
     Some (i, e, \<lparr>rp_audio = a, rp_subs = s, rp_hardlink = h, rp_last_audio = False\<rparr>))))))"

definition strip_file :: "server \<Rightarrow> int \<Rightarrow> expect_file \<Rightarrow> remux_payload \<Rightarrow> tool" where
  "strip_file sv i e p =
     (if max_stream_indexes < length (rp_audio p) \<or> max_stream_indexes < length (rp_subs p)
      then fail ''audio_idx/sub_idx exceed the limit of 100 entries''
      else if rp_audio p = [] \<and> rp_subs p = [] then fail ''nothing to do''
      else andthen (mcp_fresh sv i e) (\<lambda>(f, res).
        mcp_queue sv ''Strip job queued:'' ''remux'' f (enc_remux p) (\<lambda>j. ManyJobs [j])))"

definition mcp_queue_strip :: "server \<Rightarrow> json option \<Rightarrow> tool" where
  "mcp_queue_strip sv args =
     (case dec_args dec_strip args of
        Some (i, e, p) \<Rightarrow> if i = 0 then fail ''Invalid or missing 'file_id' argument'' else strip_file sv i e p
      | None \<Rightarrow> fail ''Invalid or missing 'file_id' argument'')"

text \<open>The other requests for one file: the id, what is expected, and a payload of a job.\<close>

definition dec_for_file :: "(json \<Rightarrow> 'p option) \<Rightarrow> json option \<Rightarrow> (int \<times> expect_file \<times> 'p) option" where
  "dec_for_file d args = Option.bind args (\<lambda>j. Option.bind (dec_fields j) (\<lambda>kvs.
     Option.bind (dec_field ''file_id'' dec_int kvs) (\<lambda>i.
     Option.bind (dec_expect kvs) (\<lambda>e. Option.bind (d j) (\<lambda>p. Some (i, e, p))))))"

definition mcp_matroska :: "string \<Rightarrow> probe_result \<Rightarrow> (machine, string, unit) op" where
  "mcp_matroska what res = (if is_matroska res then ret () else fail (what @ '' requires a Matroska container''))"

definition edit_file :: "server \<Rightarrow> int \<Rightarrow> expect_file \<Rightarrow> edit_payload \<Rightarrow> tool" where
  "edit_file sv i e p =
     (if max_metadata_edits < length (ep_edits p) then fail ''edits exceeds the limit of 100''
      else andthen (mcp_fresh sv i e) (\<lambda>(f, res).
        andthen (mcp_matroska ''Metadata editing'' res) (\<lambda>_.
        mcp_queue sv ''Metadata edit job queued:'' ''edit_metadata'' f (enc_edits p) OneJob)))"

definition mcp_queue_metadata :: "server \<Rightarrow> json option \<Rightarrow> tool" where
  "mcp_queue_metadata sv args =
     (case dec_for_file dec_edits args of
        Some (i, e, p) \<Rightarrow>
          if i = 0 \<or> ep_edits p = [] then fail ''Invalid arguments; edits list and file_id required'' else edit_file sv i e p
      | None \<Rightarrow> fail ''Invalid arguments; edits list and file_id required'')"

definition reorder_file :: "server \<Rightarrow> int \<Rightarrow> expect_file \<Rightarrow> reorder_payload \<Rightarrow> tool" where
  "reorder_file sv i e p =
     (if max_track_order < length (op_order p) then fail ''track_order exceeds the limit of 1000 entries''
      else andthen (mcp_fresh sv i e) (\<lambda>(f, res).
        andthen (mcp_matroska ''Track reordering'' res) (\<lambda>_.
        case order_check (pr_streams res) (op_order p) of
          Some msg \<Rightarrow> fail msg
        | None \<Rightarrow> mcp_queue sv ''Track reordering job queued:'' ''reorder_tracks'' f (enc_reorder p) OneJob)))"

definition mcp_queue_reorder :: "server \<Rightarrow> json option \<Rightarrow> tool" where
  "mcp_queue_reorder sv args =
     (case dec_for_file dec_reorder args of
        Some (i, e, p) \<Rightarrow>
          if i = 0 \<or> op_order p = [] then fail ''Invalid arguments; track_order list and file_id required'' else reorder_file sv i e p
      | None \<Rightarrow> fail ''Invalid arguments; track_order list and file_id required'')"

definition merge_file :: "server \<Rightarrow> int \<Rightarrow> expect_file \<Rightarrow> merge_payload \<Rightarrow> tool" where
  "merge_file sv i e p =
     (if max_external_files < length (mp_files p) then fail ''external_files exceeds the limit of 100''
      else andthen (mcp_fresh sv i e) (\<lambda>(f, res).
        andthen (mcp_matroska ''Track merging'' res) (\<lambda>_ m.
        case check_external sv (mf_path f) (mp_files p) m of
          (Inl e, m1) \<Rightarrow> fail (mcp_err_msg e) m1
        | (Inr _, m1) \<Rightarrow> mcp_queue sv ''Track merge job queued:'' ''merge_tracks'' f (enc_merge p) OneJob m1)))"

definition mcp_queue_merge :: "server \<Rightarrow> json option \<Rightarrow> tool" where
  "mcp_queue_merge sv args =
     (case dec_for_file dec_merge args of
        Some (i, e, p) \<Rightarrow>
          if i = 0 \<or> mp_files p = [] then fail ''Invalid arguments; external_files list and file_id required'' else merge_file sv i e p
      | None \<Rightarrow> fail ''Invalid arguments; external_files list and file_id required'')"

definition mcp_queue_scan :: "server \<Rightarrow> json option \<Rightarrow> tool" where
  "mcp_queue_scan sv args =
     andthen (id_arg ''library_id'' ''Invalid or missing 'library_id' argument'' args) (\<lambda>i.
     andthen (mcp_db sv (get_library i)) (\<lambda>l.
     case l of
       None \<Rightarrow> fail ''Library not found''
     | Some lib \<Rightarrow>
         andthen (mcp_db sv (is_scan_active (lb_id lib))) (\<lambda>active.
         if active then fail ''Scan already running or queued for this library''
         else andthen (mcp_db sv (create_job ''scan_library'' 0 (lb_path lib) (enc_scan (lb_id lib)))) (\<lambda>j.
           tool_result ''Scan job queued:'' (OneJob j) [Wake]))))"

definition mcp_queue_scan_all :: "server \<Rightarrow> tool" where
  "mcp_queue_scan_all sv =
     andthen (mcp_db sv is_scan_all_active) (\<lambda>active.
     if active then fail ''Scan all already queued or running''
     else andthen (mcp_db sv (create_job ''scan_all'' 0 ''all libraries'' (JObj []))) (\<lambda>j.
       tool_result ''Scan all job queued:'' (OneJob j) [Wake]))"

definition mcp_delete_job :: "server \<Rightarrow> json option \<Rightarrow> tool" where
  "mcp_delete_job sv args =
     andthen (id_arg ''id'' ''Invalid or missing job 'id' argument'' args) (\<lambda>i.
     andthen (mcp_db sv (delete_job i)) (\<lambda>_.
     tool_result (''Job '' @ itoa i @ '' deleted'') NoValue [Publish ''job'' (JObj [(''id'', JNum i), (''action'', JStr ''deleted'')])]))"

text \<open>Cancelling is also about the runner of this process; both see the same database.\<close>

type_synonym service = "machine \<times> runner"

definition mcp_cancel_job :: "server \<Rightarrow> json option \<Rightarrow> service \<Rightarrow> (string + (string \<times> tool_value \<times> effect list)) \<times> service" where
  "mcp_cancel_job sv args s =
     (case s of (m, r) \<Rightarrow>
      case id_arg ''id'' ''Invalid or missing job 'id' argument'' args m of
        (Inl msg, _) \<Rightarrow> (Inl msg, s)
      | (Inr i, _) \<Rightarrow>
          (case cancel_running i r of
             (True, r1) \<Rightarrow> (Inr (''Job '' @ itoa i @ '' cancelling'', NoValue, []), (m, r1))
           | (False, r1) \<Rightarrow>
               (case cancel_queued_job sv i (m_store m) of
                  (Inl e, st) \<Rightarrow> (Inl (mcp_err_msg e), (m\<lparr>m_store := st\<rparr>, r1))
                | (Inr _, st) \<Rightarrow>
                    (Inr (''Job '' @ itoa i @ '' cancelled'', NoValue,
                       [Publish ''job'' (JObj [(''id'', JNum i), (''status'', JStr ''cancelled''), (''log'', JStr ''cancelled by user'')])]),
                     (m\<lparr>m_store := st\<rparr>, r1)))))"

definition on_machine :: "tool \<Rightarrow> service \<Rightarrow> (string + (string \<times> tool_value \<times> effect list)) \<times> service" where
  "on_machine f s = (case f (fst s) of (r, m) \<Rightarrow> (r, (m, snd s)))"

definition call_tool :: "server \<Rightarrow> string \<Rightarrow> json option \<Rightarrow> service \<Rightarrow> (string + (string \<times> tool_value \<times> effect list)) \<times> service" where
  "call_tool sv name args =
     (if name = ''list_libraries'' then on_machine (mcp_list_libraries sv)
      else if name = ''list_files'' then on_machine (mcp_list_files sv args)
      else if name = ''get_file'' then on_machine (mcp_get_file sv args)
      else if name = ''queue_strip_job'' then on_machine (mcp_queue_strip sv args)
      else if name = ''queue_metadata_job'' then on_machine (mcp_queue_metadata sv args)
      else if name = ''queue_reorder_job'' then on_machine (mcp_queue_reorder sv args)
      else if name = ''queue_merge_job'' then on_machine (mcp_queue_merge sv args)
      else if name = ''get_job'' then on_machine (mcp_get_job sv args)
      else if name = ''cancel_job'' then mcp_cancel_job sv args
      else if name = ''delete_job'' then on_machine (mcp_delete_job sv args)
      else if name = ''list_jobs'' then on_machine (mcp_list_jobs sv args)
      else if name = ''queue_scan_job'' then on_machine (mcp_queue_scan sv args)
      else if name = ''queue_scan_all_job'' then on_machine (mcp_queue_scan_all sv)
      else on_machine (fail (''Unknown tool: '' @ name)))"

subsection \<open>The protocol\<close>

record rpc_request =
  rq_id :: "json option"
  rq_method :: string
  rq_params :: "json option"

text \<open>A null id is no id; null parameters are parameters.\<close>

definition dec_rpc :: "json \<Rightarrow> rpc_request option" where
  "dec_rpc j = Option.bind (dec_fields j) (\<lambda>kvs.
     Option.bind (dec_field ''jsonrpc'' dec_str kvs) (\<lambda>_.
     Option.bind (dec_field ''method'' dec_str kvs) (\<lambda>me.
     Some \<lparr>rq_id = (case json_field ''id'' kvs of Some JNull \<Rightarrow> None | x \<Rightarrow> x), rq_method = me,
           rq_params = json_field ''params'' kvs\<rparr>)))"

definition dec_call :: "json option \<Rightarrow> (string \<times> json option) option" where
  "dec_call = dec_args (\<lambda>kvs. Option.bind (dec_field ''name'' dec_str kvs) (\<lambda>n. Some (n, json_field ''arguments'' kvs)))"

text \<open>The tools as \<^verbatim>\<open>tools/list\<close> describes them, each with the schema of its arguments.\<close>

definition arg :: "string \<Rightarrow> string \<Rightarrow> string \<Rightarrow> string \<times> json" where
  "arg k ty about = (k, JObj [(''type'', JStr ty), (''description'', JStr about)])"

definition list_arg :: "string \<Rightarrow> string \<Rightarrow> string \<Rightarrow> string \<times> json" where
  "list_arg k ty about =
     (k, JObj [(''type'', JStr ''array''), (''items'', JObj [(''type'', JStr ty)]), (''description'', JStr about)])"

definition object_schema :: "(string \<times> json) list \<Rightarrow> string list \<Rightarrow> json" where
  "object_schema props required =
     JObj ([(''type'', JStr ''object''), (''properties'', JObj props)] @
           (if required = [] then [] else [(''required'', JArr (map JStr required))]))"

definition mcp_tool :: "string \<Rightarrow> string \<Rightarrow> json \<Rightarrow> json" where
  "mcp_tool name about schema = JObj [(''name'', JStr name), (''description'', JStr about), (''inputSchema'', schema)]"

definition file_tools :: "json list" where
  "file_tools =
    [mcp_tool ''list_libraries''
       ''List all configured media libraries.''
       (object_schema []
       []),
     mcp_tool ''list_files''
       ''List or search media files in libraries.''
       (object_schema [arg ''library_id'' ''integer'' ''Filter by library ID'',
        arg ''q'' ''string'' ''Search query for title or path'',
        arg ''kind'' ''string'' ''Filter by kind (tv, movie, other)'',
        arg ''hardlinks'' ''string'' ''Filter by hardlinks (yes, no)'',
        arg ''subs'' ''string'' ''Filter by subtitles (any, none, embedded, none_embedded, sidecar, none_sidecar)'',
        arg ''sort'' ''string'' ''Sort: title, size, mtime, nlink, scanned_at'',
        arg ''order'' ''string'' ''Sort order: asc, desc'',
        arg ''limit'' ''integer'' ''Maximum results (default 50)'',
        arg ''offset'' ''integer'' ''Pagination offset (default 0)'']
       []),
     mcp_tool ''get_file''
       ''Get detailed stream layout and sidecars of a media file.''
       (object_schema [arg ''id'' ''integer'' ''The file ID'']
       [''id'']),
     mcp_tool ''queue_strip_job''
       ''Queue a job to strip unwanted audio/subtitle tracks from a file.''
       (object_schema [arg ''file_id'' ''integer'' ''The file ID'',
        list_arg ''audio_idx'' ''integer'' ''Stream indexes of audio tracks to remove'',
        list_arg ''sub_idx'' ''integer'' ''Stream indexes of subtitle tracks to remove'',
        arg ''expect_mtime'' ''integer'' ''mtime from get_file; the job is refused if the file changed since'',
        arg ''expect_size'' ''integer'' ''size from get_file; the job is refused if the file changed since'',
        arg ''allow_hardlink'' ''boolean'' ''Allow remuxing even if file is hardlinked (breaks seed links)'']
       [''file_id'']),
     mcp_tool ''queue_metadata_job''
       ''Queue a job to edit metadata headers in-place (language, title, default/forced flags).''
       (object_schema [arg ''file_id'' ''integer'' ''The file ID'',
        (''edits'', JObj [(''type'', JStr ''array''),
       (''items'', (object_schema [arg ''track_index'' ''integer'' ''The ffprobe stream index'',
           arg ''language'' ''string'' ''ISO 639-2 language tag (e.g. eng, jpn)'',
           arg ''title'' ''string'' ''Track title/name; an empty string clears it, omit to leave unchanged'',
           arg ''default'' ''boolean'' ''Set flag-default (true/false)'',
           arg ''forced'' ''boolean'' ''Set flag-forced (true/false)'']
          [''track_index''])),
       (''description'', JStr ''Array of metadata edits to apply'')]),
        arg ''expect_mtime'' ''integer'' ''mtime from get_file; the job is refused if the file changed since'',
        arg ''expect_size'' ''integer'' ''size from get_file; the job is refused if the file changed since'',
        arg ''allow_hardlink'' ''boolean'' ''Allow editing even if file is hardlinked (the edit also changes every linked copy)'']
       [''file_id'', ''edits'']),
     mcp_tool ''queue_reorder_job''
       ''Queue a job to reorder tracks in a Matroska container.''
       (object_schema [arg ''file_id'' ''integer'' ''The file ID'',
        list_arg ''track_order'' ''integer'' ''Desired track order of ffprobe stream indexes'',
        arg ''expect_mtime'' ''integer'' ''mtime from get_file; the job is refused if the file changed since'',
        arg ''expect_size'' ''integer'' ''size from get_file; the job is refused if the file changed since'',
        arg ''allow_hardlink'' ''boolean'' ''Allow remuxing even if file is hardlinked (breaks seed links)'']
       [''file_id'', ''track_order'']),
     mcp_tool ''queue_merge_job''
       ''Queue a job to merge external subtitle/audio files into a Matroska container.''
       (object_schema [arg ''file_id'' ''integer'' ''The file ID'',
        list_arg ''external_files'' ''string'' ''Absolute paths on server of external files to merge'',
        arg ''expect_mtime'' ''integer'' ''mtime from get_file; the job is refused if the file changed since'',
        arg ''expect_size'' ''integer'' ''size from get_file; the job is refused if the file changed since'',
        arg ''allow_hardlink'' ''boolean'' ''Allow remuxing even if file is hardlinked (breaks seed links)'']
       [''file_id'', ''external_files''])]"

definition job_tools :: "json list" where
  "job_tools =
    [mcp_tool ''get_job''
       ''Get status, log, and saved space of a specific job.''
       (object_schema [arg ''id'' ''integer'' ''The job ID'']
       [''id'']),
     mcp_tool ''cancel_job''
       ''Cancel a queued background job.''
       (object_schema [arg ''id'' ''integer'' ''The job ID to cancel'']
       [''id'']),
     mcp_tool ''delete_job''
       ''Delete a finished, failed, or skipped job from history.''
       (object_schema [arg ''id'' ''integer'' ''The job ID to delete'']
       [''id'']),
     mcp_tool ''list_jobs''
       ''List or search background jobs.''
       (object_schema [arg ''status'' ''string'' ''Filter by status (queued, running, done, failed, skipped)'',
        arg ''limit'' ''integer'' ''Maximum results (default 50)'',
        arg ''offset'' ''integer'' ''Pagination offset (default 0)'']
       []),
     mcp_tool ''queue_scan_job''
       ''Queue a job to scan a specific media library.''
       (object_schema [arg ''library_id'' ''integer'' ''The library ID to scan'']
       [''library_id'']),
     mcp_tool ''queue_scan_all_job''
       ''Queue a job to scan all configured media libraries.''
       (object_schema []
       [])]"

definition tools :: "json list" where
  "tools = file_tools @ job_tools"

datatype rpc_result = Welcome string string | Empty | ToolList "json list" | Called tool_reply

datatype rpc_message = RpcResult "json option" rpc_result | RpcError "json option" int string

definition reply_of :: "(string + (string \<times> tool_value \<times> effect list)) \<Rightarrow> tool_reply" where
  "reply_of r = (case r of Inl msg \<Rightarrow> ToolError msg | Inr (heading, v, _) \<Rightarrow> ToolResult heading v)"

definition effects_of :: "(string + (string \<times> tool_value \<times> effect list)) \<Rightarrow> effect list" where
  "effects_of r = (case r of Inl _ \<Rightarrow> [] | Inr (_, _, effs) \<Rightarrow> effs)"

definition handle_mcp_request :: "server \<Rightarrow> string \<Rightarrow> rpc_request \<Rightarrow> service \<Rightarrow> rpc_message list \<times> effect list \<times> service" where
  "handle_mcp_request sv version q s =
     (if rq_method q = ''initialize'' then ([RpcResult (rq_id q) (Welcome ''2024-11-05'' version)], [], s)
      else if rq_method q = ''notifications/initialized'' \<or> rq_method q = ''initialized'' then ([], [], s)
      else if rq_method q = ''ping'' then ([RpcResult (rq_id q) Empty], [], s)
      else if rq_method q = ''tools/list'' then ([RpcResult (rq_id q) (ToolList tools)], [], s)
      else if rq_method q = ''tools/call'' then
        (case dec_call (rq_params q) of
           None \<Rightarrow> ([RpcError (rq_id q) (- 32602) ''Invalid params''], [], s)
         | Some (name, args) \<Rightarrow>
             (case call_tool sv name args s of (r, s1) \<Rightarrow> ([RpcResult (rq_id q) (Called (reply_of r))], effects_of r, s1)))
      else if rq_id q = None then ([], [], s)
      else ([RpcError (rq_id q) (- 32601) (''Method not found: '' @ rq_method q)], [], s))"

text \<open>A line or a posted body: what is not a request is answered without an id.\<close>

definition mcp_input :: "server \<Rightarrow> string \<Rightarrow> body \<Rightarrow> service \<Rightarrow> rpc_message list \<times> effect list \<times> service" where
  "mcp_input sv version b s =
     (case (case b of Json j \<Rightarrow> dec_rpc j | _ \<Rightarrow> None) of
        None \<Rightarrow> ([RpcError None (- 32700) ''Parse error''], [], s)
      | Some q \<Rightarrow> if rq_method q = '''' then ([], [], s) else handle_mcp_request sv version q s)"

text \<open>Standard input: line after line until its end or the end of the context.\<close>

fun serve_mcp :: "server \<Rightarrow> string \<Rightarrow> body list \<Rightarrow> service \<Rightarrow> rpc_message list \<times> effect list \<times> service" where
  "serve_mcp sv version [] s = ([], [], s)"
| "serve_mcp sv version (l # ls) s =
     (case mcp_input sv version l s of (out, effs, s1) \<Rightarrow>
      case serve_mcp sv version ls s1 of (out', effs', s2) \<Rightarrow> (out @ out', effs @ effs', s2))"

subsection \<open>Sessions\<close>

text \<open>A session is a channel of 100 messages; a message for a full one is dropped.\<close>

type_synonym mcp_sessions = "string \<Rightarrow> rpc_message list option"

definition session_size :: nat where "session_size = 100"

definition open_session :: "string \<Rightarrow> mcp_sessions \<Rightarrow> mcp_sessions" where
  "open_session sid ss = ss(sid \<mapsto> [])"

definition close_session :: "string \<Rightarrow> mcp_sessions \<Rightarrow> mcp_sessions" where
  "close_session sid ss = ss(sid := None)"

definition push_message :: "rpc_message \<Rightarrow> rpc_message list \<Rightarrow> rpc_message list" where
  "push_message msg q = (if length q < session_size then q @ [msg] else q)"

definition send_session :: "string \<Rightarrow> rpc_message list \<Rightarrow> mcp_sessions \<Rightarrow> mcp_sessions" where
  "send_session sid msgs ss = ss(sid := map_option (fold push_message msgs) (ss sid))"

definition next_message :: "string \<Rightarrow> mcp_sessions \<Rightarrow> rpc_message option \<times> mcp_sessions" where
  "next_message sid ss =
     (case ss sid of Some (msg # q) \<Rightarrow> (Some msg, ss(sid \<mapsto> q)) | _ \<Rightarrow> (None, ss))"

text \<open>
  A posted message: its status, the channel after an answer given at once, and the request that a
  goroutine of its own will serve.
\<close>

definition handle_mcp_message :: "string \<Rightarrow> body \<Rightarrow> mcp_sessions \<Rightarrow> nat \<times> rpc_request option \<times> mcp_sessions" where
  "handle_mcp_message sid b ss =
     (if sid = '''' then (400, None, ss)
      else if ss sid = None then (404, None, ss)
      else case b of
        TooLarge \<Rightarrow> (400, None, ss)
      | _ \<Rightarrow>
          (case (case b of Json j \<Rightarrow> dec_rpc j | _ \<Rightarrow> None) of
             None \<Rightarrow> (200, None, send_session sid [RpcError None (- 32700) ''Parse error''] ss)
           | Some q \<Rightarrow> (200, if rq_method q = '''' then None else Some q, ss)))"

definition serve_session ::
  "server \<Rightarrow> string \<Rightarrow> string \<Rightarrow> rpc_request \<Rightarrow> service \<times> mcp_sessions \<Rightarrow> effect list \<times> service \<times> mcp_sessions" where
  "serve_session sv version sid q st =
     (case handle_mcp_request sv version q (fst st) of
        (out, effs, s) \<Rightarrow> (effs, s, send_session sid out (snd st)))"

end
