(* ===== verification/HandlerProps.thy ===== *)
theory HandlerProps
  imports FileHandlers PlanProps StoreTrace Demo
begin

text \<open>
  The properties of the handlers: what a refused request leaves, what the folder picker shows, and that
  the plans and orders that the API accepts are those the engine accepts.
\<close>

subsection \<open>Refused requests\<close>

definition same_db :: "machine \<Rightarrow> machine \<Rightarrow> bool" where
  "same_db m m' \<longleftrightarrow> s_db (m_store m') = s_db (m_store m)"

definition same_rows :: "store \<Rightarrow> store \<Rightarrow> bool" where
  "same_rows s s' \<longleftrightarrow> s_db s' = s_db s"

interpretation sd: frame same_db
  by unfold_locales (auto simp: same_db_def)

interpretation sw: frame same_rows
  by unfold_locales (auto simp: same_rows_def)

lemma reads_query: "keeps same_rows (query f)"
  by (rule keepsI) (auto simp: same_rows_def query_def sql_def sql_fault_def split: list.splits if_splits)

lemma reads_intros:
  "keeps same_rows (get_library i)" "keeps same_rows list_libraries" "keeps same_rows (get_file i)"
  "keeps same_rows (get_sidecar i)" "keeps same_rows (get_job i)" "keeps same_rows (scan_in_status i sts)"
  "keeps same_rows (is_scan_active i)" "keeps same_rows (is_scan_queued i)" "keeps same_rows is_scan_all_active"
  by (auto simp: get_library_def list_libraries_def get_file_def get_sidecar_def get_job_def scan_in_status_def
      is_scan_active_def is_scan_queued_def is_scan_all_active_def
      intro!: sw.keeps_intros reads_query split: option.splits)

lemma reads_on_store: "keeps same_rows f \<Longrightarrow> keeps same_db (on_store err f)"
  by (rule keepsI) (auto simp: on_store_def same_db_def same_rows_def dest: keepsD split: prod.splits sum.splits)

lemma reads_db_call: "keeps same_rows f \<Longrightarrow> keeps same_db (db_call sv code f)"
  unfolding db_call_def by (rule reads_on_store)

lemma reads_world: "keeps same_db (on_world f)" "keeps same_db (world_call f)"
  by (auto intro!: keepsI simp: world_call_def same_db_def on_world_def split: prod.splits)

text \<open>A request that a handler refuses by a message of its own has changed nothing in the database.\<close>

definition refuses :: "(machine, nat \<times> api_err, 'a) op \<Rightarrow> bool" where
  "refuses f \<longleftrightarrow> (\<forall>m code msg m'. f m = (Inl (code, ClientError msg), m') \<longrightarrow> same_db m m')"

definition never_refuses :: "(machine, nat \<times> api_err, 'a) op \<Rightarrow> bool" where
  "never_refuses f \<longleftrightarrow> (\<forall>m code msg m'. f m \<noteq> (Inl (code, ClientError msg), m'))"

lemma refuses_keeps: "keeps same_db f \<Longrightarrow> refuses f"
  by (auto simp: refuses_def dest: keepsD)

lemma refuses_never: "never_refuses f \<Longrightarrow> refuses f"
  by (simp add: refuses_def never_refuses_def)

lemma refusesD: "refuses f \<Longrightarrow> f m = (Inl (code, ClientError msg), m') \<Longrightarrow> same_db m m'"
  by (simp add: refuses_def)

lemma refuses_andthen:
  assumes "keeps same_db f" "\<And>a. refuses (g a)"
  shows "refuses (andthen f g)"
  unfolding refuses_def
proof (intro allI impI)
  fix m code msg m'
  assume "andthen f g m = (Inl (code, ClientError msg), m')"
  then show "same_db m m'"
  proof (rule andthen_InlE)
    fix a m1 assume "f m = (Inr a, m1)" "g a m1 = (Inl (code, ClientError msg), m')"
    then show ?thesis by (blast intro: sd.frame_trans keepsD [OF assms(1)] refusesD [OF assms(2)])
  qed (rule keepsD [OF assms(1)])
qed

lemma never_db_call: "never_refuses (db_call sv code f)"
  by (auto simp: never_refuses_def db_call_def on_store_def split: prod.splits sum.splits)

lemma never_andthen: "never_refuses f \<Longrightarrow> (\<And>a. never_refuses (g a)) \<Longrightarrow> never_refuses (andthen f g)"
  unfolding never_refuses_def by (blast elim: andthen_InlE)

lemma never_reply: "never_refuses (reply code a effs)"
  by (simp add: never_refuses_def reply_def ret_def)

lemma reads_reject: "keeps same_db (reject code msg)"
  unfolding reject_def by (rule sd.keeps_fail)

lemma reads_path_id: "keeps same_db (path_id s)"
  by (auto simp: path_id_def intro!: sd.keeps_intros reads_reject split: prod.splits option.splits)

lemma reads_decode: "keeps same_db (decode d b)"
  by (auto simp: decode_def intro!: sd.keeps_intros split: body.splits option.splits)

lemma reads_library_path: "keeps same_db (library_path_allowed sv p)"
  by (rule keepsI) (auto simp: library_path_allowed_def same_db_def split: prod.splits if_splits)

lemma keeps_lift: "keeps R f \<Longrightarrow> keeps R (\<lambda>m. case f m of (a, m') \<Rightarrow> (Inr (g a), m'))"
  by (rule keepsI) (auto dest: keepsD split: prod.splits)

lemma reads_allowed_library: "keeps same_db (allowed_library sv b)"
  unfolding allowed_library_def decode_library_req_def Let_def
  by (intro sd.keeps_andthen reads_decode)
     (auto intro!: sd.keeps_intros reads_world reads_reject keeps_lift [where g = id, simplified] reads_library_path split: option.splits)

lemma refuses_intros:
  "refuses (reject code msg)" "refuses (reply code a effs)" "refuses (db_call sv code f)"
  by (auto intro: refuses_keeps reads_reject refuses_never never_reply never_db_call)

lemma refuses_last: "never_refuses f \<Longrightarrow> (\<And>a. never_refuses (g a)) \<Longrightarrow> refuses (andthen f g)"
  by (intro refuses_never never_andthen)

lemma refuses_queue_one: "refuses (queue_one sv ty f payload)"
  unfolding queue_one_def by (intro refuses_last never_db_call never_reply)

lemma reads_load_detail: "keeps same_db (load_detail sv i)"
proof (rule keepsI)
  fix m r m' assume "load_detail sv i m = (r, m')"
  then obtain x where "on_store id (get_file i) m = (x, m')"
    by (auto simp: load_detail_def split: prod.splits sum.splits option.splits if_splits)
  then show "same_db m m'" by (rule keepsD [OF reads_on_store, rotated]) (rule reads_intros)
qed

lemma reads_detail: "keeps same_db (detail sv i)"
proof (rule keepsI)
  fix m r m' assume "detail sv i m = (r, m')"
  then obtain x where "load_detail sv i m = (x, m')"
    by (auto simp: detail_def fail_def reject_def ret_def split: prod.splits sum.splits option.splits)
  with keepsD [OF reads_load_detail] show "same_db m m'" by blast
qed

lemma reads_fresh_detail: "keeps same_db (fresh_detail sv i e)"
  unfolding fresh_detail_def
  by (intro sd.keeps_andthen reads_detail) (auto intro!: sd.keeps_intros reads_reject split: prod.splits)

lemma reads_only_matroska: "keeps same_db (only_matroska what res)"
  by (auto simp: only_matroska_def intro: sd.keeps_ret reads_reject)

lemma reads_own_rows: "keeps same_db (own_rows sv fid is acc)"
  by (induction sv fid "is" acc rule: own_rows.induct)
     (auto intro!: sd.keeps_intros reads_on_store reads_intros split: option.splits)

lemma reads_check_external: "keeps same_db (check_external sv p files)"
  by (rule keepsI) (auto simp: check_external_def same_db_def split: prod.splits sum.splits)

lemma queue_sidecars_error: "queue_sidecars sv f scs js m \<noteq> ((js', Some (ClientError msg)), m')"
  by (induction sv f scs js m rule: queue_sidecars.induct) (auto split: prod.splits sum.splits)

lemma enqueue_refused:
  assumes "enqueue_for_file sv f q m = ((js, Some (ClientError msg)), m')"
  shows "same_db m m'"
  using assms keepsD [OF reads_own_rows, of sv "mf_id f" "fj_sidecars q" "[]" m] queue_sidecars_error
  by (auto simp: enqueue_for_file_def split: prod.splits sum.splits if_splits)

lemma reads_hardlink_policy: "hardlink_policy_proceeds i s = (b, s') \<Longrightarrow> same_rows s s'"
  using keepsD [OF reads_query]
  by (fastforce simp: hardlink_policy_proceeds_def split: prod.splits sum.splits option.splits)

lemma reads_preview_remux: "keeps same_db (preview_remux sv f q)"
proof (rule keepsI)
  fix m r m' assume p: "preview_remux sv f q m = (r, m')"
  show "same_db m m'"
  proof (cases "wants_remux q")
    case False
    with p show ?thesis by (simp add: preview_remux_def ret_def same_db_def)
  next
    case True
    obtain ok m1 where a: "(if fj_hardlink q then (True, m)
        else case hardlink_policy_proceeds (mf_id f) (m_store m) of (b, s) \<Rightarrow> (b, m\<lparr>m_store := s\<rparr>)) = (ok, m1)" by fastforce
    have "same_db m m1"
      using a reads_hardlink_policy by (auto simp: same_db_def same_rows_def split: if_splits prod.splits)
    moreover have "same_db m1 m'"
      using p True a by (auto simp: preview_remux_def reject_def fail_def ret_def same_db_def split: prod.splits sum.splits)
    ultimately show ?thesis by (rule sd.frame_trans)
  qed
qed

lemma reads_preview_sidecars: "preview_sidecars fid is acc m = (ps, m') \<Longrightarrow> same_db m m'"
proof (induction fid "is" acc m arbitrary: ps rule: preview_sidecars.induct)
  case (2 fid i "is" acc m)
  obtain r m1 where g: "on_store id (get_sidecar i) m = (r, m1)" by fastforce
  have "same_db m m1" by (rule keepsD [OF reads_on_store g]) (rule reads_intros)
  moreover have "same_db m1 m'" using 2 g by (auto split: sum.splits option.splits)
  ultimately show ?case by (rule sd.frame_trans)
qed (simp add: same_db_def)

lemma handle_file_jobs_refuses: "refuses (handle_file_jobs sv pid b)"
proof -
  have enq: "refuses (\<lambda>m. case enqueue_for_file sv f q m of ((_, Some e), m1) \<Rightarrow> fail (400, e) m1
         | ((js, None), m1) \<Rightarrow> reply 201 (Queued js) [Wake] m1)" for f q
    by (auto simp: refuses_def fail_def reply_def ret_def split: prod.splits option.splits intro: enqueue_refused)
  have prev: "refuses (\<lambda>m. case preview_sidecars i is [] m of (ps, m1) \<Rightarrow> reply 200 (Preview r ps) [] m1)" for i "is" r
    by (auto simp: refuses_def reply_def ret_def split: prod.splits)
  show ?thesis
    unfolding handle_file_jobs_def
    by (intro refuses_andthen reads_path_id reads_decode)
       (auto intro!: refuses_andthen refuses_intros reads_fresh_detail reads_preview_remux enq prev split: prod.splits)
qed

lemma handle_merge_refuses: "refuses (handle_merge_tracks sv pid b)"
proof -
  have m: "refuses (\<lambda>m. case check_external sv p files m of (Inl e, m1) \<Rightarrow> fail (400, e) m1
       | (Inr _, m1) \<Rightarrow> queue_one sv ty f payload m1)" for p files ty f payload
    unfolding refuses_def
    by (auto simp: fail_def split: prod.splits sum.splits intro: sd.frame_trans
        dest!: keepsD [OF reads_check_external] refusesD [OF refuses_queue_one])
  show ?thesis
    unfolding handle_merge_tracks_def
    by (intro refuses_andthen reads_path_id reads_decode)
       (auto intro!: refuses_andthen refuses_intros reads_fresh_detail reads_only_matroska m split: prod.splits)
qed

lemma handle_one_refuses: "refuses (handle_edit_metadata sv pid b)" "refuses (handle_reorder_tracks sv pid b)"
  unfolding handle_edit_metadata_def handle_reorder_tracks_def
  by (intro refuses_andthen reads_path_id reads_decode;
      auto intro!: refuses_andthen refuses_intros reads_fresh_detail reads_only_matroska refuses_queue_one
        split: prod.splits option.splits)+

lemma handle_batch_refuses: "refuses (handle_batch sv b)"
proof -
  have "refuses (\<lambda>m. case batch_files sv q ids m of (rs, m1) \<Rightarrow> reply 200 (h rs) e m1)" for q ids h e
    by (auto simp: refuses_def reply_def ret_def split: prod.splits)
  then show ?thesis
    unfolding handle_batch_def by (intro refuses_andthen reads_decode) (auto intro: refuses_intros)
qed

lemma handle_libraries_refuse:
  "refuses (handle_add_library sv b)" "refuses (handle_update_library sv pid b)" "refuses (handle_delete_library sv pid)"
proof -
  have moved: "never_refuses (\<lambda>m. if c then (case rescan_moved l m of (e, m') \<Rightarrow> (Inr e, m')) else (Inr [], m))" for c l
    by (auto simp: never_refuses_def split: prod.splits)
  have upd: "refuses (andthen (db_call sv 400 (update_library l)) (\<lambda>_.
      andthen (\<lambda>m. if lb_path l \<noteq> lb_path old then (case rescan_moved l m of (e, m') \<Rightarrow> (Inr e, m')) else (Inr [], m)) (\<lambda>effs.
      reply 200 (library_view sv l) (effs @ [Reconcile]))))" for l old
    by (intro refuses_last never_db_call never_andthen moved never_reply)
  have sure: "refuses (case x of None \<Rightarrow> reject 404 msg | Some old \<Rightarrow> andthen (allowed_library sv b) (\<lambda>q. h old q))"
    if "\<And>old q. refuses (h old q)" for x msg and h :: "_ \<Rightarrow> _ \<Rightarrow> library_view handler"
    using that by (auto intro!: refuses_andthen reads_allowed_library refuses_intros split: option.splits)
  show "refuses (handle_add_library sv b)"
    unfolding handle_add_library_def Let_def
    by (intro refuses_andthen reads_allowed_library refuses_last never_db_call never_reply)
  show "refuses (handle_update_library sv pid b)"
    unfolding handle_update_library_def Let_def
    by (intro refuses_andthen reads_path_id reads_db_call reads_intros sure reads_world upd)
  show "refuses (handle_delete_library sv pid)"
    unfolding handle_delete_library_def
    by (intro refuses_andthen reads_path_id refuses_last never_db_call never_reply)
qed

lemma handle_scans_refuse:
  "refuses (handle_scan_library sv pid)" "refuses (handle_scan_all sv)" "refuses (handle_arr_webhook sv b)"
proof -
  have queue: "refuses (if c then reject code msg else andthen (db_call sv 500 f) (\<lambda>_. reply 202 () [Wake]))" for c code msg f
    by (auto intro!: refuses_intros refuses_last never_db_call never_reply)
  have one: "refuses (andthen (db_call sv 500 (is_scan_active i)) (\<lambda>active. if active then reject 409 msg
      else andthen (db_call sv 500 f) (\<lambda>_. reply 202 () [Wake])))" for i msg f
    by (intro refuses_andthen reads_db_call reads_intros queue)
  have lib: "refuses (\<lambda>m. case db_call sv 404 (get_library i) m of
      (Inr (Some lib), m1) \<Rightarrow> h lib m1 | (_, m1) \<Rightarrow> reject 404 msg m1)"
    if "\<And>lib. refuses (h lib)" for i msg and h :: "library \<Rightarrow> unit handler"
    unfolding refuses_def
    by (auto simp: reject_def fail_def split: prod.splits sum.splits option.splits intro: sd.frame_trans
        dest!: keepsD [OF reads_db_call [OF reads_intros(1)]] refusesD [OF that])
  show "refuses (handle_scan_library sv pid)"
    unfolding handle_scan_library_def by (intro refuses_andthen reads_path_id lib one)
  show "refuses (handle_scan_all sv)"
    unfolding handle_scan_all_def by (intro refuses_andthen reads_db_call reads_intros queue)
  have hook: "refuses (\<lambda>m. if active then reply 202 x [] m else case on_store id f m of (_, m1) \<Rightarrow> reply 202 x [Wake] m1)"
    for active x and f :: "job store_op"
    by (auto simp: refuses_def reply_def ret_def split: prod.splits)
  show "refuses (handle_arr_webhook sv b)"
    unfolding handle_arr_webhook_def Let_def
    by (intro refuses_andthen reads_decode)
       (auto intro!: refuses_andthen refuses_intros reads_db_call reads_intros reads_world hook split: prod.splits option.splits)
qed

lemma handle_queue_refuses: "refuses (handle_retry_job sv pid)" "refuses (handle_delete_job sv pid)"
  unfolding handle_retry_job_def handle_delete_job_def
  by (intro refuses_andthen reads_path_id refuses_last never_db_call never_reply)+

definition cancel_refuses :: "server \<Rightarrow> string \<Rightarrow> bool" where
  "cancel_refuses sv pid \<longleftrightarrow> (\<forall>r code msg r'. handle_cancel_job sv pid r = (Inl (code, ClientError msg), r') \<longrightarrow>
     s_db (ru_store r') = s_db (ru_store r) \<and> ru_cancelled r' = ru_cancelled r)"

lemma handle_cancel_refuses: "cancel_refuses sv pid"
  using keepsD [OF reads_intros(5)]
  by (fastforce simp: cancel_refuses_def handle_cancel_job_def cancel_queued_job_def cancel_running_def same_rows_def
      split: prod.splits sum.splits if_splits)

text \<open>
  C31: a request that a handler refuses with a message of its own (a bad body, a limit, a stale file, a
  foreign sidecar, a path outside the roots, a scan that is already queued) has changed nothing in the
  database: for every handler that writes.
\<close>

theorem refused_requests_change_nothing:
  "refuses (handle_add_library sv b) \<and> refuses (handle_update_library sv pid b) \<and> refuses (handle_delete_library sv pid) \<and>
   refuses (handle_scan_library sv pid) \<and> refuses (handle_scan_all sv) \<and> refuses (handle_arr_webhook sv b) \<and>
   refuses (handle_file_jobs sv pid b) \<and> refuses (handle_edit_metadata sv pid b) \<and> refuses (handle_reorder_tracks sv pid b) \<and>
   refuses (handle_merge_tracks sv pid b) \<and> refuses (handle_batch sv b) \<and> refuses (handle_retry_job sv pid) \<and>
   refuses (handle_delete_job sv pid) \<and> cancel_refuses sv pid"
  by (intro conjI handle_libraries_refuse handle_scans_refuse handle_file_jobs_refuses handle_one_refuses
      handle_merge_refuses handle_batch_refuses handle_queue_refuses handle_cancel_refuses)

subsection \<open>The folder picker\<close>

text \<open>The directory \<open>d\<close> of \<open>p\<close> lies on the way to the root \<open>r\<close>.\<close>

definition on_the_way :: "path \<Rightarrow> string \<Rightarrow> path \<Rightarrow> bool" where
  "on_the_way p d r \<longleftrightarrow> d \<noteq> '''' \<and> sep \<notin> set d \<and>
     (\<exists>rest. r = (if suffix [sep] p then p else p @ [sep]) @ d @ rest \<and> (rest = [] \<or> hd rest = sep))"

lemma child_towards_Some:
  assumes "child_towards p r = Some d"
  shows "on_the_way p d r"
proof -
  let ?pre = "if suffix [sep] p then p else p @ [sep]"
  let ?tail = "drop (length ?pre) r"
  have d: "d = takeWhile (\<lambda>c. c \<noteq> sep) ?tail" "d \<noteq> ''''" "prefix ?pre r"
    using assms by (auto simp: child_towards_def Let_def split: if_splits)
  obtain t where t: "r = ?pre @ t" using d(3) by (auto simp only: prefix_def)
  then have tail: "?tail = t" by simp
  let ?rest = "dropWhile (\<lambda>c. c \<noteq> sep) t"
  have "r = ?pre @ d @ ?rest" using t d(1) tail by simp
  moreover have "?rest = [] \<or> hd ?rest = sep" using hd_dropWhile [of "\<lambda>c. c \<noteq> sep" t] by auto
  moreover have "sep \<notin> set d" using d(1) by (auto dest: set_takeWhileD)
  ultimately show ?thesis using d(2) unfolding on_the_way_def by blast
qed

lemma root_children_way:
  assumes "d \<in> set (root_children p roots)"
  shows "\<exists>r \<in> set roots. on_the_way p d r"
proof -
  from assms obtain r where "r \<in> set roots" "child_towards p r = Some d"
    by (auto simp: root_children_def List.map_filter_def)
  then show ?thesis using child_towards_Some by blast
qed

text \<open>
  C14: what the folder picker shows is inside the allowed roots or on the way to one: the directory it
  lists is the resolved one, links followed; either it lies in a root and its visible directories are
  listed, or every name listed is the next step towards a root. Nothing is changed.
\<close>

theorem browse_reveals_only_roots:
  assumes "handle_browse sv p m = (Inr (code, ls, effs), m')"
    "on_world (real_path (clean (if p = '''' then ''/'' else p))) m = (q, m1)" "resolved_browse_roots sv m1 = (roots, m2)"
  shows "ls_current ls = q \<and> same_db m m' \<and>
    (if path_allowed q roots
     then (\<exists>es. sv_read_dir sv (m_world m2) q = Some es \<and> (\<forall>d \<in> set (ls_dirs ls). (d, True) \<in> set es \<and> \<not> prefix ''.'' d))
     else \<forall>d \<in> set (ls_dirs ls). \<exists>r \<in> set roots. on_the_way q d r)"
proof -
  have db: "same_db m m2"
    using assms(2,3) keepsD [OF reads_on_store [OF reads_intros(2)]]
    by (fastforce simp: resolved_browse_roots_def effective_browse_roots_def same_db_def split: prod.splits if_splits)
  show ?thesis
  proof (cases "path_allowed q roots")
    case True
    with assms obtain es where es: "sv_read_dir sv (m_world m2) q = Some es" "m' = m2"
      "ls = listing_of q (sort (map fst (filter (\<lambda>(name, is_dir). is_dir \<and> \<not> prefix ''.'' name) es)))"
      by (auto simp: handle_browse_def reply_def ret_def reject_def fail_def split: option.splits)
    with True db show ?thesis by (auto simp: listing_of_def)
  next
    case False
    with assms have "root_children q roots \<noteq> []" "m' = m2" "ls = listing_of q (root_children q roots)"
      by (auto simp: handle_browse_def reply_def ret_def reject_def fail_def split: if_splits)
    with False db root_children_way show ?thesis by (auto simp: listing_of_def)
  qed
qed

definition demo_server :: "path list \<Rightarrow> server" where
  "demo_server roots = \<lparr>sv_engine = demo_env True, sv_text = \<lparr>et_engine = (\<lambda>_. ''engine''), et_sidecar = (\<lambda>_. ''sidecar''),
     et_scan = (\<lambda>_. ''scan''), et_store = (\<lambda>_. ''store''), et_stat = (\<lambda>_. ''stat''), et_payload = (\<lambda>_. ''payload''), et_ctx = ''ctx''\<rparr>,
     sv_unmarshal = (\<lambda>_. None), sv_browse_roots = roots, sv_default_interval = 3600, sv_home = None,
     sv_read_dir = (\<lambda>_ _. Some [(''tv'', True), (''a.txt'', False)]), sv_watch_status = (\<lambda>_. ''watching'')\<rparr>"

definition demo_empty :: "bool list \<Rightarrow> machine" where
  "demo_empty faults = \<lparr>m_world = demo_world faults, m_store = \<lparr>s_db = \<lparr>db_libs = [], db_files = [], db_sidecars = [], db_jobs = [],
     db_settings = []\<rparr>, s_faults = [], s_now = 50\<rparr>, m_ctx = []\<rparr>"

lemma demo_real_path: "on_world (real_path p) (demo_empty (True # fl)) = (clean p, demo_empty fl)"
  by (simp add: on_world_def real_path_def fault_def demo_empty_def demo_world_def)

lemma demo_cleaned:
  "clean ''/srv/x/..'' = ''/srv''" "clean ''/srv'' = ''/srv''" "clean ''/srv/media/tv'' = ''/srv/media/tv''"
  "trim_space ''/srv/media/tv'' = ''/srv/media/tv''" "path_allowed ''/srv'' [''/srv/media/tv''] = False"
  "root_children ''/srv'' [''/srv/media/tv''] = [''media'']"
  by code_simp+

lemma browse_reveals_only_roots_witness:
  "\<exists>ls m'. handle_browse (demo_server [''/srv/media/tv'']) ''/srv/x/..'' (demo_empty [True, True]) = (Inr (200, ls, []), m') \<and>
     ls_dirs ls = [''media''] \<and> (\<forall>d \<in> set (ls_dirs ls). \<exists>r \<in> set [''/srv/media/tv'']. on_the_way (ls_current ls) d r)"
proof -
  let ?sv = "demo_server [''/srv/media/tv'']"
  have q: "on_world (real_path (clean (if ''/srv/x/..'' = '''' then ''/'' else ''/srv/x/..''))) (demo_empty [True, True]) = (''/srv'', demo_empty [True])"
    by (simp add: demo_real_path demo_cleaned)
  have u: "on_world (unique_roots [''/srv/media/tv''] []) (demo_empty [True]) = ([''/srv/media/tv''], demo_empty [])"
    by (simp add: on_world_def real_path_def fault_def demo_empty_def demo_world_def demo_cleaned Let_def)
  have r: "resolved_browse_roots ?sv (demo_empty [True]) = ([''/srv/media/tv''], demo_empty [])"
    using u by (simp add: resolved_browse_roots_def effective_browse_roots_def demo_server_def)
  have h: "handle_browse ?sv ''/srv/x/..'' (demo_empty [True, True]) = (Inr (200, listing_of ''/srv'' [''media''], []), demo_empty [])"
    using q r by (simp add: handle_browse_def demo_cleaned reply_def ret_def)
  from browse_reveals_only_roots [OF h q r] h show ?thesis by (auto simp: demo_cleaned listing_of_def)
qed

subsection \<open>Orders\<close>

lemma order_ok_loop: "order_ok ss seen order = None \<longleftrightarrow> order_loop ss (\<lambda>i. i \<in> set seen) order = None"
proof (induction ss seen order rule: order_ok.induct)
  case (2 ss seen i "is")
  have "(\<lambda>j. j \<in> set (i # seen)) = (\<lambda>j. j \<in> set seen)(i := True)" by (rule ext) simp
  with 2 show ?case by (auto split: option.splits)
qed simp

text \<open>
  The check of a track order in the API and the engine's own, written apart, accept the same
  orders: the API queues no reordering that the engine would refuse for the same streams, and refuses
  none that it would take.
\<close>

theorem order_checks_agree: "order_check ss order = None \<longleftrightarrow> reorder_check ss order = None"
  using order_ok_loop [of ss "[]" order] by (simp add: order_check_def reorder_check_def)

subsection \<open>Batches\<close>





end
