(* ===== verification/McpProps.thy ===== *)
theory McpProps
  imports Mcp HandlerProps
begin

text \<open>
  The tools of the Model Context Protocol do what the API's handlers do.
\<close>

text \<open>
  What two requests for the same change agree on: both fail, or both queue the same job; and the machine
  after them is the same.
\<close>

definition same_job :: "((nat \<times> api_err) + (nat \<times> job \<times> effect list)) \<times> machine \<Rightarrow> (string + (string \<times> tool_value \<times> effect list)) \<times> machine \<Rightarrow> bool" where
  "same_job a b \<longleftrightarrow> snd a = snd b \<and>
     (case (fst a, fst b) of
        (Inl _, Inl _) \<Rightarrow> True
      | (Inr (code, j, effs), Inr (_, v, effs')) \<Rightarrow> code = 201 \<and> v = OneJob j \<and> effs = effs'
      | _ \<Rightarrow> False)"

text \<open>Steps that agree: with the same value, or both failed.\<close>

definition agrees :: "('e + 'a) \<times> machine \<Rightarrow> ('f + 'a) \<times> machine \<Rightarrow> bool" where
  "agrees a b \<longleftrightarrow> snd a = snd b \<and>
     (case (fst a, fst b) of (Inl _, Inl _) \<Rightarrow> True | (Inr x, Inr y) \<Rightarrow> x = y | _ \<Rightarrow> False)"

lemma agrees_then:
  assumes "agrees (f m) (g m)" "\<And>x m'. same_job (h x m') (k x m')"
  shows "same_job (andthen f h m) (andthen g k m)"
proof -
  obtain a m1 b m2 where f: "f m = (a, m1)" and g: "g m = (b, m2)" by fastforce
  show ?thesis
  proof (cases a)
    case (Inl e)
    with assms(1) f g have "isl b" "m1 = m2" by (auto simp: agrees_def split: sum.splits)
    with Inl f g show ?thesis by (auto simp: andthen_def same_job_def isl_def)
  next
    case (Inr x)
    with assms(1) f g have "b = Inr x" "m1 = m2" by (auto simp: agrees_def split: sum.splits)
    with Inr f g assms(2) show ?thesis by (simp add: andthen_def)
  qed
qed

lemma agrees_detail: "agrees (fresh_detail sv i e m) (mcp_fresh sv i e m)"
  by (auto simp: agrees_def fresh_detail_def mcp_fresh_def detail_def mcp_detail_def andthen_def fail_def ret_def reject_def
      split: prod.splits sum.splits option.splits)

lemma agrees_matroska: "agrees (only_matroska a res m) (mcp_matroska b res m)"
  by (simp add: agrees_def only_matroska_def mcp_matroska_def ret_def reject_def fail_def)

lemma same_queue: "same_job (queue_one sv ty f payload m) (mcp_queue sv heading ty f payload OneJob m)"
  by (auto simp: same_job_def queue_one_def mcp_queue_def andthen_def db_call_def mcp_db_def on_store_def reply_def
      tool_result_def ret_def split: prod.splits sum.splits)

lemma same_fail: "same_job (reject code msg m) (fail msg' m)"
  by (simp add: same_job_def reject_def fail_def)

lemma andthen_Inr: "f m = (Inr a, m') \<Longrightarrow> andthen f g m = g a m'"
  by (simp add: andthen_def)

lemma andthen_Inl: "f m = (Inl e, m') \<Longrightarrow> andthen f g m = (Inl e, m')"
  by (simp add: andthen_def)

lemma path_id_ok: "parse_int pid = (i, None) \<Longrightarrow> 0 < i \<Longrightarrow> path_id pid m = (Inr i, m)"
  by (simp add: path_id_def ret_def)

lemma decode_cases:
  "d j = None \<Longrightarrow> decode d (Json j) m = (Inl (400, InternalError ''json: cannot unmarshal''), m)"
  "d j = Some a \<Longrightarrow> decode d (Json j) m = (Inr a, m)"
  by (simp_all add: decode_def fail_def ret_def)

lemma both_fail: "same_job (Inl e, m) (fail msg m)"
  by (simp add: same_job_def fail_def)

lemma same_edit: "ep_edits p \<noteq> [] \<Longrightarrow>
    same_job ((if ep_edits p = [] then reject 400 ''edits required''
     else if max_metadata_edits < length (ep_edits p) then reject 400 ''edits exceeds the limit of 100''
     else andthen (fresh_detail sv i e) (\<lambda>(f, res).
       andthen (only_matroska ''metadata editing'' res) (\<lambda>_. queue_one sv ''edit_metadata'' f (enc_edits p)))) m)
     (edit_file sv i e p m)"
  by (auto simp: edit_file_def same_fail intro!: agrees_then agrees_detail agrees_matroska same_queue split: prod.splits)

lemma same_reorder: "op_order p \<noteq> [] \<Longrightarrow>
    same_job ((if op_order p = [] then reject 400 ''track_order is required''
     else if max_track_order < length (op_order p) then reject 400 ''track_order exceeds the limit of 1000 entries''
     else andthen (fresh_detail sv i e) (\<lambda>(f, res).
       andthen (only_matroska ''track reordering'' res) (\<lambda>_.
       case order_check (pr_streams res) (op_order p) of
         Some msg \<Rightarrow> reject 400 msg
       | None \<Rightarrow> queue_one sv ''reorder_tracks'' f (enc_reorder p)))) m)
     (reorder_file sv i e p m)"
  by (auto simp: reorder_file_def same_fail intro!: agrees_then agrees_detail agrees_matroska same_queue
      split: prod.splits option.splits)

lemma same_external:
  "same_job ((case check_external sv t fs m of (Inl e, m1) \<Rightarrow> fail (400, e) m1 | (Inr _, m1) \<Rightarrow> queue_one sv ty f payload m1))
     ((case check_external sv t fs m of (Inl e, m1) \<Rightarrow> fail (mcp_err_msg e) m1 | (Inr _, m1) \<Rightarrow> mcp_queue sv h ty f payload OneJob m1))"
  by (auto simp: same_queue both_fail fail_def [of "(400, _)"] split: prod.splits sum.splits)

lemma same_merge: "mp_files p \<noteq> [] \<Longrightarrow>
    same_job ((if mp_files p = [] then reject 400 ''external_files is required''
     else if max_external_files < length (mp_files p) then reject 400 ''external_files exceeds the limit of 100''
     else andthen (fresh_detail sv i e) (\<lambda>(f, res).
       andthen (only_matroska ''merging tracks'' res) (\<lambda>_ m.
       case check_external sv (mf_path f) (mp_files p) m of
         (Inl e, m1) \<Rightarrow> fail (400, e) m1
       | (Inr _, m1) \<Rightarrow> queue_one sv ''merge_tracks'' f (enc_merge p) m1))) m)
     (merge_file sv i e p m)"
  by (auto simp: merge_file_def same_fail intro!: agrees_then agrees_detail agrees_matroska same_external split: prod.splits)

text \<open>Both ways in start alike: the id, then a body of which each decodes its part.\<close>

lemma same_request:
  assumes "parse_int pid = (i, None)" "0 < i" "dec_fields j = Some kvs" "dec_field ''file_id'' dec_int kvs = Some i"
    and req: "dreq = (\<lambda>j. Option.bind (dec_fields j) (\<lambda>kvs. Option.bind (dec_expect kvs) (\<lambda>e. Option.bind (d j) (\<lambda>p. Some (e, p)))))"
    and same: "\<And>e p. \<not> none p \<Longrightarrow> same_job (body i e p m) (tool i e p m)"
    and bare: "\<And>e p. none p \<Longrightarrow> \<exists>r. body i e p m = (Inl r, m)"
  shows "same_job (andthen (path_id pid) (\<lambda>i. andthen (decode dreq (Json j)) (\<lambda>(e, p). body i e p)) m)
    ((case dec_for_file d (Some j) of Some (i, e, p) \<Rightarrow> if i = 0 \<or> none p then fail msg else tool i e p | None \<Rightarrow> fail msg) m)"
proof -
  have pid: "andthen (path_id pid) (\<lambda>i. andthen (decode dreq (Json j)) (\<lambda>(e, p). body i e p)) m =
      andthen (decode dreq (Json j)) (\<lambda>(e, p). body i e p) m"
    by (rule andthen_Inr) (rule path_id_ok [OF assms(1,2)])
  show ?thesis
  proof (cases "dreq j")
    case None
    then have "dec_for_file d (Some j) = None" using assms(3,4) by (auto simp: req dec_for_file_def split: bind_splits)
    moreover have "andthen (decode dreq (Json j)) (\<lambda>(e, p). body i e p) m = (Inl (400, InternalError ''json: cannot unmarshal''), m)"
      by (rule andthen_Inl) (rule decode_cases(1) [where d = dreq, OF None])
    ultimately show ?thesis by (simp add: pid both_fail)
  next
    case (Some x)
    obtain e p where x: "x = (e, p)" by fastforce
    then have d: "dec_for_file d (Some j) = Some (i, e, p)"
      using Some assms(3,4) by (auto simp: req dec_for_file_def split: bind_splits)
    have b: "andthen (decode dreq (Json j)) (\<lambda>(e, p). body i e p) m = body i e p m"
      using decode_cases(2) [where d = dreq and m = m, OF Some] by (simp add: andthen_def x)
    show ?thesis
    proof (cases "none p")
      case True
      then obtain r where "body i e p m = (Inl r, m)" using bare by blast
      with True d b pid show ?thesis by (simp add: both_fail)
    next
      case False
      with same d b pid assms(2) show ?thesis by simp
    qed
  qed
qed

text \<open>
  C29: for the same file and the same edits, order or external files, the tools of the Model Context
  Protocol and the API accept and refuse the same requests, queue the same job, wake the runner alike
  and leave the same machine: neither way in has a check that the other lacks.
\<close>

theorem mcp_queues_like_api:
  assumes "parse_int pid = (i, None)" "0 < i" "dec_fields j = Some kvs" "dec_field ''file_id'' dec_int kvs = Some i"
  shows "same_job (handle_edit_metadata sv pid (Json j) m) (mcp_queue_metadata sv (Some j) m) \<and>
    same_job (handle_reorder_tracks sv pid (Json j) m) (mcp_queue_reorder sv (Some j) m) \<and>
    same_job (handle_merge_tracks sv pid (Json j) m) (mcp_queue_merge sv (Some j) m)"
proof (intro conjI)
  show "same_job (handle_edit_metadata sv pid (Json j) m) (mcp_queue_metadata sv (Some j) m)"
    unfolding handle_edit_metadata_def mcp_queue_metadata_def
    by (rule same_request [OF assms, where none = "\<lambda>p. ep_edits p = []"])
       (simp add: fun_eq_iff dec_edit_request_def, erule same_edit, simp add: reject_def fail_def)
  show "same_job (handle_reorder_tracks sv pid (Json j) m) (mcp_queue_reorder sv (Some j) m)"
    unfolding handle_reorder_tracks_def mcp_queue_reorder_def
    by (rule same_request [OF assms, where none = "\<lambda>p. op_order p = []"])
       (simp add: fun_eq_iff dec_reorder_request_def, erule same_reorder, simp add: reject_def fail_def)
  show "same_job (handle_merge_tracks sv pid (Json j) m) (mcp_queue_merge sv (Some j) m)"
    unfolding handle_merge_tracks_def mcp_queue_merge_def
    by (rule same_request [OF assms, where none = "\<lambda>p. mp_files p = []"])
       (simp add: fun_eq_iff dec_merge_request_def, erule same_merge, simp add: reject_def fail_def)
qed

lemma mcp_queues_like_api_witness:
  "same_job (handle_reorder_tracks (demo_server []) ''7'' (Json (JObj [(''file_id'', JNum 7), (''track_order'', JArr [JNum 0])])) (demo_empty []))
     (mcp_queue_reorder (demo_server []) (Some (JObj [(''file_id'', JNum 7), (''track_order'', JArr [JNum 0])])) (demo_empty []))"
proof -
  let ?kvs = "[(''file_id'', JNum 7), (''track_order'', JArr [JNum 0])]"
  have "parse_int ''7'' = (7, None)" "(0 :: int) < 7" "dec_fields (JObj ?kvs) = Some ?kvs" "dec_field ''file_id'' dec_int ?kvs = Some 7"
    by code_simp+
  from mcp_queues_like_api [OF this] show ?thesis by blast
qed

end
