(* ===== verification/Api.thy ===== *)
theory Api
  imports Mcp Hub
begin

text \<open>
  The API as a whole, from \<^verbatim>\<open>Handler\<close> in \<^verbatim>\<open>internal/api/server.go\<close>: the routes of the multiplexer
  behind the middleware, one request as one step on the state of a process. A path is the decoded one, so
  a segment holds no escaped slash. The handlers are those of the component theories; a static file and a
  redirect are answers without a body.
\<close>

subsection \<open>Routes\<close>

datatype route =
    Health | GetStats | Browse
  | ListLibraries | AddLibrary | UpdateLibrary string | DeleteLibrary string | ScanLibrary string | ScanAll
  | ListFiles | GetFile string | FileJobs string | EditMetadata string | ReorderTracks string | MergeTracks string
  | Batch | ListJobs | CancelJob string | RetryJob string | DeleteJob string
  | Events | ArrWebhook | AuthSession | McpStream | McpMessage
  | Static | WrongMethod | Redirect

definition api_prefix :: "string list" where "api_prefix = ['''', ''api'', ''v1'']"

text \<open>The patterns of each method, on the segments after \<^verbatim>\<open>/api/v1\<close>; \<open>None\<close> leaves the path to \<^verbatim>\<open>GET /\<close>.\<close>

definition get_route :: "string list \<Rightarrow> route option" where
  "get_route segs =
     map_of [([''health''], Health), ([''stats''], GetStats), ([''browse''], Browse), ([''libraries''], ListLibraries),
       ([''files''], ListFiles), ([''jobs''], ListJobs), ([''events''], Events), ([''mcp'', ''sse''], McpStream)] segs"

definition get_id_route :: "string list \<Rightarrow> route option" where
  "get_id_route segs = (case segs of [a, i] \<Rightarrow> if a = ''files'' \<and> i \<noteq> '''' then Some (GetFile i) else None | _ \<Rightarrow> None)"

definition post_route :: "string list \<Rightarrow> route option" where
  "post_route segs =
     map_of [([''libraries''], AddLibrary), ([''scan''], ScanAll), ([''batch''], Batch), ([''webhooks'', ''arr''], ArrWebhook),
       ([''auth'', ''session''], AuthSession), ([''mcp'', ''message''], McpMessage)] segs"

definition post_id_route :: "string list \<Rightarrow> route option" where
  "post_id_route segs =
     (case segs of
        [a, i, b] \<Rightarrow>
          if i = '''' then None
          else map_of [((''libraries'', ''scan''), ScanLibrary i), ((''files'', ''jobs''), FileJobs i),
            ((''files'', ''metadata''), EditMetadata i), ((''files'', ''reorder''), ReorderTracks i),
            ((''files'', ''merge''), MergeTracks i), ((''jobs'', ''cancel''), CancelJob i), ((''jobs'', ''retry''), RetryJob i)] (a, b)
      | _ \<Rightarrow> None)"

definition put_route :: "string list \<Rightarrow> route option" where
  "put_route segs = (case segs of [a, i] \<Rightarrow> if a = ''libraries'' \<and> i \<noteq> '''' then Some (UpdateLibrary i) else None | _ \<Rightarrow> None)"

definition delete_route :: "string list \<Rightarrow> route option" where
  "delete_route segs =
     (case segs of
        [a, i] \<Rightarrow> if i = '''' then None else map_of [(''libraries'', DeleteLibrary i), (''jobs'', DeleteJob i)] a
      | _ \<Rightarrow> None)"

definition first_some :: "'a option \<Rightarrow> 'a option \<Rightarrow> 'a option" where
  "first_some a b = (case a of None \<Rightarrow> b | _ \<Rightarrow> a)"

definition api_route :: "string \<Rightarrow> string list \<Rightarrow> route option" where
  "api_route meth segs =
     (if meth = ''GET'' \<or> meth = ''HEAD'' then first_some (get_route segs) (get_id_route segs)
      else if meth = ''POST'' then first_some (post_route segs) (post_id_route segs)
      else if meth = ''PUT'' then put_route segs
      else if meth = ''DELETE'' then delete_route segs
      else None)"

text \<open>
  \<^verbatim>\<open>ServeMux\<close>: a path that is not clean is redirected, except for \<^verbatim>\<open>CONNECT\<close>; the pattern \<^verbatim>\<open>GET /\<close> takes
  every other path, so another method on it is answered by 405.
\<close>

definition clean_request_path :: "path \<Rightarrow> path" where
  "clean_request_path p =
     (let p' = (if prefix ''/'' p then p else CHR ''/'' # p); c = clean p' in
      if suffix ''/'' p' \<and> c \<noteq> ''/'' then c @ ''/'' else c)"

definition route_of :: "string \<Rightarrow> path \<Rightarrow> route" where
  "route_of meth p =
     (if meth \<noteq> ''CONNECT'' \<and> clean_request_path p \<noteq> p then Redirect
      else
        let segs = split_on (CHR ''/'') p;
            found = (if segs = ['''', ''sse''] \<and> (meth = ''GET'' \<or> meth = ''HEAD'') then Some McpStream
                     else if take 3 segs = api_prefix then api_route meth (drop 3 segs) else None) in
        case found of
          Some r \<Rightarrow> r
        | None \<Rightarrow> if meth = ''GET'' \<or> meth = ''HEAD'' then Static else WrongMethod)"

subsection \<open>Answers\<close>

datatype answer_value =
    HealthValue bool bool bool
  | StatsValue stats
  | ListingValue listing
  | LibrariesValue "library_view list"
  | LibraryValue library_view
  | FilesValue "nat \<times> media_file list"
  | FileValue "media_file \<times> stream list \<times> string"
  | FileJobsValue file_job_reply
  | JobValue job
  | RetryValue "job option"
  | BatchValue "bool \<times> nat \<times> batch_result list"
  | JobsValue "nat \<times> job list"
  | TextValue string
  | WebhookValue webhook_reply
  | OkValue
  | SessionValue bool
  | StreamValue nat
  | McpStreamValue string
  | NoBody

text \<open>The state of a process: the door, the machine with the runner, the hub, the sessions of the protocol
  and the requests that goroutines of their own still have to serve.\<close>

record process_state =
  ps_door :: door
  ps_service :: service
  ps_hub :: hub
  ps_sessions :: mcp_sessions
  ps_pending :: "(string \<times> rpc_request) list"

record http_request =
  hq_head :: request_head
  hq_query :: "(string \<times> string) list"
  hq_body :: body

record response =
  rs_code :: nat
  rs_body :: "string + answer_value"
  rs_told :: "effect list"

text \<open>What a request takes from outside: the time, a random token, a session's name, the status of the file
  server for a path.\<close>

record call_env =
  ce_now :: int
  ce_token :: string
  ce_session :: string
  ce_marshal :: "json \<Rightarrow> string option"
  ce_secure_cookie :: bool
  ce_static :: "path \<Rightarrow> nat"

definition tell :: "call_env \<Rightarrow> effect \<Rightarrow> hub \<Rightarrow> hub" where
  "tell ce e h = (case e of Publish event data \<Rightarrow> notify (ce_marshal ce) event data h | _ \<Rightarrow> h)"

definition settle ::
  "call_env \<Rightarrow> ((nat \<times> api_err) + (nat \<times> answer_value \<times> effect list)) \<Rightarrow> process_state \<Rightarrow> response \<times> process_state" where
  "settle ce r st =
     (let effs = (case r of Inr (_, _, effs) \<Rightarrow> effs | Inl _ \<Rightarrow> []) in
      case answer r of (code, b) \<Rightarrow>
        (\<lparr>rs_code = code, rs_body = b, rs_told = effs\<rparr>, st\<lparr>ps_hub := fold (tell ce) effs (ps_hub st)\<rparr>))"

text \<open>A handler on the machine, with the kind of its answer.\<close>

definition run_handler :: "call_env \<Rightarrow> ('a \<Rightarrow> answer_value) \<Rightarrow> 'a handler \<Rightarrow> process_state \<Rightarrow> response \<times> process_state" where
  "run_handler ce v h st =
     (case h (fst (ps_service st)) of
        (r, m) \<Rightarrow>
          settle ce (map_sum id (\<lambda>(code, a, effs). (code, v a, effs)) r) (st\<lparr>ps_service := (m, snd (ps_service st))\<rparr>))"

definition plain :: "nat \<Rightarrow> answer_value \<Rightarrow> process_state \<Rightarrow> response \<times> process_state" where
  "plain code v st = (\<lparr>rs_code = code, rs_body = Inr v, rs_told = []\<rparr>, st)"

text \<open>Cancelling looks at the runner first; both work on one database.\<close>

definition run_cancel :: "server \<Rightarrow> call_env \<Rightarrow> string \<Rightarrow> process_state \<Rightarrow> response \<times> process_state" where
  "run_cancel sv ce pid st =
     (case ps_service st of (m, r) \<Rightarrow>
      case handle_cancel_job sv pid (r\<lparr>ru_store := m_store m\<rparr>) of (x, r') \<Rightarrow>
        settle ce (map_sum id (\<lambda>(code, a, effs). (code, TextValue a, effs)) x)
          (st\<lparr>ps_service := (m\<lparr>m_store := ru_store r'\<rparr>, r')\<rparr>))"

definition dispatch :: "server \<Rightarrow> call_env \<Rightarrow> http_request \<Rightarrow> process_state \<Rightarrow> response \<times> process_state" where
  "dispatch sv ce q st =
     (let b = hq_body q in
      case route_of (hr_method (hq_head q)) (hr_path (hq_head q)) of
        Health \<Rightarrow>
          plain 200 (HealthValue (p_has_ffprobe (ev_prober (sv_engine sv))) (p_has_mkvmerge (ev_prober (sv_engine sv)))
            (et_mkvpropedit (ev_tools (sv_engine sv)) \<noteq> '''')) st
      | GetStats \<Rightarrow> run_handler ce StatsValue (handle_stats sv) st
      | Browse \<Rightarrow> run_handler ce ListingValue (handle_browse sv (param ''path'' (hq_query q))) st
      | ListLibraries \<Rightarrow> run_handler ce LibrariesValue (handle_list_libraries sv) st
      | AddLibrary \<Rightarrow> run_handler ce LibraryValue (handle_add_library sv b) st
      | UpdateLibrary i \<Rightarrow> run_handler ce LibraryValue (handle_update_library sv i b) st
      | DeleteLibrary i \<Rightarrow> run_handler ce (\<lambda>_. OkValue) (handle_delete_library sv i) st
      | ScanLibrary i \<Rightarrow> run_handler ce (\<lambda>_. OkValue) (handle_scan_library sv i) st
      | ScanAll \<Rightarrow> run_handler ce (\<lambda>_. OkValue) (handle_scan_all sv) st
      | ListFiles \<Rightarrow> run_handler ce FilesValue (handle_list_files sv (hq_query q)) st
      | GetFile i \<Rightarrow> run_handler ce FileValue (handle_get_file sv i) st
      | FileJobs i \<Rightarrow> run_handler ce FileJobsValue (handle_file_jobs sv i b) st
      | EditMetadata i \<Rightarrow> run_handler ce JobValue (handle_edit_metadata sv i b) st
      | ReorderTracks i \<Rightarrow> run_handler ce JobValue (handle_reorder_tracks sv i b) st
      | MergeTracks i \<Rightarrow> run_handler ce JobValue (handle_merge_tracks sv i b) st
      | Batch \<Rightarrow> run_handler ce BatchValue (handle_batch sv b) st
      | ListJobs \<Rightarrow> run_handler ce JobsValue (handle_list_jobs sv (hq_query q)) st
      | CancelJob i \<Rightarrow> run_cancel sv ce i st
      | RetryJob i \<Rightarrow> run_handler ce RetryValue (handle_retry_job sv i) st
      | DeleteJob i \<Rightarrow> run_handler ce TextValue (handle_delete_job sv i) st
      | Events \<Rightarrow> (case subscribe (ps_hub st) of (i, h) \<Rightarrow> plain 200 (StreamValue i) (st\<lparr>ps_hub := h\<rparr>))
      | ArrWebhook \<Rightarrow> run_handler ce WebhookValue (handle_arr_webhook sv b) st
      | AuthSession \<Rightarrow>
          (case handle_auth_session (ce_secure_cookie ce) (ce_token ce) (hq_head q) (ce_now ce) (ps_door st) of
             (secure, d) \<Rightarrow> plain 200 (SessionValue secure) (st\<lparr>ps_door := d\<rparr>))
      | McpStream \<Rightarrow>
          plain 200 (McpStreamValue (ce_session ce)) (st\<lparr>ps_sessions := open_session (ce_session ce) (ps_sessions st)\<rparr>)
      | McpMessage \<Rightarrow>
          (let sid = param ''session_id'' (hq_query q) in
           case handle_mcp_message sid b (ps_sessions st) of (code, later, ss) \<Rightarrow>
             plain code NoBody (st\<lparr>ps_sessions := ss,
               ps_pending := (case later of Some rq \<Rightarrow> ps_pending st @ [(sid, rq)] | None \<Rightarrow> ps_pending st)\<rparr>))
      | Static \<Rightarrow> plain (ce_static ce (hr_path (hq_head q))) NoBody st
      | WrongMethod \<Rightarrow> plain 405 NoBody st
      | Redirect \<Rightarrow> plain 301 NoBody st)"

text \<open>A request: the door first, then the route.\<close>

definition serve_http :: "server \<Rightarrow> call_env \<Rightarrow> http_request \<Rightarrow> process_state \<Rightarrow> response \<times> process_state" where
  "serve_http sv ce q st =
     (case auth (hq_head q) (ce_now ce) (ps_door st) of
        (Answer code, d) \<Rightarrow> plain code NoBody (st\<lparr>ps_door := d\<rparr>)
      | (Serve, d) \<Rightarrow> dispatch sv ce q (st\<lparr>ps_door := d\<rparr>))"

text \<open>A goroutine serves one request of a session.\<close>

definition serve_pending :: "server \<Rightarrow> string \<Rightarrow> call_env \<Rightarrow> nat \<Rightarrow> process_state \<Rightarrow> process_state" where
  "serve_pending sv version ce i st =
     (if i < length (ps_pending st) then
        case ps_pending st ! i of (sid, rq) \<Rightarrow>
        case serve_session sv version sid rq (ps_service st, ps_sessions st) of (effs, s, ss) \<Rightarrow>
          st\<lparr>ps_service := s, ps_sessions := ss, ps_hub := fold (tell ce) effs (ps_hub st),
             ps_pending := take i (ps_pending st) @ drop (Suc i) (ps_pending st)\<rparr>
      else st)"

end
