(* ===== verification/ApiProps.thy ===== *)
theory ApiProps
  imports Api HandlerProps SecurityProps
begin

text \<open>
  The API as a whole: what the door does not let through reaches no handler, whatever the path, and what
  a browser may send on its own changes no data.
\<close>

subsection \<open>Routes behind the door\<close>

fun harmless :: "route \<Rightarrow> bool" where
  "harmless Static = True"
| "harmless WrongMethod = True"
| "harmless Redirect = True"
| "harmless _ = False"

fun reading :: "route \<Rightarrow> bool" where
  "reading Health = True"
| "reading GetStats = True"
| "reading Browse = True"
| "reading ListLibraries = True"
| "reading ListFiles = True"
| "reading (GetFile i) = True"
| "reading ListJobs = True"
| "reading Events = True"
| "reading McpStream = True"
| "reading r = harmless r"

lemma get_route_reading: "get_route segs = Some r \<Longrightarrow> reading r"
  by (auto simp: get_route_def split: if_splits)

lemma get_id_route_reading: "get_id_route segs = Some r \<Longrightarrow> reading r"
  by (auto simp: get_id_route_def split: list.splits if_splits)

text \<open>Every route of the API has a segment after the version.\<close>

lemma api_route_Nil [simp]: "api_route meth [] = None"
  by (simp add: api_route_def first_some_def get_route_def get_id_route_def post_route_def post_id_route_def put_route_def
      delete_route_def)

lemma api_route_get: "\<not> mutating_method meth \<Longrightarrow> api_route meth segs = Some r \<Longrightarrow> reading r"
  by (auto simp: api_route_def mutating_method_def first_some_def split: if_splits option.splits
      dest: get_route_reading get_id_route_reading)

lemma route_of_cases:
  assumes "segs = split_on (CHR ''/'') p"
  obtains "harmless (route_of meth p)"
  | "segs = ['''', ''sse'']" "route_of meth p = McpStream" "meth = ''GET'' \<or> meth = ''HEAD''"
  | "take 3 segs = api_prefix" "api_route meth (drop 3 segs) = Some (route_of meth p)"
proof (cases "meth \<noteq> ''CONNECT'' \<and> clean_request_path p \<noteq> p")
  case True
  then have "route_of meth p = Redirect" unfolding route_of_def by (simp only: if_True simp_thms)
  with that(1) show thesis by simp
next
  case conn: False
  define found where "found = (if segs = ['''', ''sse''] \<and> (meth = ''GET'' \<or> meth = ''HEAD'') then Some McpStream
        else if take 3 segs = api_prefix then api_route meth (drop 3 segs) else None)"
  have r: "route_of meth p = (case found of Some r \<Rightarrow> r | None \<Rightarrow> if meth = ''GET'' \<or> meth = ''HEAD'' then Static else WrongMethod)"
    unfolding route_of_def Let_def found_def assms using conn by (simp only: if_False)
  show thesis
  proof (cases found)
    case None
    with r that(1) show thesis by (cases "meth = ''GET'' \<or> meth = ''HEAD''") simp_all
  next
    case (Some x)
    then have x: "route_of meth p = x" using r by simp
    show thesis
    proof (cases "segs = ['''', ''sse''] \<and> (meth = ''GET'' \<or> meth = ''HEAD'')")
      case True
      then have "found = Some McpStream" unfolding found_def by (rule if_P)
      with Some x True show thesis by (intro that(2)) simp_all
    next
      case False
      with Some have "(if take 3 segs = api_prefix then api_route meth (drop 3 segs) else None) = Some x"
        unfolding found_def by (simp only: if_False)
      with x show thesis by (cases "take 3 segs = api_prefix") (auto intro: that(3))
    qed
  qed
qed

lemma route_of_reading: "\<not> mutating_method meth \<Longrightarrow> reading (route_of meth p)"
  by (rule route_of_cases [OF refl, where meth = meth and p = p]) (auto dest: api_route_get elim: harmless.elims)

lemma route_of_api_path:
  assumes "\<not> harmless (route_of meth p)"
  shows "protected_path p"
proof -
  define segs where "segs = split_on (CHR ''/'') p"
  have p: "p = join [CHR ''/''] segs" unfolding segs_def by (rule join_split_on [symmetric])
  show ?thesis
  proof (rule route_of_cases [OF segs_def, where meth = meth])
    assume "harmless (route_of meth p)"
    with assms show ?thesis by simp
  next
    assume "segs = ['''', ''sse'']"
    then show ?thesis unfolding p by (simp add: protected_path_def)
  next
    assume r: "take 3 segs = api_prefix" "api_route meth (drop 3 segs) = Some (route_of meth p)"
    then have "drop 3 segs \<noteq> []" by auto
    then obtain a rest where d: "drop 3 segs = a # rest" by (cases "drop 3 segs") auto
    have "segs = ['''', ''api'', ''v1''] @ a # rest"
      using append_take_drop_id [of 3 segs] r d by (simp add: api_prefix_def)
    then show ?thesis unfolding p by (simp add: protected_path_def)
  qed
qed

lemma health_route: "route_of meth health_path \<in> {Health, WrongMethod, Redirect}"
proof -
  have s: "split_on (CHR ''/'') health_path = ['''', ''api'', ''v1'', ''health'']" "clean_request_path health_path = health_path"
    by code_simp+
  show ?thesis
    by (auto simp: route_of_def s api_prefix_def api_route_def first_some_def get_route_def post_route_def post_id_route_def
        put_route_def delete_route_def)
qed

subsection \<open>Answers without a handler\<close>

definition same_process :: "process_state \<Rightarrow> process_state \<Rightarrow> bool" where
  "same_process st st' \<longleftrightarrow> ps_service st' = ps_service st \<and> ps_hub st' = ps_hub st \<and> ps_sessions st' = ps_sessions st \<and>
     ps_pending st' = ps_pending st"

definition no_data :: "response \<Rightarrow> bool" where
  "no_data resp \<longleftrightarrow> rs_told resp = [] \<and> (case rs_body resp of Inr NoBody \<Rightarrow> True | Inr (HealthValue _ _ _) \<Rightarrow> True | _ \<Rightarrow> False)"

lemma plain_same: "plain code NoBody st = (resp, st') \<Longrightarrow> no_data resp \<and> same_process st st'"
  by (auto simp: plain_def no_data_def same_process_def)

lemma dispatch_harmless:
  assumes "dispatch sv ce q st = (resp, st')" "route_of (hr_method (hq_head q)) (hr_path (hq_head q)) = r" "harmless r \<or> r = Health"
  shows "no_data resp \<and> same_process st st'"
  using assms by (cases r) (auto simp: dispatch_def plain_def no_data_def same_process_def)

subsection \<open>Handlers that read\<close>

definition same_data :: "process_state \<Rightarrow> process_state \<Rightarrow> bool" where
  "same_data st st' \<longleftrightarrow> same_db (fst (ps_service st)) (fst (ps_service st')) \<and> snd (ps_service st') = snd (ps_service st) \<and>
     ps_pending st' = ps_pending st"

lemma settle_same:
  assumes "settle ce r st = (resp, st')"
  shows "ps_service st' = ps_service st \<and> ps_pending st' = ps_pending st"
  using assms by (auto simp: settle_def Let_def split: prod.splits)

lemma run_handler_reads:
  assumes "keeps same_db h" "run_handler ce v h st = (resp, st')"
  shows "same_data st st'"
proof -
  obtain r m where h: "h (fst (ps_service st)) = (r, m)" by fastforce
  from keepsD [OF assms(1) h] assms(2) h show ?thesis
    by (auto simp: run_handler_def same_data_def dest: settle_same)
qed

lemma reads_lists: "keeps same_rows stats" "keeps same_rows (list_files f)" "keeps same_rows (list_jobs s l n)"
  by (auto simp: stats_def list_files_def list_jobs_def intro!: sw.keeps_intros reads_query)

lemma reads_reply: "keeps same_db (reply code a effs)"
  unfolding reply_def by (rule sd.keeps_ret)

lemma reads_handlers:
  "keeps same_db (handle_stats sv)" "keeps same_db (handle_list_libraries sv)" "keeps same_db (handle_list_files sv ps)"
  "keeps same_db (handle_get_file sv pid)" "keeps same_db (handle_list_jobs sv ps)"
  unfolding handle_stats_def handle_list_libraries_def handle_list_files_def handle_get_file_def handle_list_jobs_def
  by (auto intro!: sd.keeps_intros reads_db_call reads_lists reads_intros reads_reply reads_path_id reads_detail split: prod.splits)

lemma reads_browse: "keeps same_db (handle_browse sv p)"
proof (rule keepsI)
  fix m r m' assume b: "handle_browse sv p m = (r, m')"
  obtain q m1 where w: "on_world (real_path (clean (if p = '''' then ''/'' else p))) m = (q, m1)" by fastforce
  obtain rs m2 where e: "effective_browse_roots sv m1 = (rs, m2)" by fastforce
  have "same_db m m1" by (rule keepsD [OF reads_world(1) w])
  moreover have "same_db m1 m2"
    using e keepsD [OF reads_on_store [OF reads_intros(2)], of id m1]
    by (auto simp: effective_browse_roots_def Let_def same_db_def on_world_def split: if_splits prod.splits)
  moreover have "same_db m2 m'"
    using b w e
    by (auto simp: handle_browse_def resolved_browse_roots_def reply_def reject_def ret_def fail_def same_db_def on_world_def
        split: prod.splits if_splits option.splits)
  ultimately show "same_db m m'" by (blast intro: sd.frame_trans)
qed

lemma same_data_refl: "same_data st st"
  by (simp add: same_data_def same_db_def)

lemma dispatch_reading:
  assumes "dispatch sv ce q st = (resp, st')" "reading (route_of (hr_method (hq_head q)) (hr_path (hq_head q)))"
  shows "same_data st st'"
proof -
  have plain: "same_data st st'" if "plain code v (st\<lparr>ps_sessions := ss\<rparr>) = (resp, st')" for code v ss
    using that by (auto simp: plain_def same_data_def same_db_def)
  have plain': "same_data st st'" if "plain code v st = (resp, st')" for code v
    using that by (auto simp: plain_def same_data_refl)
  have sub: "same_data st st'" if "plain code v (st\<lparr>ps_hub := h\<rparr>) = (resp, st')" for code v h
    using that by (auto simp: plain_def same_data_def same_db_def)
  show ?thesis
    using assms(1) assms(2)
  proof (cases "route_of (hr_method (hq_head q)) (hr_path (hq_head q))")
    case Events
    with assms(1) show ?thesis by (auto simp: dispatch_def split: prod.splits intro: sub)
  qed (use assms in \<open>simp_all add: dispatch_def Let_def, (blast intro: run_handler_reads reads_handlers reads_browse plain plain')+\<close>)
qed

subsection \<open>The guarded API\<close>

text \<open>
  C3: a request that does not prove itself, whatever its method and path, is answered without any data but the
  health of the server, and leaves the files, the database, the runner, the events and the sessions as they
  are. A request that proves itself but whose method does not change state leaves the database, the runner and
  the queue of tool calls as they are; so what a browser may send across origins on its own changes no data.
\<close>

theorem api_is_guarded:
  assumes "serve_http sv ce q st = (resp, st')"
  shows "(\<not> proven (hq_head q) (ce_now ce) (ps_door st) \<longrightarrow> no_data resp \<and> same_process st st') \<and>
    (\<not> mutating_method (hr_method (hq_head q)) \<longrightarrow> same_data st st')"
proof -
  let ?h = "hq_head q"
  obtain g d where a: "auth ?h (ce_now ce) (ps_door st) = (g, d)" by fastforce
  have door: "same_process st x = same_process (st\<lparr>ps_door := d\<rparr>) x" "same_data st x = same_data (st\<lparr>ps_door := d\<rparr>) x" for x
    by (simp_all add: same_process_def same_data_def)
  show ?thesis
  proof (cases g)
    case (Answer code)
    with assms a have p: "plain code NoBody (st\<lparr>ps_door := d\<rparr>) = (resp, st')" by (simp add: serve_http_def)
    have "same_data st st'" using p by (auto simp: plain_def same_data_def same_db_def)
    with plain_same [OF p] door(1) show ?thesis by simp
  next
    case Serve
    with assms a have s: "dispatch sv ce q (st\<lparr>ps_door := d\<rparr>) = (resp, st')" by (simp add: serve_http_def)
    have "no_data resp \<and> same_process (st\<lparr>ps_door := d\<rparr>) st'" if "\<not> proven ?h (ce_now ce) (ps_door st)"
    proof (rule dispatch_harmless [OF s refl])
      from that a Serve have "\<not> protected_path (hr_path ?h) \<or> hr_path ?h = health_path"
        using auth_serves_only_proven [folded proven_def] by blast
      then show "harmless (route_of (hr_method ?h) (hr_path ?h)) \<or> route_of (hr_method ?h) (hr_path ?h) = Health"
        using route_of_api_path [of "hr_method ?h" "hr_path ?h"] health_route [of "hr_method ?h"] by auto
    qed
    moreover have "same_data (st\<lparr>ps_door := d\<rparr>) st'" if "\<not> mutating_method (hr_method ?h)"
      by (rule dispatch_reading [OF s]) (rule route_of_reading [OF that])
    ultimately show ?thesis using door by simp
  qed
qed

text \<open>A process with a key, and a request to delete a library that brings none.\<close>

definition demo_process :: process_state where
  "demo_process = \<lparr>ps_door = init_door ''secret'' '''', ps_service = (demo_empty [], started (m_store (demo_empty []))), ps_hub = new_hub,
     ps_sessions = (\<lambda>_. None), ps_pending = []\<rparr>"

definition demo_delete :: http_request where
  "demo_delete = \<lparr>hq_head = \<lparr>hr_method = ''DELETE'', hr_path = ''/api/v1/libraries/1'', hr_remote = ''10.0.0.9:5000'', hr_tls = False,
       hr_headers = [], hr_cookies = []\<rparr>, hq_query = [], hq_body = NotJson ''''\<rparr>"

definition demo_call :: call_env where
  "demo_call = \<lparr>ce_now = 0, ce_token = ''t'', ce_session = ''s'', ce_marshal = (\<lambda>_. None), ce_secure_cookie = False, ce_static = (\<lambda>_. 200)\<rparr>"

lemma api_is_guarded_witness:
  "\<exists>resp st'. serve_http (demo_server []) demo_call demo_delete demo_process = (resp, st') \<and>
     route_of ''DELETE'' ''/api/v1/libraries/1'' = DeleteLibrary ''1'' \<and> no_data resp \<and> same_process demo_process st'"
proof -
  obtain resp st' where s: "serve_http (demo_server []) demo_call demo_delete demo_process = (resp, st')" by fastforce
  have "\<not> proven (hq_head demo_delete) (ce_now demo_call) (ps_door demo_process)"
    by (simp add: proven_def demo_delete_def demo_process_def init_door_def header_def live_session_def session_cookie_def
        webhook_path_def)
  moreover have "route_of ''DELETE'' ''/api/v1/libraries/1'' = DeleteLibrary ''1''" by code_simp
  ultimately show ?thesis using api_is_guarded [OF s] s by blast
qed

end
