(* ===== verification/Cli.thy ===== *)
theory Cli
  imports EngineRun Recycle Store Security
begin

text \<open>
  \<^verbatim>\<open>cmd/muxprune/main.go\<close>: settings from the environment and the command line, what a process is
  started with, and the commands \<^verbatim>\<open>inspect\<close> and \<^verbatim>\<open>strip\<close>. The environment is a function, as
  \<^verbatim>\<open>os.Getenv\<close> is; the flags are parsed as the package \<^verbatim>\<open>flag\<close> documents. Notices on standard error
  are left out, and so are the sockets and signals of a server.
\<close>

subsection \<open>The environment\<close>

type_synonym environ = "string \<Rightarrow> string"

definition env :: "environ \<Rightarrow> string \<Rightarrow> string \<Rightarrow> string" where
  "env e key def = (if e key \<noteq> '''' then e key else def)"

definition env_int :: "environ \<Rightarrow> string \<Rightarrow> int \<Rightarrow> int" where
  "env_int e key def =
     (if e key = '''' then def else case parse_int (e key) of (n, None) \<Rightarrow> n | (_, Some _) \<Rightarrow> def)"

definition env_int_in :: "environ \<Rightarrow> string \<Rightarrow> int \<Rightarrow> int \<Rightarrow> int \<Rightarrow> int" where
  "env_int_in e key def lo hi = (let n = env_int e key def in if n < lo \<or> hi < n then def else n)"

definition env_float :: "environ \<Rightarrow> string \<Rightarrow> rat \<Rightarrow> rat" where
  "env_float e key def =
     (if e key = '''' then def else case parse_float (e key) of Some f \<Rightarrow> f | None \<Rightarrow> def)"

definition env_bool :: "environ \<Rightarrow> string \<Rightarrow> bool \<Rightarrow> bool" where
  "env_bool e key def =
     (if to_lower (e key) \<in> set [''1'', ''true'', ''yes'', ''on''] then True
      else if to_lower (e key) \<in> set [''0'', ''false'', ''no'', ''off''] then False
      else def)"

definition browse_roots :: "environ \<Rightarrow> path list" where
  "browse_roots e =
     (let raw = env e ''MUXPRUNE_BROWSE_ROOTS'' '''' in
      if raw = '''' then [] else filter (\<lambda>p. p \<noteq> '''') (map trim_space (split_on (CHR '':'') raw)))"

subsection \<open>Flags\<close>

datatype flag_value = BoolVal bool | IntVal int | StrVal string

text \<open>The flags of a command with their defaults; a flag's kind is that of its default.\<close>

type_synonym flags = "(string \<times> flag_value) list"

text \<open>\<^verbatim>\<open>strconv.ParseInt(s, 0, 64)\<close>: a prefix chooses the base, underscores may separate digits.\<close>

definition digit36 :: "char \<Rightarrow> nat option" where
  "digit36 c =
     (let n = of_char (lower_char c) :: nat in
      case digit_val c of
        Some d \<Rightarrow> Some d
      | None \<Rightarrow> if 97 \<le> n \<and> n \<le> 122 then Some (n - 87) else None)"

fun read_base :: "nat \<Rightarrow> nat \<Rightarrow> string \<Rightarrow> nat option" where
  "read_base b acc [] = Some acc"
| "read_base b acc (c # s) =
     (if c = CHR ''_'' then read_base b acc s
      else case digit36 c of
        Some d \<Rightarrow> if d < b then read_base b (acc * b + d) s else None
      | None \<Rightarrow> None)"

definition number_base :: "string \<Rightarrow> nat \<times> string" where
  "number_base s =
     (case s of
        z # p # c # t \<Rightarrow>
          if z \<noteq> CHR ''0'' then (10, s)
          else if lower_char p = CHR ''b'' then (2, c # t)
          else if lower_char p = CHR ''o'' then (8, c # t)
          else if lower_char p = CHR ''x'' then (16, c # t)
          else (8, p # c # t)
      | z # t \<Rightarrow> if z = CHR ''0'' then (8, t) else (10, s)
      | [] \<Rightarrow> (10, s))"

text \<open>The last character seen: a digit or the prefix, an underscore, or anything else.\<close>

datatype before_char = DigitBefore | UnderscoreBefore | OtherBefore

fun underscores_ok :: "bool \<Rightarrow> before_char \<Rightarrow> string \<Rightarrow> bool" where
  "underscores_ok hex i [] \<longleftrightarrow> i \<noteq> UnderscoreBefore"
| "underscores_ok hex i (c # s) \<longleftrightarrow>
     (if digit_val c \<noteq> None \<or> hex \<and> lower_char c \<in> set ''abcdef'' then underscores_ok hex DigitBefore s
      else if c = CHR ''_'' then i = DigitBefore \<and> underscores_ok hex UnderscoreBefore s
      else i \<noteq> UnderscoreBefore \<and> underscores_ok hex OtherBefore s)"

definition underscore_ok :: "string \<Rightarrow> bool" where
  "underscore_ok s =
     (case s of
        z # p # t \<Rightarrow>
          if z = CHR ''0'' \<and> lower_char p \<in> set ''box'' then underscores_ok (lower_char p = CHR ''x'') DigitBefore t
          else underscores_ok False OtherBefore s
      | _ \<Rightarrow> underscores_ok False OtherBefore s)"

definition parse_flag_int :: "string \<Rightarrow> int option" where
  "parse_flag_int s =
     (case split_sign s of (neg, u) \<Rightarrow>
        if u = '''' then None
        else case number_base u of (b, ds) \<Rightarrow>
          (case read_base b 0 ds of
             None \<Rightarrow> None
           | Some n \<Rightarrow>
               let v = (if neg then - int n else int n) in
               if in_i64 v \<and> (CHR ''_'' \<in> set u \<longrightarrow> underscore_ok u) then Some v else None))"

definition parse_bool :: "string \<Rightarrow> bool option" where
  "parse_bool s =
     (if s \<in> set [''1'', ''t'', ''T'', ''true'', ''TRUE'', ''True''] then Some True
      else if s \<in> set [''0'', ''f'', ''F'', ''false'', ''FALSE'', ''False''] then Some False
      else None)"

definition set_flag :: "flag_value \<Rightarrow> string \<Rightarrow> flag_value option" where
  "set_flag def s =
     (case def of
        BoolVal _ \<Rightarrow> map_option BoolVal (parse_bool s)
      | IntVal _ \<Rightarrow> map_option IntVal (parse_flag_int s)
      | StrVal _ \<Rightarrow> Some (StrVal s))"

definition put_flag :: "string \<Rightarrow> flag_value \<Rightarrow> flags \<Rightarrow> flags" where
  "put_flag k v fs = map (\<lambda>(k', v'). if k' = k then (k, v) else (k', v')) fs"

definition cut_equals :: "string \<Rightarrow> string \<times> string option" where
  "cut_equals name =
     (case dropWhile (\<lambda>c. c \<noteq> CHR ''='') name of
        [] \<Rightarrow> (name, None)
      | _ # v \<Rightarrow> (takeWhile (\<lambda>c. c \<noteq> CHR ''='') name, Some v))"

text \<open>
  \<^verbatim>\<open>FlagSet.Parse\<close> with \<^verbatim>\<open>ExitOnError\<close>: the status of an exit, or the flags and the arguments left.
\<close>

fun parse_flags :: "flags \<Rightarrow> string list \<Rightarrow> nat + (flags \<times> string list)" where
  "parse_flags fs [] = Inr (fs, [])"
| "parse_flags fs (s # rest) =
     (if length s < 2 \<or> hd s \<noteq> CHR ''-'' then Inr (fs, s # rest)
      else if s = ''--'' then Inr (fs, rest)
      else
        let body = (if s ! 1 = CHR ''-'' then drop 2 s else drop 1 s) in
        if hd body = CHR ''-'' \<or> hd body = CHR ''='' then Inl 2
        else case cut_equals body of (name, value) \<Rightarrow>
          (case map_of fs name of
             None \<Rightarrow> if name = ''help'' \<or> name = ''h'' then Inl 0 else Inl 2
           | Some (BoolVal b) \<Rightarrow>
               (case set_flag (BoolVal b) (case value of Some v \<Rightarrow> v | None \<Rightarrow> ''true'') of
                  None \<Rightarrow> Inl 2
                | Some v \<Rightarrow> parse_flags (put_flag name v fs) rest)
           | Some def \<Rightarrow>
               (case (value, rest) of
                  (Some v, _) \<Rightarrow>
                    (case set_flag def v of None \<Rightarrow> Inl 2 | Some x \<Rightarrow> parse_flags (put_flag name x fs) rest)
                | (None, []) \<Rightarrow> Inl 2
                | (None, v # rest') \<Rightarrow>
                    (case set_flag def v of None \<Rightarrow> Inl 2 | Some x \<Rightarrow> parse_flags (put_flag name x fs) rest'))))"

declare parse_flags.simps(2) [simp del]

definition int_flag :: "string \<Rightarrow> flags \<Rightarrow> int" where
  "int_flag k fs = (case map_of fs k of Some (IntVal i) \<Rightarrow> i | _ \<Rightarrow> 0)"

definition str_flag :: "string \<Rightarrow> flags \<Rightarrow> string" where
  "str_flag k fs = (case map_of fs k of Some (StrVal s) \<Rightarrow> s | _ \<Rightarrow> '''')"

definition bool_flag_of :: "string \<Rightarrow> flags \<Rightarrow> bool" where
  "bool_flag_of k fs = (map_of fs k = Some (BoolVal True))"

subsection \<open>What a process starts with\<close>

record process =
  pc_config :: path
  pc_workers :: int
  pc_recycle_days :: int
  pc_probe_timeout :: int
  pc_prune_ratio :: rat
  pc_grace :: int
  pc_watch :: bool
  pc_webhook_secret :: string
  pc_browse_roots :: "path list"
  pc_autoscan :: int
  pc_api_key :: string
  pc_secure_cookie :: bool

definition process_flags :: "environ \<Rightarrow> flags" where
  "process_flags e =
     [(''config'', StrVal (env e ''MUXPRUNE_CONFIG'' ''./data'')),
      (''workers'', IntVal (env_int_in e ''MUXPRUNE_WORKERS'' 1 1 64)),
      (''recycle-days'', IntVal (env_int_in e ''MUXPRUNE_RECYCLE_DAYS'' 7 0 3650))]"

definition serve_flags :: "environ \<Rightarrow> flags" where
  "serve_flags e =
     process_flags e @
     [(''port'', IntVal (env_int_in e ''MUXPRUNE_PORT'' 8484 1 65535)),
      (''api-key'', StrVal (env e ''MUXPRUNE_API_KEY'' ''''))]"

text \<open>What both kinds of server read; the key and the cookie are only for \<^verbatim>\<open>serve\<close>.\<close>

definition process_of :: "environ \<Rightarrow> flags \<Rightarrow> process" where
  "process_of e fs =
     \<lparr>pc_config = str_flag ''config'' fs, pc_workers = int_flag ''workers'' fs,
      pc_recycle_days = int_flag ''recycle-days'' fs,
      pc_probe_timeout = env_int_in e ''MUXPRUNE_PROBE_TIMEOUT'' 60 1 3600,
      pc_prune_ratio = env_float e ''MUXPRUNE_PRUNE_MAX_RATIO'' (fl64 (1 / 5)),
      pc_grace = env_int_in e ''MUXPRUNE_SHUTDOWN_GRACE'' 30 0 3600,
      pc_watch = env_bool e ''MUXPRUNE_WATCH'' True,
      pc_webhook_secret = env e ''MUXPRUNE_WEBHOOK_SECRET'' '''',
      pc_browse_roots = browse_roots e,
      pc_autoscan = env_int_in e ''MUXPRUNE_AUTOSCAN_DEFAULT'' 21600 0 31536000,
      pc_api_key = str_flag ''api-key'' fs,
      pc_secure_cookie = env_bool e ''MUXPRUNE_SECURE_COOKIE'' False\<rparr>"

definition bind_host :: "environ \<Rightarrow> string \<Rightarrow> string" where
  "bind_host e key =
     (let b = env e ''MUXPRUNE_BIND'' '''' in
      if b \<noteq> '''' then b else if key = '''' then ''127.0.0.1'' else ''0.0.0.0'')"

text \<open>\<^verbatim>\<open>strings.Trim(s, "[]")\<close> and \<^verbatim>\<open>net.JoinHostPort\<close>.\<close>

definition trim_brackets :: "string \<Rightarrow> string" where
  "trim_brackets s =
     (let inner = dropWhile (\<lambda>c. c \<in> set ''[]'') s in rev (dropWhile (\<lambda>c. c \<in> set ''[]'') (rev inner)))"

definition join_host_port :: "string \<Rightarrow> string \<Rightarrow> string" where
  "join_host_port host port =
     (if CHR '':'' \<in> set host then ''['' @ host @ '']:'' @ port else host @ '':'' @ port)"

definition listen_addr :: "environ \<Rightarrow> flags \<Rightarrow> string" where
  "listen_addr e fs =
     join_host_port (trim_brackets (bind_host e (str_flag ''api-key'' fs))) (itoa (int_flag ''port'' fs))"

text \<open>A process stops before it starts when a flag is wrong, the directory cannot be made, the
  database does not open or there is no ffprobe.\<close>

datatype cli_err =
    MkdirFailed
  | StoreClosed
  | NoFFprobe
  | Usage string
  | BadIndex string
  | EngineErr engine_err

datatype 'a ending = ExitStatus nat | Error cli_err | Done 'a

definition prepare :: "'w prober \<Rightarrow> (path \<Rightarrow> world \<Rightarrow> bool) \<Rightarrow> path \<Rightarrow> world \<Rightarrow> cli_err option \<times> world" where
  "prepare p opens dir w =
     (case os_mkdir_all dir w of
        (False, w1) \<Rightarrow> (Some MkdirFailed, w1)
      | (True, w1) \<Rightarrow>
          if \<not> opens (path_join dir ''muxprune.db'') w1 then (Some StoreClosed, w1)
          else if \<not> p_has_ffprobe p then (Some NoFFprobe, w1)
          else (None, w1))"

definition start_process ::
  "environ \<Rightarrow> 'w prober \<Rightarrow> (path \<Rightarrow> world \<Rightarrow> bool) \<Rightarrow> flags \<Rightarrow> string list \<Rightarrow> world \<Rightarrow> (process \<times> flags) ending \<times> world" where
  "start_process e p opens fs args w =
     (case parse_flags fs args of
        Inl n \<Rightarrow> (ExitStatus n, w)
      | Inr (fs', _) \<Rightarrow>
          (case prepare p opens (str_flag ''config'' fs') w of
             (Some err, w1) \<Rightarrow> (Error err, w1)
           | (None, w1) \<Rightarrow> (Done (process_of e fs', fs'), w1)))"

fun map_ending :: "('a \<Rightarrow> 'b) \<Rightarrow> 'a ending \<times> world \<Rightarrow> 'b ending \<times> world" where
  "map_ending f (ExitStatus n, w) = (ExitStatus n, w)"
| "map_ending f (Error err, w) = (Error err, w)"
| "map_ending f (Done a, w) = (Done (f a), w)"

definition run_serve ::
  "environ \<Rightarrow> 'w prober \<Rightarrow> (path \<Rightarrow> world \<Rightarrow> bool) \<Rightarrow> string list \<Rightarrow> world \<Rightarrow> (process \<times> string) ending \<times> world" where
  "run_serve e p opens args w =
     map_ending (\<lambda>(pr, fs). (pr, listen_addr e fs)) (start_process e p opens (serve_flags e) args w)"

definition run_mcp ::
  "environ \<Rightarrow> 'w prober \<Rightarrow> (path \<Rightarrow> world \<Rightarrow> bool) \<Rightarrow> string list \<Rightarrow> world \<Rightarrow> process ending \<times> world" where
  "run_mcp e p opens args w =
     map_ending (\<lambda>(pr, fs). pr\<lparr>pc_secure_cookie := False\<rparr>) (start_process e p opens (process_flags e) args w)"

text \<open>Where deleted sidecars go, for how long, and where merged files may come from.\<close>

definition recycle_dir :: "process \<Rightarrow> path" where
  "recycle_dir pr = (if 0 < pc_recycle_days pr then path_join (pc_config pr) ''recycle'' else '''')"

definition purge_age :: "process \<Rightarrow> int" where
  "purge_age pr = i64 (i64 (pc_recycle_days pr * 24) * (3600 * second))"

definition merge_roots :: "path list \<Rightarrow> store \<Rightarrow> path list \<times> store" where
  "merge_roots configured s =
     (case list_libraries s of
        (Inr libs, s1) \<Rightarrow> (configured @ map lb_path libs, s1)
      | (Inl _, s1) \<Rightarrow> (configured, s1))"

text \<open>One purge, then one after each wait, during which the world has changed.\<close>

fun purge_loop :: "path \<Rightarrow> int \<Rightarrow> (world \<Rightarrow> dir_listing) \<Rightarrow> (world \<Rightarrow> world) list \<Rightarrow> world \<Rightarrow> world" where
  "purge_loop dir age listing [] w = snd (purge_recycle dir age (listing w) w)"
| "purge_loop dir age listing (later # rest) w =
     purge_loop dir age listing rest (later (snd (purge_recycle dir age (listing w) w)))"

subsection \<open>Printing\<close>

text \<open>A finite number with one decimal: the exact value, ties to even.\<close>

definition tenths :: "rat \<Rightarrow> string" where
  "tenths x =
     (let q = nat (round_half_even (\<bar>x\<bar> * 10)) in
      (if x < 0 then ''-'' else '''') @ nat_digits (q div 10) @ ''.'' @ nat_digits (q mod 10))"

text \<open>The loop of \<^verbatim>\<open>human\<close>: the divisor and how often it grew.\<close>

function human_loop :: "int \<Rightarrow> int \<Rightarrow> nat \<Rightarrow> int \<times> nat" where
  "human_loop n dv ex = (if 1024 \<le> n then human_loop (quot n 1024) (i64 (dv * 1024)) (Suc ex) else (dv, ex))"
  by pat_completeness auto
termination
  by (relation "measure (\<lambda>(n, _, _). nat n)") (auto simp: quot_nonneg)

declare human_loop.simps [simp del]

definition human_units :: string where "human_units = ''KMGTPE''"

text \<open>\<open>None\<close>: the index is out of the range of the units, and Go panics.\<close>

definition human :: "int \<Rightarrow> string option" where
  "human b =
     (if b < 1024 then Some (itoa b @ '' B'')
      else case human_loop (quot b 1024) 1024 0 of (dv, ex) \<Rightarrow>
        if ex < length human_units
        then Some (tenths (fl64 (fl64 (of_int b) / fl64 (of_int dv))) @ '' '' @ [human_units ! ex] @ ''iB'')
        else None)"

function rune_count :: "string \<Rightarrow> nat" where
  "rune_count s =
     (if s = [] then 0
      else Suc (rune_count (case rune_len s of Some n \<Rightarrow> drop n s | None \<Rightarrow> tl s)))"
  by pat_completeness auto
termination
  by (relation "measure length") (auto dest: rune_len_pos split: option.splits)

declare rune_count.simps [simp del]

definition pad :: "nat \<Rightarrow> string \<Rightarrow> string" where
  "pad n s = s @ replicate (n - rune_count s) (CHR '' '')"

subsection \<open>Commands\<close>

definition stream_line :: "stream \<Rightarrow> string" where
  "stream_line st =
     ''  #'' @ pad 2 (itoa (st_index st)) @ '' '' @ pad 10 (st_type st) @ '' '' @ pad 12 (st_codec st) @ '' '' @
     pad 6 (if st_lang st = '''' then ''und'' else st_lang st) @
     (if st_type st = ''audio'' then '' '' @ itoa (st_channels st) @ ''ch '' @ st_layout st else '''') @
     (if st_default st then '' default'' else '''') @ (if st_forced st then '' forced'' else '''') @
     ''  '' @ st_title st"

datatype report = Lines "string list" | AsJson probe_result | Panicked

definition inspect_report :: "probe_result \<Rightarrow> report" where
  "inspect_report res =
     (case human (pr_size res) of
        None \<Rightarrow> Panicked
      | Some h \<Rightarrow>
          Lines (pr_path res #
            (''  format: '' @ pr_format res @ ''  duration: '' @ tenths (pr_duration res) @ ''s  size: '' @ h) #
            map stream_line (pr_streams res)))"

definition run_inspect :: "engine_env \<Rightarrow> string list \<Rightarrow> world \<Rightarrow> report ending \<times> world" where
  "run_inspect ev args w =
     (case parse_flags [(''json'', BoolVal False)] args of
        Inl n \<Rightarrow> (ExitStatus n, w)
      | Inr (fs, [p]) \<Rightarrow>
          (case probe_op ev p w of
             (Inl e, w1) \<Rightarrow> (Error (EngineErr e), w1)
           | (Inr res, w1) \<Rightarrow> (Done (if bool_flag_of ''json'' fs then AsJson res else inspect_report res), w1))
      | Inr _ \<Rightarrow> (Error (Usage ''inspect''), w))"

fun parse_indexes :: "string list \<Rightarrow> cli_err + int list" where
  "parse_indexes [] = Inr []"
| "parse_indexes (p # ps) =
     (case parse_int (trim_space p) of
        (_, Some _) \<Rightarrow> Inl (BadIndex p)
      | (n, None) \<Rightarrow> (case parse_indexes ps of Inl e \<Rightarrow> Inl e | Inr ns \<Rightarrow> Inr (n # ns)))"

definition parse_idx :: "string \<Rightarrow> cli_err + int list" where
  "parse_idx s = (if s = '''' then Inr [] else parse_indexes (split_on (CHR '','') s))"

definition strip_flags :: flags where
  "strip_flags = [(''audio'', StrVal ''''), (''subs'', StrVal ''''), (''all-subs'', BoolVal False),
     (''dry-run'', BoolVal False), (''allow-hardlink'', BoolVal False)]"

text \<open>With \<^verbatim>\<open>-all-subs\<close> the subtitles are those a probe of the file shows.\<close>

definition strip_subs :: "engine_env \<Rightarrow> bool \<Rightarrow> int list \<Rightarrow> path \<Rightarrow> int list engine_op" where
  "strip_subs ev all subs p =
     (if all then andthen (probe_op ev p) (\<lambda>res. ret (map st_index (streams_of_type res ''subtitle'')))
      else ret subs)"

definition strip_op :: "engine_env \<Rightarrow> flags \<Rightarrow> int list \<Rightarrow> int list \<Rightarrow> path \<Rightarrow> engine_result engine_op" where
  "strip_op ev fs audio subs p =
     andthen (strip_subs ev (bool_flag_of ''all-subs'' fs) subs p) (\<lambda>subs'.
     remove_tracks ev p \<lparr>rm_audio = audio, rm_subs = subs'\<rparr>
       \<lparr>op_allow_hardlink = bool_flag_of ''allow-hardlink'' fs, op_allow_last_audio = False,
        op_dry_run = bool_flag_of ''dry-run'' fs\<rparr>)"

definition strip_report :: "engine_result \<Rightarrow> report" where
  "strip_report r =
     (case human (er_saved r) of
        None \<Rightarrow> Panicked
      | Some h \<Rightarrow>
          if er_dry_run r then Lines [''dry run: '' @ er_command r, ''estimated savings: '' @ h]
          else Lines [''done via '' @ er_tool r @ '', saved '' @ h])"

definition run_strip :: "engine_env \<Rightarrow> string list \<Rightarrow> world \<Rightarrow> report ending \<times> world" where
  "run_strip ev args w =
     (case parse_flags strip_flags args of
        Inl n \<Rightarrow> (ExitStatus n, w)
      | Inr (fs, [p]) \<Rightarrow>
          (case (parse_idx (str_flag ''audio'' fs), parse_idx (str_flag ''subs'' fs)) of
             (Inl e, _) \<Rightarrow> (Error e, w)
           | (_, Inl e) \<Rightarrow> (Error e, w)
           | (Inr audio, Inr subs) \<Rightarrow>
               (case strip_op ev fs audio subs p w of
                  (Inl e, w1) \<Rightarrow> (Error (EngineErr e), w1)
                | (Inr r, w1) \<Rightarrow> (Done (strip_report r), w1)))
      | Inr _ \<Rightarrow> (Error (Usage ''strip''), w))"

text \<open>\<^verbatim>\<open>main\<close>: the command, \<^verbatim>\<open>serve\<close> when the first argument is none, and its arguments.\<close>

datatype command = CmdServe | CmdInspect | CmdStrip | CmdMcp | CmdVersion | CmdUnknown string

definition command_of :: "string list \<Rightarrow> command \<times> string list" where
  "command_of args =
     (case (case args of a # rest \<Rightarrow> if prefix ''-'' a then (''serve'', args) else (a, rest) | [] \<Rightarrow> (''serve'', [])) of
        (cmd, rest) \<Rightarrow>
          (if cmd = ''serve'' then CmdServe else if cmd = ''inspect'' then CmdInspect else if cmd = ''strip'' then CmdStrip
           else if cmd = ''mcp'' then CmdMcp else if cmd = ''version'' then CmdVersion else CmdUnknown cmd, rest))"

definition exit_status :: "'a ending \<Rightarrow> nat" where
  "exit_status r = (case r of ExitStatus n \<Rightarrow> n | Error _ \<Rightarrow> 1 | Done _ \<Rightarrow> 0)"

end
