(* ===== verification/Fleet.thy ===== *)
theory Fleet
  imports RunnerSteps
begin

text \<open>
  Several processes on one configuration directory, from \<^verbatim>\<open>startQueueOwner\<close> and \<^verbatim>\<open>lockFile\<close>: a
  server, and one process for each client of the Model Context Protocol. All of them call the store;
  the one that holds the lock of \<^verbatim>\<open>muxprune.lock\<close> runs the jobs. The lock belongs to an open file, so
  the kernel releases it when its process ends, in whatever way. On systems other than Unix \<^verbatim>\<open>lockFile\<close>
  locks nothing, and this theory does not apply.
\<close>

subsection \<open>Steps\<close>

datatype owner_pc = Waiting | Holding | Running | Gone

record fleet =
  fl_store :: store
  fl_lock :: "nat option"
  fl_pc :: "nat \<Rightarrow> owner_pc"
  fl_runner :: "nat \<Rightarrow> runner"

datatype lock_answer = Acquired | LockedByOther | LockError

text \<open>Opening the file may fail; \<^verbatim>\<open>LOCK_NB\<close> answers at once.\<close>

definition lock_file :: "nat \<Rightarrow> bool \<Rightarrow> fleet \<Rightarrow> lock_answer \<times> fleet" where
  "lock_file p io_error f =
     (if io_error then (LockError, f)
      else case fl_lock f of
        Some _ \<Rightarrow> (LockedByOther, f)
      | None \<Rightarrow> (Acquired, f\<lparr>fl_lock := Some p\<rparr>))"

definition process_at :: "nat \<Rightarrow> owner_pc \<Rightarrow> fleet \<Rightarrow> fleet" where
  "process_at p pc f = f\<lparr>fl_pc := (fl_pc f)(p := pc)\<rparr>"

text \<open>One round of the loop: whoever does not get the lock waits and tries again.\<close>

definition try_lock :: "nat \<Rightarrow> bool \<Rightarrow> fleet \<Rightarrow> fleet" where
  "try_lock p io_error f =
     (case lock_file p io_error f of
        (Acquired, f1) \<Rightarrow> process_at p Holding f1
      | (_, f1) \<Rightarrow> f1)"

text \<open>The runner of a process, on the database that all of them share.\<close>

definition runner_of :: "nat \<Rightarrow> fleet \<Rightarrow> runner" where
  "runner_of p f = (fl_runner f p)\<lparr>ru_store := fl_store f\<rparr>"

definition put_runner :: "nat \<Rightarrow> runner \<Rightarrow> fleet \<Rightarrow> fleet" where
  "put_runner p r f = f\<lparr>fl_runner := (fl_runner f)(p := r), fl_store := ru_store r\<rparr>"

definition start_runner :: "nat \<Rightarrow> fleet \<Rightarrow> fleet" where
  "start_runner p f = process_at p Running (put_runner p (started (fl_store f)) f)"

definition leave :: "nat \<Rightarrow> fleet \<Rightarrow> fleet" where
  "leave p f = (process_at p Gone f)\<lparr>fl_lock := (if fl_lock f = Some p then None else fl_lock f)\<rparr>"

inductive fleet_step :: "fleet \<Rightarrow> fleet \<Rightarrow> bool" where
  attempt: "fl_pc f p = Waiting \<Longrightarrow> fleet_step f (try_lock p io_error f)"
| start: "fl_pc f p = Holding \<Longrightarrow> fleet_step f (start_runner p f)"
| run: "fl_pc f p = Running \<Longrightarrow> runner_step (runner_of p f) r \<Longrightarrow> fleet_step f (put_runner p r f)"
| call: "outside_call q \<Longrightarrow> fleet_step f (f\<lparr>fl_store := exec q (fl_store f)\<rparr>)"
| leave: "fleet_step f (leave p f)"

definition fresh_fleet :: "store \<Rightarrow> (nat \<Rightarrow> runner) \<Rightarrow> fleet" where
  "fresh_fleet s rs = \<lparr>fl_store = s, fl_lock = None, fl_pc = (\<lambda>_. Waiting), fl_runner = rs\<rparr>"

inductive fleet_reached :: "fleet \<Rightarrow> bool" where
  fresh: "db_ok (s_db s) \<Longrightarrow> fleet_reached (fresh_fleet s rs)"
| step: "fleet_reached f \<Longrightarrow> fleet_step f f' \<Longrightarrow> fleet_reached f'"

inductive_cases fleet_stepE: "fleet_step f f'"

subsection \<open>The invariant\<close>

definition fleet_inv :: "fleet \<Rightarrow> bool" where
  "fleet_inv f \<longleftrightarrow> db_ok (s_db (fl_store f)) \<and>
     (\<forall>p. fl_pc f p \<in> {Holding, Running} \<longleftrightarrow> fl_lock f = Some p) \<and>
     (\<forall>p. fl_pc f p = Running \<longrightarrow> runner_inv (runner_of p f))"

lemma fleet_fields [simp]:
  "fl_store (process_at p pc f) = fl_store f" "fl_lock (process_at p pc f) = fl_lock f"
  "fl_pc (process_at p pc f) = (fl_pc f)(p := pc)" "fl_runner (process_at p pc f) = fl_runner f"
  "fl_store (put_runner p r f) = ru_store r" "fl_lock (put_runner p r f) = fl_lock f"
  "fl_pc (put_runner p r f) = fl_pc f" "fl_runner (put_runner p r f) = (fl_runner f)(p := r)"
  "fl_store (leave p f) = fl_store f" "fl_lock (leave p f) = (if fl_lock f = Some p then None else fl_lock f)"
  "fl_pc (leave p f) = (fl_pc f)(p := Gone)" "fl_runner (leave p f) = fl_runner f"
  by (simp_all add: process_at_def put_runner_def leave_def)

lemma runner_of_fields [simp]:
  "runner_of p (process_at q pc f) = runner_of p f" "runner_of p (leave q f) = runner_of p f"
  "runner_of p (f\<lparr>fl_lock := l\<rparr>) = runner_of p f" "runner_of p (put_runner p r f) = r"
  "ru_store (runner_of p f) = fl_store f" "ru_pc (runner_of p f) = ru_pc (fl_runner f p)"
  by (simp_all add: runner_of_def)

lemma try_lock_cases:
  "try_lock p io_error f = (if \<not> io_error \<and> fl_lock f = None then process_at p Holding (f\<lparr>fl_lock := Some p\<rparr>) else f)"
  by (auto simp: try_lock_def lock_file_def split: option.splits)

lemma one_owner: "fleet_inv f \<Longrightarrow> fl_pc f p \<in> {Holding, Running} \<Longrightarrow> fl_pc f q \<in> {Holding, Running} \<Longrightarrow> p = q"
  unfolding fleet_inv_def by (metis option.inject)

lemma inv_owner_step:
  assumes inv: "fleet_inv f" and p: "fl_pc f p \<in> {Holding, Running}" and r: "runner_inv r"
  shows "fleet_inv (process_at p Running (put_runner p r f))"
proof -
  have "fl_pc f q \<notin> {Holding, Running}" if "q \<noteq> p" for q using one_owner [OF inv p] that by blast
  with inv p r show ?thesis unfolding fleet_inv_def
    by (auto simp: runner_inv_def simp del: insert_iff)
qed

lemma put_runner_running: "fl_pc f p = Running \<Longrightarrow> put_runner p r f = process_at p Running (put_runner p r f)"
  by (simp add: process_at_def put_runner_def fun_upd_idem)

lemma inv_outside: "fleet_inv f \<Longrightarrow> outside_call q \<Longrightarrow> fleet_inv (f\<lparr>fl_store := exec q (fl_store f)\<rparr>)"
  using exec_ok [of "fl_store f" q] inv_call [of "runner_of _ f" q]
  by (simp add: fleet_inv_def runner_of_def store_call_def)

lemma fleet_step_inv:
  assumes "fleet_step f f'" "fleet_inv f"
  shows "fleet_inv f'"
  using assms(1)
proof cases
  case (attempt p b)
  with assms(2) show ?thesis
    by (auto simp: try_lock_cases fleet_inv_def simp del: insert_iff)
next
  case (start p)
  have "runner_inv (started (fl_store f))" using assms(2) by (simp add: started_inv fleet_inv_def)
  with inv_owner_step [OF assms(2)] start show ?thesis by (simp add: start_runner_def)
next
  case (run p r)
  with assms(2) have "runner_inv r" by (auto simp: fleet_inv_def intro: runner_step_inv)
  with inv_owner_step [OF assms(2), of p r] run put_runner_running [OF run(2), of r] show ?thesis by simp
next
  case (call q)
  with assms(2) show ?thesis by (simp add: inv_outside)
next
  case (leave p)
  with assms(2) show ?thesis by (auto simp: fleet_inv_def simp del: insert_iff)
qed

lemma fleet_reached_inv: "fleet_reached f \<Longrightarrow> fleet_inv f"
proof (induction rule: fleet_reached.induct)
  case (fresh s rs)
  then show ?case by (simp add: fleet_inv_def fresh_fleet_def)
qed (rule fleet_step_inv)

subsection \<open>A job that is held\<close>

text \<open>A step of a runner leaves a held job running, except when its own worker finishes it.\<close>

lemma runner_step_held:
  assumes "runner_step r r'" "runner_inv r" "held r t i"
  shows "board (s_db (ru_store r')) i = Some ''running'' \<or>
    (\<exists>j out. ru_pc r t = Finishing j out \<and> jb_id j = i \<and> ru_pc r' t = Idle)"
proof -
  have ok: "db_ok (s_db (ru_store r))" and b: "board (s_db (ru_store r)) i = Some ''running''"
    using assms(2,3) by (auto simp: runner_inv_def)
  have calm: "board (s_db (exec q (ru_store r))) i = Some ''running''" if "outside_call q" for q
    using calm_running [OF exec_calm_step [OF ok] b] that by (simp add: outside_call_def)
  from assms(1) show ?thesis
  proof cases
    case (claim u j s)
    from claim_board(1,2) [OF ok claim(3)] b claim(1) show ?thesis by auto
  next
    case (finished u j st msg n)
    show ?thesis
    proof (cases "jb_id j = i")
      case True
      with finished held_one [OF assms(2), of u j t] assms(3) show ?thesis by auto
    next
      case False
      then have "leaves_job i (FinishJob (jb_id j) st msg n)" by simp
      from exec_running [OF ok this b] finished(1) show ?thesis by (simp del: exec.simps)
    qed
  qed (use b calm in \<open>auto dest: claim_other simp: collect_def cancel_running_def\<close>)
qed

lemma fleet_running:
  assumes "fleet_reached f" "fl_pc f p = Running"
  shows "runner_inv (runner_of p f)" "db_ok (s_db (fl_store f))"
    "\<And>t i. held (runner_of p f) t i \<Longrightarrow> board (s_db (fl_store f)) i = Some ''running''"
    "\<And>q. fl_pc f q \<in> {Holding, Running} \<Longrightarrow> q = p"
proof -
  have inv: "fleet_inv f" by (rule fleet_reached_inv [OF assms(1)])
  then show r: "runner_inv (runner_of p f)" and "db_ok (s_db (fl_store f))"
    using assms(2) by (simp_all add: fleet_inv_def)
  from r show "board (s_db (fl_store f)) i = Some ''running''" if "held (runner_of p f) t i" for t i
    using that by (auto simp: runner_inv_def)
  show "q = p" if "fl_pc f q \<in> {Holding, Running}" for q
    using one_owner [OF inv that, of p] assms(2) by simp
qed

end
