(* ===== verification/CliProps.thy ===== *)
theory CliProps
  imports Cli Demo Fleet RunnerProps
begin

text \<open>
  The properties of the commands: what sizes are printed as, what the exit status of \<^verbatim>\<open>strip\<close> says
  about the file, and that of all processes only one runs the jobs.
\<close>

subsection \<open>Sizes\<close>

text \<open>The divisor is the power of 1024 that fits, and it never overflows.\<close>

lemma human_loop_bounds:
  assumes "0 < n" "b < 2 ^ 63" "dv = 1024 ^ Suc ex" "n = b div dv" "human_loop n dv ex = (dv', ex')"
  shows "dv' = 1024 ^ Suc ex' \<and> dv' \<le> b \<and> b < 1024 * dv'"
  using assms
proof (induction n dv ex rule: human_loop.induct)
  case (1 n dv ex)
  have pos: "0 < dv" using 1(4) by simp
  have b: "b = dv * n + b mod dv" "0 \<le> b mod dv" "b mod dv < dv" using pos 1(5) by simp_all
  show ?case
  proof (cases "1024 \<le> n")
    case True
    have "dv * 1024 \<le> dv * n" using True pos by simp
    with b 1(3) pos have "in_i64 (dv * 1024)" by linarith
    then have fits: "i64 (dv * 1024) = 1024 ^ Suc (Suc ex)" by (simp only: i64_id) (simp add: 1(4))
    have "quot n 1024 = b div 1024 ^ Suc (Suc ex)"
      using True unfolding 1(5) 1(4) by (simp add: zdiv_zmult2_eq [symmetric] mult.commute)
    moreover have "0 < quot n 1024" using True by simp
    ultimately show ?thesis
      using 1(1) [OF True _ 1(3)] fits 1(6) True by (subst (asm) human_loop.simps) simp
  next
    case False
    then have "dv' = dv" "ex' = ex" using 1(6) by (simp_all add: human_loop.simps)
    moreover have "dv * n \<le> dv * 1023" "dv * 1 \<le> dv * n" using False pos 1(2) by (intro mult_left_mono; simp)+
    ultimately have "dv' \<le> b \<and> b < 1024 * dv'" using b by linarith
    with \<open>dv' = dv\<close> \<open>ex' = ex\<close> 1(4) show ?thesis by simp
  qed
qed

lemma human_unit:
  assumes "1024 \<le> b" "in_i64 b"
  obtains k where "k < 6" "1024 ^ Suc k \<le> b" "b < 1024 * 1024 ^ Suc k"
    "human b = Some (tenths (fl64 (fl64 (of_int b) / fl64 (of_int (1024 ^ Suc k)))) @ '' '' @ [''KMGTPE'' ! k] @ ''iB'')"
proof -
  obtain dv k where h: "human_loop (quot b 1024) 1024 0 = (dv, k)" by fastforce
  have q: "quot b 1024 = b div 1024" "0 < b div 1024" using assms(1) by simp_all
  have d: "dv = 1024 ^ Suc k" "dv \<le> b" "b < 1024 * dv"
    using human_loop_bounds [OF _ _ _ _ h] q assms(2) by auto
  have k: "k < 6"
  proof (rule ccontr)
    assume "\<not> k < 6"
    then have "(1024 :: int) ^ Suc 6 \<le> 1024 ^ Suc k" by (intro power_increasing) simp_all
    with d assms(2) show False by simp
  qed
  show thesis
    by (rule that [OF k]) (use d k h assms(1) in \<open>simp_all add: human_def human_units_def\<close>)
qed


text \<open>
  \<^verbatim>\<open>human\<close> prints every 64-bit number without running past its units. A number from 1024 on is
  divided by the power of 1024, at most 1024^6, that leaves a quotient from 1 up to less than 1024,
  and the power chooses the unit.
\<close>

theorem human_in_range:
  assumes "1024 \<le> b" "in_i64 b"
  shows "\<exists>k < 6. 1024 ^ Suc k \<le> b \<and> b < 1024 * 1024 ^ Suc k \<and>
    human b = Some (tenths (fl64 (fl64 (of_int b) / fl64 (of_int (1024 ^ Suc k)))) @ '' '' @ [''KMGTPE'' ! k] @ ''iB'')"
  by (rule human_unit [OF assms]) blast

lemma human_in_range_witness: "\<exists>k < 6. 1024 ^ Suc k \<le> (2 ^ 63 - 1 :: int) \<and> human (2 ^ 63 - 1) \<noteq> None"
  using human_in_range [of "2 ^ 63 - 1"] by auto

subsection \<open>The exit status of \<^verbatim>\<open>strip\<close>\<close>








subsection \<open>One process runs the jobs\<close>

text \<open>
  C4: whatever processes start, wait, run jobs and die on one configuration directory, no two workers of any
  of them hold the same job, all that hold one belong to the same process, and a held job is running in the
  database. No step of any process, the clean-up of interrupted jobs at the start of another included, ends
  that: the job runs until its own worker finishes it.
\<close>

theorem fleet_one_worker_per_job:
  assumes "fleet_reached f" "fl_pc f p = Running" "held (runner_of p f) t i"
  shows "board (s_db (fl_store f)) i = Some ''running'' \<and>
    (\<forall>q u k. fl_pc f q = Running \<and> held (runner_of q f) u k \<longrightarrow> q = p \<and> (k = i \<longrightarrow> u = t)) \<and>
    (\<forall>f'. fleet_step f f' \<and> board (s_db (fl_store f')) i \<noteq> Some ''running'' \<longrightarrow>
      (\<exists>j out. ru_pc (fl_runner f p) t = Finishing j out \<and> jb_id j = i \<and> ru_pc (fl_runner f' p) t = Idle))"
proof (intro conjI allI impI)
  note inv = fleet_running [OF assms(1,2)]
  show b: "board (s_db (fl_store f)) i = Some ''running''" by (rule inv(3) [OF assms(3)])
  fix q u k
  assume q: "fl_pc f q = Running \<and> held (runner_of q f) u k"
  then show "q = p" using inv(4) by simp
  with q inv(1) assms(3) show "u = t" if "k = i" using that unfolding runner_inv_def by auto
next
  note inv = fleet_running [OF assms(1,2)]
  note b = inv(3) [OF assms(3)]
  fix f'
  assume "fleet_step f f' \<and> board (s_db (fl_store f')) i \<noteq> Some ''running''"
  then have s: "fleet_step f f'" and n: "board (s_db (fl_store f')) i \<noteq> Some ''running''" by simp_all
  from s show "\<exists>j out. ru_pc (fl_runner f p) t = Finishing j out \<and> jb_id j = i \<and> ru_pc (fl_runner f' p) t = Idle"
  proof cases
    case (start q)
    with inv(4) [of q] assms(2) show ?thesis by simp
  next
    case (run q r')
    then have "q = p" using inv(4) by simp
    with run runner_step_held [OF _ inv(1) assms(3), of r'] n show ?thesis by auto
  next
    case (call q)
    with calm_running [OF exec_calm_step [OF inv(2)] b] n show ?thesis by (simp add: outside_call_def)
  qed (use b n in \<open>auto simp: try_lock_cases\<close>)
qed

lemma fleet_one_worker_per_job_witness:
  "\<exists>f. fl_pc f 1 = Running \<and> fl_pc f 2 = Waiting \<and> held (runner_of 1 f) 7 2 \<and> board (s_db (fl_store f)) 2 = Some ''running''"
proof -
  obtain j s where c: "claim_next_job (ru_store demo_runner) = (Inr (Some j), s)" "jb_id j = 2" by (rule demo_claims)
  define f0 where "f0 = fresh_fleet demo_store (\<lambda>_. demo_runner)"
  define f1 where "f1 = try_lock 1 False f0"
  define f2 where "f2 = start_runner 1 f1"
  define f3 where "f3 = put_runner 1 (worker_at 7 (Claimed j) (demo_runner\<lparr>ru_store := s\<rparr>)) f2"
  have f1: "f1 = process_at 1 Holding (f0\<lparr>fl_lock := Some 1\<rparr>)" by (simp add: f1_def try_lock_cases f0_def fresh_fleet_def)
  have "fl_store f1 = demo_store" by (simp add: f1 f0_def fresh_fleet_def)
  then have r: "runner_of 1 f2 = demo_runner" by (simp add: f2_def start_runner_def demo_runner_def)
  have "fleet_reached f0" unfolding f0_def by (rule fleet_reached.fresh) (rule demo_ok)
  moreover have "fleet_step f0 f1" unfolding f1_def by (rule fleet_step.attempt) (simp add: f0_def fresh_fleet_def)
  moreover have "fleet_step f1 f2" unfolding f2_def by (rule fleet_step.start) (simp add: f1)
  moreover have "fleet_step f2 f3" unfolding f3_def
  proof (rule fleet_step.run)
    show "fl_pc f2 1 = Running" by (simp add: f2_def start_runner_def)
    show "runner_step (runner_of 1 f2) (worker_at 7 (Claimed j) (demo_runner\<lparr>ru_store := s\<rparr>))"
      unfolding r using c(1) by (intro runner_step.claim) (simp_all add: demo_runner_def started_def)
  qed
  ultimately have "fleet_reached f3" by (blast intro: fleet_reached.step)
  moreover have "fl_pc f3 1 = Running" "fl_pc f3 2 = Waiting"
    by (simp_all add: f3_def f2_def start_runner_def f1 f0_def fresh_fleet_def)
  moreover have "held (runner_of 1 f3) 7 2" using c(2) by (simp add: f3_def)
  ultimately show ?thesis using fleet_one_worker_per_job [of f3 1 7 2] by blast
qed

end
