(* ===== verification/Spec2Isabelle.thy ===== *)
theory Spec2Isabelle
  imports EngineProps TrackIds StoreProps Locks RecycleProps ScanProps RunnerProps SecurityProps SchemaProps MonitorProps Hub McpProps ApiProps CliProps
begin

text \<open>
  muxprune, a server that removes unwanted audio and subtitle tracks from media files.

  \<^bold>\<open>The program.\<close> A library is a directory of videos. The scanner (\<^verbatim>\<open>internal/scan\<close>) walks it, asks the prober
  (\<^verbatim>\<open>internal/probe\<close>) what streams each video has and keeps one record per video and per external subtitle in
  the database (\<^verbatim>\<open>internal/store\<close>). A user, a browser or a language model's client asks through the API
  (\<^verbatim>\<open>internal/api\<close>) for a change; the API checks the request and queues a job with a fingerprint of the file. A
  worker of the runner (\<^verbatim>\<open>internal/jobs\<close>) claims the job, compares the fingerprint, calls the engine
  (\<^verbatim>\<open>internal/engine\<close>) under the lock of the path, refreshes the record and writes the outcome. The engine remuxes
  into a temporary file beside the original, verifies it and renames it over the original, or moves a subtitle to the
  recycle bin. The monitor (\<^verbatim>\<open>internal/watch\<close>) queues scans by the clock and when a watched directory changes. Of
  several processes on one configuration directory the one that holds a lock file runs the jobs
  (\<^verbatim>\<open>cmd/muxprune/main.go\<close>), which also has the commands \<^verbatim>\<open>inspect\<close> and \<^verbatim>\<open>strip\<close>.

  \<^bold>\<open>Conventions.\<close> A definition has the name of the function it models, in snake case; a Go function that returns
  \<^verbatim>\<open>(T, error)\<close> is an operation \<open>'s \<Rightarrow> ('e + 'a) \<times> 's\<close> on the state it works on, and \<open>andthen\<close> is the return
  on an error (\<open>Prelude\<close>). What may fail on its own, a system call or a SQL statement, takes its outcome from a list of
  faults in the state, so a theorem about all states is about all patterns of failures; an exhausted list
  means success. Strings are Go's byte strings. Integers are unbounded with \<open>i64\<close> written where the code adds or
  multiplies numbers it did not bound; \<^verbatim>\<open>float64\<close> is a rational rounded to 53 bits (\<open>GoFloat\<close>). External programs
  and services are parameters: ffprobe, mkvmerge and the tools that write files, fsnotify, the SQL driver, the HTTP
  client. What a theorem needs of them is a named hypothesis: \<open>remux_confined\<close> (a tool writes only its output
  file), \<open>tool_names\<close>, \<open>fs_ok\<close> (names of the file system refer to existing inodes), \<open>distinct_indexes\<close> (ffprobe
  numbers the streams), \<open>honest_faults\<close> (only SQLite's error for an existing column says so).

  \<^bold>\<open>The theories and the code.\<close>

  \<^item> \<open>GoStr\<close>, \<open>GoPath\<close>, \<open>GoFloat\<close>, \<open>Table\<close>: the functions of Go's library that the program uses, and SQL tables with
    integer keys (locale \<open>id_table\<close>, interpreted for the four tables).
  \<^item> \<open>Probe\<close>: \<^verbatim>\<open>internal/probe/probe.go\<close>, with the locale \<open>stream_prober\<close> for what the engine relies on:
    interpreted for \<open>probe\<close>, used in \<open>TrackIds\<close>.
  \<^item> \<open>EnginePlan\<close>, \<open>PlanProps\<close>: the decisions of \<^verbatim>\<open>internal/engine/engine.go\<close> that touch no file, such as validation,
    command lines and the checks of an output. \<open>OsModel\<close>: names, inodes, symbolic links (at most 40 on a path
    for the system, 255 in \<^verbatim>\<open>EvalSymlinks\<close>, the limits of Linux and Go), directories, free space. \<open>EngineRun\<close>, \<open>RunProps\<close>: the
    four operations on it, \<open>RemoveTracks\<close>, \<open>ReorderTracks\<close>, \<open>MergeTracks\<close> and \<open>EditMetadata\<close>, and what each leaves alone:
    relations between states that are instances of the locale \<open>frame\<close> pass through every combinator, and those of
    \<open>frame_into\<close> weaken one after the first steps. \<open>Demo\<close>: a concrete engine for the witnesses. \<open>EngineProps\<close>,
    \<open>TrackIds\<close>: the properties.
  \<^item> \<open>Locks\<close>: the per-path locks, as interleaved goroutines. \<open>Recycle\<close>, \<open>RecycleProps\<close>, \<open>Stamp\<close>: deleting subtitles, the
    recycle bin, its unique names and its purge, and the time stamp that both use.
  \<^item> \<open>Schema\<close>, \<open>SchemaProps\<close>: opening and migrating the database. \<open>Store\<close>, \<open>JobStore\<close>, \<open>FileList\<close>: every other method of
    \<^verbatim>\<open>internal/store/store.go\<close>, as operations on records. \<open>StoreInv\<close>, \<open>StoreTrace\<close>, \<open>JobProps\<close>, \<open>FileProps\<close>,
    \<open>StoreProps\<close>: integrity of keys and references, the states that calls reach, and the job queue as a refinement of a
    board of statuses. The locale \<open>db_frame\<close> states what every call may rely on.
  \<^item> \<open>Sidecar\<close>, \<open>Scanner\<close>, \<open>ScanProps\<close>: \<^verbatim>\<open>internal/scan\<close>, on the machine of file system and database of \<open>Machine\<close>.
  \<^item> \<open>Payload\<close>, \<open>Runner\<close>, \<open>JobFrames\<close>: \<^verbatim>\<open>internal/jobs\<close>, one job; the locale \<open>media_frame\<close> is the interface through which a
    job reaches the media tables. \<open>RunnerSteps\<close>, \<open>RunnerProps\<close>: the workers, \<^verbatim>\<open>Cancel\<close> and \<^verbatim>\<open>Start\<close> as a step relation.
  \<^item> \<open>Watcher\<close>, \<open>Monitor\<close>, \<open>WatchProps\<close>, \<open>MonitorProps\<close>: \<^verbatim>\<open>internal/watch\<close> and \<^verbatim>\<open>startMonitor\<close>.
  \<^item> \<open>Security\<close>, \<open>SecurityProps\<close>: \<^verbatim>\<open>internal/api/security.go\<close> and the middleware of \<^verbatim>\<open>server.go\<close>. \<open>Handlers\<close>, \<open>FileHandlers\<close>,
    \<open>HandlerProps\<close>: its handlers. \<open>Hub\<close>: \<^verbatim>\<open>hub.go\<close>. \<open>Mcp\<close>, \<open>McpProps\<close>: \<^verbatim>\<open>mcp.go\<close>. \<open>Api\<close>, \<open>ApiProps\<close>: the routes, and a request
    as one step of a process.
  \<^item> \<open>Cli\<close>, \<open>CliProps\<close>, \<open>Fleet\<close>: \<^verbatim>\<open>cmd/muxprune/main.go\<close>, and several processes on one directory.

  \<^bold>\<open>What is shown.\<close> Of the engine: a removal, a reorder or a merge that succeeds has replaced exactly its path by a file
  that passed verification, one that fails has changed no file; the original is renamed over only while it is still the file
  examined; validation and verification together keep the video, the streams not named and an audio stream; the
  command line of whichever tool names exactly the requested streams; files with several hard links are refused
  without the override. Of the recycle bin: no failure loses a subtitle's content, and a recycled file is purged
  by the age its name was given. Of the database: integrity in every reachable state, the refinement of the job queue, the
  types of rows through a migration. Of a scan: it forgets neither a video that is still there nor, when something
  was unreadable, anything. Of the runner: one worker per job over all workers and processes, cancellation that cannot get
  lost, statuses that follow the board. Of the API: a request that does not prove itself reaches no
  data, guesses and rates are bounded, paths stay inside the allowed roots, refused requests change nothing, the protocol's
  tools do what the handlers do. Of the monitor: each due library gets exactly one scan, a change reaches a scan,
  watched directories are bounded. Of the locks: exclusion and progress. Of the events: order and bounded queues.
  Of the command line: status 0 of \<^verbatim>\<open>strip\<close> is never claimed for a file that was not replaced.

  \<^bold>\<open>Bounds.\<close> The constants are those of the code: 500 rows per batched update, 64 events per subscriber, 100 messages per session of the tools,
  8192 watched directories, 4000 bytes of a job's log, ten wrong keys per minute. No definition has fuel of its own
  beyond the limits on symbolic links, which are the system's; the search for a free name in the recycle bin
  is an option whose value \<open>unique_dst_ends\<close> shows to exist.

  \<^bold>\<open>Not modelled.\<close> The web page (JavaScript). The text of JSON and its fractional numbers: bodies, payloads and answers
  are values. Sockets, streaming, time limits and shutdown of the HTTP server, and the fixed headers of
  \<^verbatim>\<open>wrap\<close>. Notices on standard error, progress events of a scan and the wording of errors below the API. What the pragmas of the
  database do; SQL is its documented meaning. Folding of letters other than ASCII in names. The stubs for other
  systems (\<^verbatim>\<open>attrs_other.go\<close>, \<^verbatim>\<open>lock_other.go\<close> and their like): the model is the program on Unix. The wake-up
  channel and the ticker of the workers, which decide when a step happens: any time is allowed.
\<close>

end
